(* ===== verification/Acp_Prelude.thy ===== *)
theory Acp_Prelude
  imports Main "HOL-Library.Char_ord" "HOL-Library.List_Lexorder"
begin

text \<open>
  Shared ground of the development: the collections of simplification rules, the
  integer operations of the standard library that the sources use (checked and
  saturating arithmetic on 64-bit unsigned values), the \<open>?\<close> operator on results as
  a bind on sums, \<open>for\<close> loops whose body may return early, and the two string maps
  of the program: \<open>BTreeMap\<close> (sorted) and \<open>serde_json::Map\<close> (insertion order), which
  satisfy one contract, the locale \<open>string_map\<close>.

  A Rust \<open>String\<close> is a HOL \<open>string\<close>, one \<open>char\<close> per UTF-8 byte, so that
  \<open>str::len\<close> is \<open>length\<close>. \<open>u64\<close> and \<open>usize\<close> (on the 64-bit targets the server
  supports) are natural numbers with their upper bound written out in every operation.
\<close>

named_theorems result_simps \<open>rules of the result monad\<close>
named_theorems arith_ops \<open>definitions of the integer operations\<close>

section \<open>Unsigned 64-bit arithmetic\<close>

type_synonym u64 = nat
type_synonym usize = nat
type_synonym i32 = int

definition u64_max :: nat where
  "u64_max = 18446744073709551615"

definition checked_add :: "u64 \<Rightarrow> u64 \<Rightarrow> u64 option" where
  [arith_ops]: "checked_add a b = (if a + b \<le> u64_max then Some (a + b) else None)"

definition checked_sub :: "u64 \<Rightarrow> u64 \<Rightarrow> u64 option" where
  [arith_ops]: "checked_sub a b = (if b \<le> a then Some (a - b) else None)"

definition saturating_add :: "u64 \<Rightarrow> u64 \<Rightarrow> u64" where
  [arith_ops]: "saturating_add a b = min u64_max (a + b)"

definition saturating_sub :: "u64 \<Rightarrow> u64 \<Rightarrow> u64" where
  [arith_ops]: "saturating_sub a b = a - b"

definition saturating_mul :: "u64 \<Rightarrow> u64 \<Rightarrow> u64" where
  [arith_ops]: "saturating_mul a b = min u64_max (a * b)"

text \<open>\<open>AtomicU64::fetch_add\<close> wraps around on overflow.\<close>

definition fetch_add :: "u64 \<Rightarrow> u64 \<Rightarrow> u64" where
  [arith_ops]: "fetch_add a b = (a + b) mod (u64_max + 1)"

lemma checked_add_Some_iff:
  "checked_add a b = Some c \<longleftrightarrow> c = a + b \<and> a + b \<le> u64_max"
  by (auto simp: checked_add_def)

lemma checked_add_None_iff: "checked_add a b = None \<longleftrightarrow> u64_max < a + b"
  by (auto simp: checked_add_def)

lemma saturating_add_exact [simp]: "a + b \<le> u64_max \<Longrightarrow> saturating_add a b = a + b"
  by (simp add: saturating_add_def)

lemma saturating_add_le_iff:
  "c < u64_max \<Longrightarrow> saturating_add a b \<le> c \<longleftrightarrow> a + b \<le> c"
  by (auto simp: saturating_add_def)

lemma saturating_add_leD: "saturating_add a b \<le> c \<Longrightarrow> a + b \<le> c \<or> u64_max \<le> c"
  by (auto simp: saturating_add_def min_def split: if_splits)

section \<open>Results and loops that return early\<close>

text \<open>\<open>Result<T>\<close> is \<open>'e + 'a\<close> with \<open>Inl\<close> the error; \<open>rbind\<close> is the \<open>?\<close> operator.\<close>

definition rbind :: "'e + 'a \<Rightarrow> ('a \<Rightarrow> 'e + 'b) \<Rightarrow> 'e + 'b" where
  "rbind r f = (case r of Inl e \<Rightarrow> Inl e | Inr x \<Rightarrow> f x)"

lemma rbind_simps [simp, result_simps]:
  "rbind (Inl e) f = Inl e"
  "rbind (Inr x) f = f x"
  by (simp_all add: rbind_def)

lemma rbind_Inr_iff: "rbind r f = Inr y \<longleftrightarrow> (\<exists>x. r = Inr x \<and> f x = Inr y)"
  by (cases r) auto

lemma rbind_Inl_iff: "rbind r f = Inl e \<longleftrightarrow> r = Inl e \<or> (\<exists>x. r = Inr x \<and> f x = Inl e)"
  by (cases r) auto

definition map_err :: "('e \<Rightarrow> 'f) \<Rightarrow> 'e + 'a \<Rightarrow> 'f + 'a" where
  "map_err f r = (case r of Inl e \<Rightarrow> Inl (f e) | Inr x \<Rightarrow> Inr x)"

lemma map_err_simps [simp, result_simps]:
  "map_err f (Inl e) = Inl (f e)"
  "map_err f (Inr x) = Inr x"
  by (simp_all add: map_err_def)

lemma map_err_Inr_iff [simp]: "map_err f r = Inr x \<longleftrightarrow> r = Inr x"
  by (cases r) auto

definition ok_or :: "'e \<Rightarrow> 'a option \<Rightarrow> 'e + 'a" where
  "ok_or e x = (case x of None \<Rightarrow> Inl e | Some y \<Rightarrow> Inr y)"

lemma ok_or_simps [simp, result_simps]:
  "ok_or e None = Inl e"
  "ok_or e (Some y) = Inr y"
  by (simp_all add: ok_or_def)

lemma ok_or_Inr_iff [simp]: "ok_or e x = Inr y \<longleftrightarrow> x = Some y"
  by (cases x) auto

definition is_ok :: "'e + 'a \<Rightarrow> bool" where
  "is_ok r = (case r of Inl _ \<Rightarrow> False | Inr _ \<Rightarrow> True)"

lemma is_ok_simps [simp, result_simps]:
  "is_ok (Inl e) = False"
  "is_ok (Inr x) = True"
  by (simp_all add: is_ok_def)

lemma is_ok_unit_iff: "is_ok r \<longleftrightarrow> r = Inr ()"
  by (cases r) auto

lemma is_ok_rbind_unit: "is_ok (rbind r f) \<longleftrightarrow> is_ok r \<and> (\<forall>x. r = Inr x \<longrightarrow> is_ok (f x))"
  by (cases r) auto

lemma is_ok_map_err [simp]: "is_ok (map_err f r) = is_ok r"
  by (cases r) auto

text \<open>\<open>for x in xs { body(x)?; }\<close>: the body runs in order and the first error returns.\<close>

fun try_for :: "('a \<Rightarrow> 'e + unit) \<Rightarrow> 'a list \<Rightarrow> 'e + unit" where
  "try_for f [] = Inr ()"
| "try_for f (x # xs) = rbind (f x) (\<lambda>_. try_for f xs)"

lemma try_for_ok_iff: "try_for f xs = Inr () \<longleftrightarrow> (\<forall>x\<in>set xs. f x = Inr ())"
  by (induction xs) (auto simp: rbind_Inr_iff)

lemma try_for_Inr_iff: "try_for f xs = Inr u \<longleftrightarrow> (\<forall>x\<in>set xs. f x = Inr ())"
  using try_for_ok_iff [of f xs] by simp

lemma try_for_err: "try_for f xs = Inl e \<Longrightarrow> \<exists>x\<in>set xs. f x = Inl e"
  by (induction xs) (auto simp: rbind_Inl_iff)

lemma try_for_append: "try_for f (xs @ ys) = rbind (try_for f xs) (\<lambda>_. try_for f ys)"
proof (induction xs)
  case Nil
  show ?case by simp
next
  case (Cons x xs)
  then show ?case by (cases "f x") auto
qed

text \<open>The same with an accumulator that the body updates.\<close>

fun try_fold :: "('s \<Rightarrow> 'a \<Rightarrow> 'e + 's) \<Rightarrow> 's \<Rightarrow> 'a list \<Rightarrow> 'e + 's" where
  "try_fold f s [] = Inr s"
| "try_fold f s (x # xs) = rbind (f s x) (\<lambda>s'. try_fold f s' xs)"

lemma try_fold_append:
  "try_fold f s (xs @ ys) = rbind (try_fold f s xs) (\<lambda>s'. try_fold f s' ys)"
proof (induction xs arbitrary: s)
  case Nil
  show ?case by simp
next
  case (Cons x xs)
  then show ?case by (cases "f s x") auto
qed

lemma try_fold_invariant:
  assumes "try_fold f s xs = Inr s'" and "P s"
    and "\<And>s x s'. x \<in> set xs \<Longrightarrow> P s \<Longrightarrow> f s x = Inr s' \<Longrightarrow> P s'"
  shows "P s'"
  using assms
proof (induction xs arbitrary: s)
  case Nil
  then show ?case by simp
next
  case (Cons x xs)
  then obtain s1 where s1: "f s x = Inr s1" "try_fold f s1 xs = Inr s'"
    by (auto simp: rbind_Inr_iff)
  have "P s1" using Cons.prems(2,3) s1(1) by auto
  then show ?case using Cons.IH [OF s1(2)] Cons.prems(3) by auto
qed

section \<open>String maps\<close>

text \<open>The contract both maps of the program satisfy: a key looked up after an insertion.\<close>

locale string_map =
  fixes lookup :: "'m \<Rightarrow> string \<Rightarrow> 'v option"
    and insert_at :: "string \<Rightarrow> 'v \<Rightarrow> 'm \<Rightarrow> 'm"
    and invar :: "'m \<Rightarrow> bool"
  assumes lookup_insert: "lookup (insert_at k v m) x = (if x = k then Some v else lookup m x)"
    and invar_insert: "invar m \<Longrightarrow> invar (insert_at k v m)"
begin

text \<open>\<open>extend\<close> inserts the pairs of another map in turn: the last write of a key wins.\<close>

lemma lookup_fold_insert:
  "lookup (fold (\<lambda>(k, v). insert_at k v) kvs m) x
   = (case map_of (rev kvs) x of Some v \<Rightarrow> Some v | None \<Rightarrow> lookup m x)"
  by (induction kvs arbitrary: m)
     (auto simp: lookup_insert map_add_def split: option.splits)

lemma invar_fold_insert: "invar m \<Longrightarrow> invar (fold (\<lambda>(k, v). insert_at k v) kvs m)"
  by (induction kvs arbitrary: m) (auto simp: invar_insert)

lemma insert_commute_lookup:
  "k \<noteq> k' \<Longrightarrow> lookup (insert_at k v (insert_at k' v' m)) = lookup (insert_at k' v' (insert_at k v m))"
  by (rule ext) (auto simp: lookup_insert)

end

text \<open>\<open>BTreeMap<String, V>\<close>: an association list with strictly increasing keys.\<close>

type_synonym 'v btree = "(string \<times> 'v) list"

fun btree_insert :: "string \<Rightarrow> 'v \<Rightarrow> 'v btree \<Rightarrow> 'v btree" where
  "btree_insert k v [] = [(k, v)]"
| "btree_insert k v ((k', v') # m) =
     (if k < k' then (k, v) # (k', v') # m
      else if k = k' then (k, v) # m
      else (k', v') # btree_insert k v m)"

definition btree_inv :: "'v btree \<Rightarrow> bool" where
  "btree_inv m \<longleftrightarrow> sorted_wrt (<) (map fst m)"

lemma map_of_btree_insert:
  "map_of (btree_insert k v m) x = (if x = k then Some v else map_of m x)"
  by (induction m) auto

lemma keys_btree_insert: "fst ` set (btree_insert k v m) = insert k (fst ` set m)"
  by (induction k v m rule: btree_insert.induct) (auto simp: insert_commute)

lemma btree_inv_Cons [simp]:
  "btree_inv ((k, v) # m) \<longleftrightarrow> (\<forall>k'\<in>fst ` set m. k < k') \<and> btree_inv m"
  by (auto simp: btree_inv_def)

lemma btree_inv_Nil [simp]: "btree_inv []"
  by (simp add: btree_inv_def)

lemma btree_inv_insert: "btree_inv m \<Longrightarrow> btree_inv (btree_insert k v m)"
proof (induction m)
  case Nil
  show ?case by simp
next
  case (Cons kv m)
  obtain k' v' where kv: "kv = (k', v')" by (cases kv)
  from Cons.prems kv have lt: "\<forall>x\<in>fst ` set m. k' < x" and inv: "btree_inv m" by auto
  consider "k < k'" | "k = k'" | "k' < k" by (rule linorder_cases)
  then show ?case
  proof cases
    case 1
    with lt inv kv show ?thesis by auto
  next
    case 2
    with lt inv kv show ?thesis by auto
  next
    case 3
    have "\<forall>x\<in>fst ` set (btree_insert k v m). k' < x"
      using lt 3 by (simp only: keys_btree_insert) auto
    with Cons.IH [OF inv] 3 kv show ?thesis by auto
  qed
qed

lemma btree_inv_distinct: "btree_inv m \<Longrightarrow> distinct (map fst m)"
  by (auto simp: btree_inv_def strict_sorted_iff)

interpretation btree: string_map "\<lambda>m. map_of m" btree_insert btree_inv
  by unfold_locales (auto simp: map_of_btree_insert btree_inv_insert)

text \<open>\<open>entry(k).or_insert(v)\<close>: keeps a value that is already there.\<close>

definition btree_or_insert :: "string \<Rightarrow> 'v \<Rightarrow> 'v btree \<Rightarrow> 'v btree" where
  "btree_or_insert k v m = (if map_of m k = None then btree_insert k v m else m)"

lemma map_of_btree_or_insert:
  "map_of (btree_or_insert k v m) x
   = (if x = k \<and> map_of m k = None then Some v else map_of m x)"
  by (auto simp: btree_or_insert_def map_of_btree_insert)

lemma btree_inv_or_insert: "btree_inv m \<Longrightarrow> btree_inv (btree_or_insert k v m)"
  by (simp add: btree_or_insert_def btree_inv_insert)

text \<open>\<open>extend\<close> with the entries of another map.\<close>

definition btree_extend :: "'v btree \<Rightarrow> 'v btree \<Rightarrow> 'v btree" where
  "btree_extend m kvs = fold (\<lambda>(k, v). btree_insert k v) kvs m"

lemma map_of_rev_distinct: "distinct (map fst m) \<Longrightarrow> map_of (rev m) = map_of m"
  by (subst map_of_inject_set) (auto simp: rev_map [symmetric])

lemma map_of_btree_extend:
  "btree_inv kvs \<Longrightarrow> map_of (btree_extend m kvs) x
   = (case map_of kvs x of Some v \<Rightarrow> Some v | None \<Rightarrow> map_of m x)"
  by (simp add: btree_extend_def btree.lookup_fold_insert map_of_rev_distinct btree_inv_distinct)

lemma btree_inv_extend: "btree_inv m \<Longrightarrow> btree_inv (btree_extend m kvs)"
  by (simp add: btree_extend_def btree.invar_fold_insert)

section \<open>Lists of consecutive numbers\<close>

lemma take_Suc_nth: "n < length xs \<Longrightarrow> take (Suc n) xs = take n xs @ [xs ! n]"
  by (rule take_Suc_conv_app_nth)

lemma filter_gt_upt: "filter (\<lambda>i. c < i) [a..<b] = [max a (Suc c)..<b]"
proof (induction b)
  case 0
  show ?case by simp
next
  case (Suc b)
  then show ?case by (auto simp: max_def)
qed

lemma dropWhile_le_upt: "dropWhile (\<lambda>i. i \<le> c) [a..<b] = [max a (Suc c)..<b]"
proof (induction "b - a" arbitrary: a)
  case 0
  then show ?case by simp
next
  case (Suc n)
  then have "a < b" by simp
  then have eq: "[a..<b] = a # [Suc a..<b]" by (rule upt_conv_Cons)
  show ?case
  proof (cases "a \<le> c")
    case True
    have "dropWhile (\<lambda>i. i \<le> c) [Suc a..<b] = [max (Suc a) (Suc c)..<b]"
      using Suc by simp
    with True eq show ?thesis by (simp add: max_def)
  next
    case False
    then have "max a (Suc c) = a" by simp
    with False eq show ?thesis by simp
  qed
qed

end
