(* ===== verification/Acp_Json.thy ===== *)
theory Acp_Json
  imports Acp_Prelude
begin

text \<open>
  JSON trees as \<open>serde_json\<close> hands them to the program, and the operations on
  \<open>serde_json::Value\<close> and \<open>serde_json::Map\<close> that \<^verbatim>\<open>policy.rs\<close> uses. The map keeps
  insertion order (the lock file enables \<open>preserve_order\<close>): an insertion replaces the
  value of an existing key in place and appends a new key at the end.

  Parsing and printing text is the work of \<open>serde_json\<close>, which is not part of the
  sources: it is the record \<open>serde_json\<close>, a parameter of every definition that parses
  or prints. A syntax tree keeps the members of an object in source order, duplicates
  included, because derived deserialisers see every member; a \<open>Value\<close> is its normal
  form, in which the last member of a name wins.
\<close>

datatype jnumber = PosInt nat | NegInt int | Float string

datatype json =
    JNull
  | JBool bool
  | JNumber jnumber
  | JString string
  | JArray "json list"
  | JObject "(string \<times> json) list"

type_synonym jmap = "(string \<times> json) list"

section \<open>The insertion-ordered map\<close>

fun jmap_insert :: "string \<Rightarrow> 'v \<Rightarrow> (string \<times> 'v) list \<Rightarrow> (string \<times> 'v) list" where
  "jmap_insert k v [] = [(k, v)]"
| "jmap_insert k v ((k', v') # m) =
     (if k = k' then (k, v) # m else (k', v') # jmap_insert k v m)"

lemma map_of_jmap_insert:
  "map_of (jmap_insert k v m) x = (if x = k then Some v else map_of m x)"
  by (induction m) auto

lemma keys_jmap_insert:
  "map fst (jmap_insert k v m) = (if k \<in> fst ` set m then map fst m else map fst m @ [k])"
  by (induction m) (auto simp: image_iff split: if_splits)

lemma keys_jmap_insert_set: "fst ` set (jmap_insert k v m) = insert k (fst ` set m)"
  by (induction k v m rule: jmap_insert.induct) (auto simp: insert_commute)

interpretation jmap: string_map "\<lambda>m. map_of m" jmap_insert "\<lambda>m. distinct (map fst m)"
proof
  show "distinct (map fst (jmap_insert k v m))" if "distinct (map fst m)" for k v and m :: "(string \<times> 'a) list"
    using that by (auto simp: keys_jmap_insert)
qed (rule map_of_jmap_insert)

lemma jmap_insert_new: "k \<notin> fst ` set m \<Longrightarrow> jmap_insert k v m = m @ [(k, v)]"
  by (induction m) auto

section \<open>Normal form: the last member of a name wins\<close>

primrec norm :: "json \<Rightarrow> json" where
  "norm JNull = JNull"
| "norm (JBool b) = JBool b"
| "norm (JNumber n) = JNumber n"
| "norm (JString s) = JString s"
| "norm (JArray vs) = JArray (map norm vs)"
| "norm (JObject m) = JObject (fold (\<lambda>(k, v). jmap_insert k v) (map (map_prod id norm) m) [])"

lemma fold_jmap_insert_distinct:
  assumes "distinct (map fst (acc @ m))"
  shows "fold (\<lambda>(k, v). jmap_insert k v) m acc = acc @ m"
  using assms
proof (induction m arbitrary: acc)
  case Nil
  show ?case by simp
next
  case (Cons kv m)
  obtain k v where kv: "kv = (k, v)" by (cases kv)
  have "jmap_insert k v acc = acc @ [(k, v)]"
    using Cons.prems kv by (intro jmap_insert_new) auto
  then show ?case using Cons.IH [of "acc @ [(k, v)]"] Cons.prems kv by simp
qed

text \<open>An object with distinct keys whose values are normal is normal.\<close>

lemma norm_JObject_distinct:
  assumes "distinct (map fst m)" and "\<And>k v. (k, v) \<in> set m \<Longrightarrow> norm v = v"
  shows "norm (JObject m) = JObject m"
proof -
  have "map (map_prod id norm) m = m"
    using assms(2) by (intro map_idI) auto
  then show ?thesis
    using fold_jmap_insert_distinct [of "[]" m] assms(1) by simp
qed

lemma norm_JArray_id: "(\<And>v. v \<in> set vs \<Longrightarrow> norm v = v) \<Longrightarrow> norm (JArray vs) = JArray vs"
  by (simp add: map_idI)

section \<open>Accessors of \<open>Value\<close>\<close>

definition value_get :: "string \<Rightarrow> json \<Rightarrow> json option" where
  "value_get k v = (case v of JObject m \<Rightarrow> map_of m k | _ \<Rightarrow> None)"

definition as_str :: "json \<Rightarrow> string option" where
  "as_str v = (case v of JString s \<Rightarrow> Some s | _ \<Rightarrow> None)"

definition as_array :: "json \<Rightarrow> json list option" where
  "as_array v = (case v of JArray vs \<Rightarrow> Some vs | _ \<Rightarrow> None)"

definition as_object :: "json \<Rightarrow> jmap option" where
  "as_object v = (case v of JObject m \<Rightarrow> Some m | _ \<Rightarrow> None)"

lemma value_get_JObject [simp]: "value_get k (JObject m) = map_of m k"
  by (simp add: value_get_def)

lemma as_str_simps [simp]:
  "as_str (JString s) = Some s"
  "as_str JNull = None" "as_str (JBool b) = None" "as_str (JNumber n) = None"
  "as_str (JArray vs) = None" "as_str (JObject m) = None"
  by (simp_all add: as_str_def)

lemma as_str_Some_iff: "as_str v = Some s \<longleftrightarrow> v = JString s"
  by (cases v) auto

lemma as_array_simps [simp]:
  "as_array (JArray vs) = Some vs"
  "as_array JNull = None" "as_array (JBool b) = None" "as_array (JNumber n) = None"
  "as_array (JString s) = None" "as_array (JObject m) = None"
  by (simp_all add: as_array_def)

lemma as_object_simps [simp]:
  "as_object (JObject m) = Some m"
  "as_object JNull = None" "as_object (JBool b) = None" "as_object (JNumber n) = None"
  "as_object (JString s) = None" "as_object (JArray vs) = None"
  by (simp_all add: as_object_def)

lemma as_object_Some_iff: "as_object v = Some m \<longleftrightarrow> v = JObject m"
  by (cases v) auto

lemma as_array_Some_iff: "as_array v = Some vs \<longleftrightarrow> v = JArray vs"
  by (cases v) auto

section \<open>Errors of the deserialisers, and the parameter that parses and prints\<close>

datatype json_error =
    Syntax string
  | MissingField string
  | DuplicateField string
  | UnknownVariant string
  | InvalidType
  | InvalidValue

record serde_json =
  sj_syntax :: "string \<Rightarrow> json_error + json" \<comment> \<open>what a derived deserialiser sees\<close>
  sj_value :: "string \<Rightarrow> json_error + json"  \<comment> \<open>\<open>from_str::<Value>\<close>\<close>
  sj_to_string :: "json \<Rightarrow> string"
  sj_display :: "json_error \<Rightarrow> string"       \<comment> \<open>the \<open>Display\<close> text of an error\<close>

text \<open>Documented behaviour of the parser and the printer, used as named hypotheses.\<close>

definition prints_back :: "serde_json \<Rightarrow> json \<Rightarrow> bool" where
  "prints_back sj v \<longleftrightarrow>
     sj_syntax sj (sj_to_string sj v) = Inr v \<and> sj_value sj (sj_to_string sj v) = Inr v"

definition values_are_normal :: "serde_json \<Rightarrow> bool" where
  "values_are_normal sj \<longleftrightarrow>
     (\<forall>s v. sj_value sj s = Inr v \<longrightarrow> (\<exists>t. sj_syntax sj s = Inr t \<and> v = norm t))"

end
