(* ===== verification/Acp_Errors.thy ===== *)
theory Acp_Errors
  imports Acp_Json
begin

text \<open>
  \<^verbatim>\<open>error.rs\<close>: the error type of the library, its \<open>Display\<close> text and the category
  the server logs. A formatted message is kept as the list of its pieces (the literal
  text of the \<open>format!\<close> string and each argument with its formatting trait), so that a
  message shows which values it contains; \<open>render\<close> gives the text. The \<open>Debug\<close> text of
  a string and the text of errors of other crates are parameters.
\<close>

datatype piece =
    Lit string                \<comment> \<open>literal text\<close>
  | Disp string               \<comment> \<open>a string argument, \<open>{}\<close>\<close>
  | Dbg string                \<comment> \<open>a string argument, \<open>{:?}\<close>\<close>
  | Num nat                   \<comment> \<open>a number, \<open>{}\<close>\<close>
  | DbgCode "i32 option"      \<comment> \<open>an optional exit code, \<open>{:?}\<close>\<close>
  | JsonText json_error       \<comment> \<open>the text of a \<open>serde_json\<close> error\<close>

type_synonym message = "piece list"

datatype error =
    Config message
  | Unauthorized
  | Protocol message
  | Policy message
  | Process message
  | Network message
  | Io string
  | Json json_error
  | Toml string
  | Url string
  | WebSocket string
  | Timeout string

text \<open>The \<open>Display\<close> implementation that \<open>thiserror\<close> derives from the attributes.\<close>

fun error_to_string :: "error \<Rightarrow> message" where
  "error_to_string (Config m) = Lit ''configuration error: '' # m"
| "error_to_string Unauthorized = [Lit ''authentication failed'']"
| "error_to_string (Protocol m) = Lit ''protocol error: '' # m"
| "error_to_string (Policy m) = Lit ''policy error: '' # m"
| "error_to_string (Process m) = Lit ''process error: '' # m"
| "error_to_string (Network m) = Lit ''network error: '' # m"
| "error_to_string (Io t) = [Disp t]"
| "error_to_string (Json e) = [JsonText e]"
| "error_to_string (Toml t) = [Disp t]"
| "error_to_string (Url t) = [Disp t]"
| "error_to_string (WebSocket t) = [Disp t]"
| "error_to_string (Timeout t) = [Lit ''operation timed out: '', Lit t]"

text \<open>The category \<^verbatim>\<open>server.rs\<close> logs for an error.\<close>

fun error_category :: "error \<Rightarrow> string" where
  "error_category (Config _) = ''config''"
| "error_category Unauthorized = ''unauthorized''"
| "error_category (Protocol _) = ''protocol''"
| "error_category (Policy _) = ''policy''"
| "error_category (Process _) = ''process''"
| "error_category (Network _) = ''network''"
| "error_category (WebSocket _) = ''network''"
| "error_category (Io _) = ''io''"
| "error_category (Json _) = ''json''"
| "error_category (Toml _) = ''toml''"
| "error_category (Url _) = ''url''"
| "error_category (Timeout _) = ''timeout''"

section \<open>Rendering\<close>

fun dec_digits :: "nat \<Rightarrow> string" where
  "dec_digits n =
     (if n < 10 then [char_of (48 + n)] else dec_digits (n div 10) @ [char_of (48 + n mod 10)])"

declare dec_digits.simps [simp del]

record text_format =
  fmt_debug :: "string \<Rightarrow> string"            \<comment> \<open>\<open>Debug\<close> of \<open>str\<close>\<close>
  fmt_debug_code :: "i32 option \<Rightarrow> string"   \<comment> \<open>\<open>Debug\<close> of \<open>Option<i32>\<close>\<close>
  fmt_json :: "json_error \<Rightarrow> string"         \<comment> \<open>\<open>Display\<close> of \<open>serde_json::Error\<close>\<close>

fun render_piece :: "text_format \<Rightarrow> piece \<Rightarrow> string" where
  "render_piece tf (Lit s) = s"
| "render_piece tf (Disp s) = s"
| "render_piece tf (Dbg s) = fmt_debug tf s"
| "render_piece tf (Num n) = dec_digits n"
| "render_piece tf (DbgCode c) = fmt_debug_code tf c"
| "render_piece tf (JsonText e) = fmt_json tf e"

definition render :: "text_format \<Rightarrow> message \<Rightarrow> string" where
  "render tf m = concat (map (render_piece tf) m)"

text \<open>\<open>str::contains\<close> with a string pattern.\<close>

fun is_prefix :: "string \<Rightarrow> string \<Rightarrow> bool" where
  "is_prefix [] ys = True"
| "is_prefix (x # xs) [] = False"
| "is_prefix (x # xs) (y # ys) = (x = y \<and> is_prefix xs ys)"

fun str_contains :: "string \<Rightarrow> string \<Rightarrow> bool" where
  "str_contains p [] = (p = [])"
| "str_contains p (y # ys) = (is_prefix p (y # ys) \<or> str_contains p ys)"

lemma is_prefix_append [simp]: "is_prefix p (p @ ys)"
  by (induction p) auto

lemma is_prefix_iff: "is_prefix p ys \<longleftrightarrow> (\<exists>zs. ys = p @ zs)"
  by (induction p ys rule: is_prefix.induct) auto

lemma str_contains_iff: "str_contains p ys \<longleftrightarrow> (\<exists>us vs. ys = us @ p @ vs)"
proof (induction p ys rule: str_contains.induct)
  case (1 p)
  show ?case by auto
next
  case (2 p y ys)
  show ?case
  proof
    assume "str_contains p (y # ys)"
    then consider "is_prefix p (y # ys)" | "str_contains p ys" by auto
    then show "\<exists>us vs. y # ys = us @ p @ vs"
    proof cases
      case 1
      then obtain zs where "y # ys = p @ zs" by (auto simp: is_prefix_iff)
      then have "y # ys = [] @ p @ zs" by simp
      then show ?thesis by blast
    next
      case 2
      with "2.IH" obtain us vs where "ys = us @ p @ vs" by auto
      then have "y # ys = (y # us) @ p @ vs" by simp
      then show ?thesis by blast
    qed
  next
    assume "\<exists>us vs. y # ys = us @ p @ vs"
    then obtain us vs where eq: "y # ys = us @ p @ vs" by blast
    show "str_contains p (y # ys)"
    proof (cases us)
      case Nil
      with eq have "is_prefix p (y # ys)" by (auto simp: is_prefix_iff)
      then show ?thesis by simp
    next
      case (Cons u us')
      with eq have "ys = us' @ p @ vs" by simp
      with "2.IH" show ?thesis by auto
    qed
  qed
qed

text \<open>The strings a message shows, whatever the formatting trait.\<close>

fun piece_shows :: "piece \<Rightarrow> string set" where
  "piece_shows (Lit s) = {}"
| "piece_shows (Disp s) = {s}"
| "piece_shows (Dbg s) = {s}"
| "piece_shows (Num n) = {}"
| "piece_shows (DbgCode c) = {}"
| "piece_shows (JsonText e) = {}"

definition message_shows :: "message \<Rightarrow> string set" where
  "message_shows m = (\<Union>p\<in>set m. piece_shows p)"

lemma message_shows_simps [simp]:
  "message_shows [] = {}"
  "message_shows (p # m) = piece_shows p \<union> message_shows m"
  by (auto simp: message_shows_def)

end
