(* ===== verification/Acp_Config.thy ===== *)
theory Acp_Config
  imports Acp_Errors
begin

text \<open>
  \<^verbatim>\<open>config.rs\<close>: the server configuration, its defaults, its validation and the
  timeouts derived from it. A \<open>BTreeSet\<close> is the sorted list of its elements and a
  \<open>BTreeMap\<close> the sorted association list, in iteration order. Reading TOML is the work
  of another crate, so a configuration starts as the typed record; \<open>Url::parse\<close> is a
  parameter. Durations are in milliseconds.
\<close>

section \<open>Data\<close>

datatype ip_addr = V4 nat nat nat nat | V6 "nat list"

record socket_addr =
  sa_ip :: ip_addr
  sa_port :: nat

fun is_loopback :: "ip_addr \<Rightarrow> bool" where
  "is_loopback (V4 a b c d) \<longleftrightarrow> a = 127"
| "is_loopback (V6 segments) \<longleftrightarrow> segments = [0, 0, 0, 0, 0, 0, 0, 1]"

record tls_config =
  cert_path :: string
  key_path :: string

datatype mcp_policy = Deny | Allowlisted | Passthrough

record agent_config =
  ag_command :: string
  ag_args :: "string list"
  ag_workspaces :: "string list"
  ag_pass_env :: "string list"
  ag_env :: "string btree"
  ag_client_env_allowlist :: "string list"
  ag_mcp_policy :: mcp_policy

record workspace_config =
  ws_path :: string

record mcp_server_config =
  mc_command :: string
  mc_args :: "string list"
  mc_pass_env :: "string list"
  mc_env :: "string btree"
  mc_client_env_allowlist :: "string list"

record server_config =
  listen :: socket_addr
  max_frame_bytes :: usize
  connection_timeout_seconds :: u64
  keepalive_interval_seconds :: u64
  keepalive_timeout_seconds :: u64
  shutdown_timeout_seconds :: u64
  reconnect_grace_seconds :: u64
  max_replay_frames :: usize
  max_replay_bytes :: usize
  channel_capacity :: usize
  diagnostic_channel_capacity :: usize
  diagnostic_line_bytes :: usize
  rewrite_cwd :: bool
  allow_insecure_mcp_passthrough :: bool
  allowed_origins :: "string list"
  tls :: "tls_config option"
  agents :: "agent_config btree"
  workspaces :: "workspace_config btree"
  mcp_servers :: "mcp_server_config btree"

section \<open>Defaults\<close>

definition DEFAULT_MAX_FRAME_BYTES :: usize where
  "DEFAULT_MAX_FRAME_BYTES = 10 * 1024 * 1024"

definition default_listen :: socket_addr where
  "default_listen = \<lparr>sa_ip = V4 127 0 0 1, sa_port = 8787\<rparr>"

definition default_config :: server_config where
  "default_config = \<lparr>
     listen = default_listen,
     max_frame_bytes = DEFAULT_MAX_FRAME_BYTES,
     connection_timeout_seconds = 10,
     keepalive_interval_seconds = 15,
     keepalive_timeout_seconds = 45,
     shutdown_timeout_seconds = 5,
     reconnect_grace_seconds = 30,
     max_replay_frames = 256,
     max_replay_bytes = 20 * 1024 * 1024,
     channel_capacity = 32,
     diagnostic_channel_capacity = 64,
     diagnostic_line_bytes = 64 * 1024,
     rewrite_cwd = True,
     allow_insecure_mcp_passthrough = False,
     allowed_origins = [],
     tls = None,
     agents = [],
     workspaces = [],
     mcp_servers = []\<rparr>"

section \<open>Paths\<close>

text \<open>Unix paths: absolute means that the path starts at the root.\<close>

definition is_absolute :: "string \<Rightarrow> bool" where
  "is_absolute path = (case path of [] \<Rightarrow> False | c # _ \<Rightarrow> c = CHR ''/'')"

fun split_on :: "char \<Rightarrow> string \<Rightarrow> string list" where
  "split_on c [] = [[]]"
| "split_on c (x # xs) =
     (if x = c then [] # split_on c xs
      else case split_on c xs of [] \<Rightarrow> [[x]] | p # ps \<Rightarrow> (x # p) # ps)"

lemma split_on_not_Nil [simp]: "split_on c s \<noteq> []"
  by (induction s) (auto split: list.splits)

text \<open>
  \<open>Path::components\<close>: empty parts and inner dots do not count, a leading dot of a relative path does.
\<close>

definition normal_components :: "string \<Rightarrow> string list" where
  "normal_components path =
     (case split_on (CHR ''/'') path of
        [] \<Rightarrow> []
      | p # ps \<Rightarrow>
          (if p = [] then [] else [p]) @ filter (\<lambda>q. q \<noteq> [] \<and> q \<noteq> ''.'') ps)"

text \<open>\<open>PathBuf\<close> compares the components, not the text.\<close>

definition same_path :: "string \<Rightarrow> string \<Rightarrow> bool" where
  "same_path p q \<longleftrightarrow> is_absolute p = is_absolute q \<and> normal_components p = normal_components q"

section \<open>Validation of names\<close>

text \<open>The pattern \<^verbatim>\<open>^[a-z0-9][a-z0-9_-]*$\<close> of \<open>validate_id\<close>.\<close>

definition id_start_char :: "char \<Rightarrow> bool" where
  "id_start_char c \<longleftrightarrow> (let n = of_char c :: nat in (97 \<le> n \<and> n \<le> 122) \<or> (48 \<le> n \<and> n \<le> 57))"

definition id_char :: "char \<Rightarrow> bool" where
  "id_char c \<longleftrightarrow> id_start_char c \<or> c = CHR ''_'' \<or> c = CHR ''-''"

definition id_pattern :: "string \<Rightarrow> bool" where
  "id_pattern s = (case s of [] \<Rightarrow> False | c # cs \<Rightarrow> id_start_char c \<and> list_all id_char cs)"

definition validate_id :: "string \<Rightarrow> string \<Rightarrow> error + unit" where
  "validate_id kind ident =
     (if id_pattern ident then Inr ()
      else Inl (Config [Lit ''invalid '', Disp kind, Lit '' identifier '', Dbg ident,
                        Lit ''; expected [a-z0-9][a-z0-9_-]*'']))"

definition validate_command :: "string \<Rightarrow> string \<Rightarrow> string \<Rightarrow> error + unit" where
  "validate_command kind ident command =
     (if command = [] then
        Inl (Config [Disp kind, Lit '' '', Dbg ident, Lit '' command must not be empty''])
      else Inr ())"

definition env_name_ok :: "string \<Rightarrow> bool" where
  "env_name_ok name \<longleftrightarrow> \<not> (name = [] \<or> CHR ''='' \<in> set name \<or> CHR 0x00 \<in> set name)"

definition validate_environment_name :: "string \<Rightarrow> string \<Rightarrow> string \<Rightarrow> error + unit" where
  "validate_environment_name kind ident name =
     (if name = [] \<or> CHR ''='' \<in> set name \<or> CHR 0x00 \<in> set name
      then Inl (Config [Disp kind, Lit '' '', Dbg ident,
                        Lit '' has invalid environment variable name''])
      else Inr ())"

definition validate_environment ::
    "string \<Rightarrow> string \<Rightarrow> string list \<Rightarrow> string btree \<Rightarrow> error + unit" where
  "validate_environment kind ident pass_env env =
     rbind (try_for (validate_environment_name kind ident) (pass_env @ map fst env)) (\<lambda>_.
       if filter (\<lambda>name. map_of env name \<noteq> None) pass_env = [] then Inr ()
       else Inl (Config [Disp kind, Lit '' '', Dbg ident,
                         Lit '' lists the same variable in pass_env and env'']))"

section \<open>Validation of a configuration\<close>

record parsed_url =
  pu_cannot_be_a_base :: bool
  pu_scheme :: string

definition validate_limits :: "server_config \<Rightarrow> error + unit" where
  "validate_limits self =
     (if max_frame_bytes self = 0 \<or> channel_capacity self = 0
         \<or> diagnostic_channel_capacity self = 0 \<or> diagnostic_line_bytes self = 0
         \<or> max_replay_frames self = 0 \<or> max_replay_bytes self = 0
      then Inl (Config [Lit ''frame and channel limits must be greater than zero''])
      else if max_replay_bytes self < max_frame_bytes self
      then Inl (Config [Lit ''max_replay_bytes must be at least max_frame_bytes''])
      else if connection_timeout_seconds self = 0 \<or> keepalive_interval_seconds self = 0
         \<or> keepalive_timeout_seconds self \<le> keepalive_interval_seconds self
         \<or> shutdown_timeout_seconds self = 0 \<or> reconnect_grace_seconds self = 0
      then Inl (Config [Lit ''timeouts must be positive and keepalive_timeout_seconds must exceed keepalive_interval_seconds''])
      else Inr ())"

definition validate_workspace_entry :: "string \<times> workspace_config \<Rightarrow> error + unit" where
  "validate_workspace_entry entry =
     (case entry of (ident, workspace) \<Rightarrow>
        rbind (validate_id ''workspace'' ident) (\<lambda>_.
          if is_absolute (ws_path workspace) then Inr ()
          else Inl (Config [Lit ''workspace '', Dbg ident, Lit '' path must be absolute''])))"

definition validate_agent_entry ::
    "server_config \<Rightarrow> string \<times> agent_config \<Rightarrow> error + unit" where
  "validate_agent_entry self entry =
     (case entry of (ident, agent) \<Rightarrow>
        rbind (validate_id ''agent'' ident) (\<lambda>_.
        rbind (validate_command ''agent'' ident (ag_command agent)) (\<lambda>_.
        rbind (try_for (\<lambda>workspace.
                 rbind (validate_id ''workspace'' workspace) (\<lambda>_.
                   if map_of (workspaces self) workspace \<noteq> None then Inr ()
                   else Inl (Config [Lit ''agent '', Dbg ident,
                               Lit '' references unknown workspace '', Dbg workspace])))
               (ag_workspaces agent)) (\<lambda>_.
        rbind (validate_environment ''agent'' ident (ag_pass_env agent) (ag_env agent)) (\<lambda>_.
        rbind (try_for (validate_environment_name ''agent'' ident) (ag_client_env_allowlist agent)) (\<lambda>_.
          if ag_mcp_policy agent = Passthrough \<and> \<not> allow_insecure_mcp_passthrough self
          then Inl (Config [Lit ''agent '', Dbg ident,
                 Lit '' uses MCP passthrough; set allow_insecure_mcp_passthrough = true to acknowledge remote command execution risk''])
          else Inr ()))))))"

definition validate_mcp_entry :: "string \<times> mcp_server_config \<Rightarrow> error + unit" where
  "validate_mcp_entry entry =
     (case entry of (ident, server) \<Rightarrow>
        rbind (validate_id ''MCP server'' ident) (\<lambda>_.
        rbind (validate_command ''MCP server'' ident (mc_command server)) (\<lambda>_.
        rbind (validate_environment ''MCP server'' ident (mc_pass_env server) (mc_env server)) (\<lambda>_.
          try_for (validate_environment_name ''MCP server'' ident) (mc_client_env_allowlist server)))))"

definition validate_origin ::
    "(string \<Rightarrow> string + parsed_url) \<Rightarrow> string \<Rightarrow> error + unit" where
  "validate_origin url_parse origin =
     (case url_parse origin of
        Inl error \<Rightarrow> Inl (Config [Lit ''invalid allowed origin '', Dbg origin, Lit '': '', Disp error])
      | Inr parsed \<Rightarrow>
          if pu_cannot_be_a_base parsed \<and> pu_scheme parsed \<noteq> ''null''
          then Inl (Config [Lit ''allowed origin '', Dbg origin, Lit '' must be an absolute origin''])
          else Inr ())"

definition validate_tls :: "tls_config option \<Rightarrow> error + unit" where
  "validate_tls t =
     (case t of
        None \<Rightarrow> Inr ()
      | Some files \<Rightarrow>
          if same_path (cert_path files) (key_path files)
          then Inl (Config [Lit ''TLS certificate and private key paths must differ''])
          else Inr ())"

definition validate :: "(string \<Rightarrow> string + parsed_url) \<Rightarrow> server_config \<Rightarrow> error + unit" where
  "validate url_parse self =
     rbind (validate_limits self) (\<lambda>_.
     rbind (try_for validate_workspace_entry (workspaces self)) (\<lambda>_.
     rbind (try_for (validate_agent_entry self) (agents self)) (\<lambda>_.
     rbind (try_for validate_mcp_entry (mcp_servers self)) (\<lambda>_.
     rbind (try_for (validate_origin url_parse) (allowed_origins self)) (\<lambda>_.
       validate_tls (tls self))))))"

section \<open>Timeouts\<close>

definition from_secs :: "u64 \<Rightarrow> nat" where
  "from_secs s = 1000 * s"

definition connection_timeout :: "server_config \<Rightarrow> nat" where
  "connection_timeout self = from_secs (connection_timeout_seconds self)"

definition keepalive_interval :: "server_config \<Rightarrow> nat" where
  "keepalive_interval self = from_secs (keepalive_interval_seconds self)"

definition keepalive_timeout :: "server_config \<Rightarrow> nat" where
  "keepalive_timeout self = from_secs (keepalive_timeout_seconds self)"

definition shutdown_timeout :: "server_config \<Rightarrow> nat" where
  "shutdown_timeout self = from_secs (shutdown_timeout_seconds self)"

definition reconnect_grace :: "server_config \<Rightarrow> nat" where
  "reconnect_grace self = from_secs (reconnect_grace_seconds self)"

section \<open>What a validated configuration guarantees\<close>

lemma validate_id_ok_iff [simp]: "validate_id kind s = Inr u \<longleftrightarrow> id_pattern s"
  by (simp add: validate_id_def)

lemma validate_command_ok_iff [simp]: "validate_command kind i c = Inr u \<longleftrightarrow> c \<noteq> []"
  by (simp add: validate_command_def)

lemma validate_environment_name_ok_iff [simp]:
  "validate_environment_name kind i name = Inr u \<longleftrightarrow> env_name_ok name"
  by (simp add: validate_environment_name_def env_name_ok_def)

lemma validate_environment_ok_iff [simp]:
  "validate_environment kind i pass_env env = Inr u \<longleftrightarrow>
     (\<forall>n\<in>set pass_env \<union> fst ` set env. env_name_ok n) \<and> set pass_env \<inter> fst ` set env = {}"
proof -
  have "filter (\<lambda>name. map_of env name \<noteq> None) pass_env = [] \<longleftrightarrow> set pass_env \<inter> fst ` set env = {}"
    by (auto simp: filter_empty_conv map_of_eq_None_iff)
  then show ?thesis
    by (auto simp: validate_environment_def rbind_Inr_iff try_for_Inr_iff)
qed

definition limits_ok :: "server_config \<Rightarrow> bool" where
  "limits_ok c \<longleftrightarrow>
     0 < max_frame_bytes c \<and> 0 < channel_capacity c \<and> 0 < diagnostic_channel_capacity c \<and>
     0 < diagnostic_line_bytes c \<and> 0 < max_replay_frames c \<and>
     max_frame_bytes c \<le> max_replay_bytes c \<and>
     0 < connection_timeout_seconds c \<and> 0 < keepalive_interval_seconds c \<and>
     keepalive_interval_seconds c < keepalive_timeout_seconds c \<and>
     0 < shutdown_timeout_seconds c \<and> 0 < reconnect_grace_seconds c"

lemma validate_limits_ok_iff [simp]: "validate_limits c = Inr u \<longleftrightarrow> limits_ok c"
  by (auto simp: validate_limits_def limits_ok_def)

definition agent_ok :: "server_config \<Rightarrow> string \<Rightarrow> agent_config \<Rightarrow> bool" where
  "agent_ok c i a \<longleftrightarrow>
     id_pattern i \<and> ag_command a \<noteq> [] \<and>
     (\<forall>w\<in>set (ag_workspaces a). id_pattern w \<and> map_of (workspaces c) w \<noteq> None) \<and>
     (\<forall>n\<in>set (ag_pass_env a) \<union> fst ` set (ag_env a) \<union> set (ag_client_env_allowlist a). env_name_ok n) \<and>
     set (ag_pass_env a) \<inter> fst ` set (ag_env a) = {} \<and>
     (ag_mcp_policy a = Passthrough \<longrightarrow> allow_insecure_mcp_passthrough c)"

definition mcp_server_ok :: "string \<Rightarrow> mcp_server_config \<Rightarrow> bool" where
  "mcp_server_ok i s \<longleftrightarrow>
     id_pattern i \<and> mc_command s \<noteq> [] \<and>
     (\<forall>n\<in>set (mc_pass_env s) \<union> fst ` set (mc_env s) \<union> set (mc_client_env_allowlist s). env_name_ok n) \<and>
     set (mc_pass_env s) \<inter> fst ` set (mc_env s) = {}"

definition origin_ok :: "(string \<Rightarrow> string + parsed_url) \<Rightarrow> string \<Rightarrow> bool" where
  "origin_ok url_parse origin \<longleftrightarrow>
     (\<exists>p. url_parse origin = Inr p \<and> (pu_cannot_be_a_base p \<longrightarrow> pu_scheme p = ''null''))"

definition config_ok :: "(string \<Rightarrow> string + parsed_url) \<Rightarrow> server_config \<Rightarrow> bool" where
  "config_ok url_parse c \<longleftrightarrow>
     limits_ok c \<and>
     (\<forall>(i, w)\<in>set (workspaces c). id_pattern i \<and> is_absolute (ws_path w)) \<and>
     (\<forall>(i, a)\<in>set (agents c). agent_ok c i a) \<and>
     (\<forall>(i, s)\<in>set (mcp_servers c). mcp_server_ok i s) \<and>
     (\<forall>origin\<in>set (allowed_origins c). origin_ok url_parse origin) \<and>
     (case tls c of None \<Rightarrow> True | Some t \<Rightarrow> \<not> same_path (cert_path t) (key_path t))"

lemma validate_workspace_entry_ok_iff [simp]:
  "validate_workspace_entry (i, w) = Inr u \<longleftrightarrow> id_pattern i \<and> is_absolute (ws_path w)"
  by (auto simp: validate_workspace_entry_def rbind_Inr_iff)

lemma validate_agent_entry_ok_iff [simp]:
  "validate_agent_entry c (i, a) = Inr u \<longleftrightarrow> agent_ok c i a"
  by (auto simp: validate_agent_entry_def agent_ok_def rbind_Inr_iff try_for_Inr_iff split: if_splits)

lemma validate_mcp_entry_ok_iff [simp]:
  "validate_mcp_entry (i, s) = Inr u \<longleftrightarrow> mcp_server_ok i s"
  by (auto simp: validate_mcp_entry_def mcp_server_ok_def rbind_Inr_iff try_for_Inr_iff)

lemma validate_origin_ok_iff [simp]:
  "validate_origin url_parse origin = Inr u \<longleftrightarrow> origin_ok url_parse origin"
  by (auto simp: validate_origin_def origin_ok_def split: sum.splits)

lemma validate_ok_iff: "validate url_parse c = Inr () \<longleftrightarrow> config_ok url_parse c"
proof -
  have "(validate_tls (tls c) = Inr ()) = (case tls c of None \<Rightarrow> True | Some t \<Rightarrow> \<not> same_path (cert_path t) (key_path t))"
    by (simp add: validate_tls_def split: option.splits)
  moreover have "(\<forall>x\<in>set (workspaces c). validate_workspace_entry x = Inr ())
     = (\<forall>(i, w)\<in>set (workspaces c). id_pattern i \<and> is_absolute (ws_path w))"
    by (rule ball_cong) auto
  moreover have "(\<forall>x\<in>set (agents c). validate_agent_entry c x = Inr ())
     = (\<forall>(i, a)\<in>set (agents c). agent_ok c i a)"
    by (rule ball_cong) auto
  moreover have "(\<forall>x\<in>set (mcp_servers c). validate_mcp_entry x = Inr ())
     = (\<forall>(i, s)\<in>set (mcp_servers c). mcp_server_ok i s)"
    by (rule ball_cong) auto
  ultimately show ?thesis
    by (simp add: validate_def config_ok_def rbind_Inr_iff try_for_Inr_iff)
qed

lemma config_ok_agent_workspace:
  assumes "config_ok url_parse c" and "map_of (agents c) i = Some a" and "w \<in> set (ag_workspaces a)"
  shows "map_of (workspaces c) w \<noteq> None"
  using assms by (auto simp: config_ok_def agent_ok_def dest!: map_of_SomeD)

lemma default_config_limits: "limits_ok default_config"
  by (simp add: limits_ok_def default_config_def DEFAULT_MAX_FRAME_BYTES_def)

section \<open>Properties\<close>

text \<open>
  \<open>ServerConfig::validate\<close> accepts exactly the configurations in which all limits are
  positive and consistent, identifiers match the pattern, workspace paths are absolute, every
  workspace an agent lists exists, environment names are valid and not listed twice, origins are
  absolute, passthrough is opted into and the TLS files have different paths.
\<close>

theorem validate_exact: "validate url_parse c = Inr () \<longleftrightarrow> config_ok url_parse c"
  by (rule validate_ok_iff)

text \<open>
  In a validated configuration the checks at run time that look up a workspace of an agent
  cannot fail, and no agent passes MCP definitions through unless the operator opted in.
\<close>

theorem validated_agents:
  assumes "validate url_parse c = Inr ()" and "map_of (agents c) i = Some a"
  shows "(\<forall>w\<in>set (ag_workspaces a). \<exists>ws. map_of (workspaces c) w = Some ws \<and> is_absolute (ws_path ws)) \<and>
    (ag_mcp_policy a = Passthrough \<longrightarrow> allow_insecure_mcp_passthrough c)"
proof -
  have ok: "config_ok url_parse c" using assms(1) by (simp add: validate_ok_iff)
  have agent: "agent_ok c i a" using ok map_of_SomeD [OF assms(2)] by (auto simp: config_ok_def)
  have "\<forall>w\<in>set (ag_workspaces a). \<exists>ws. map_of (workspaces c) w = Some ws \<and> is_absolute (ws_path ws)"
  proof
    fix w assume "w \<in> set (ag_workspaces a)"
    then obtain ws where ws: "map_of (workspaces c) w = Some ws" using agent by (auto simp: agent_ok_def)
    then have "is_absolute (ws_path ws)" using ok map_of_SomeD [OF ws] by (auto simp: config_ok_def)
    with ws show "\<exists>ws. map_of (workspaces c) w = Some ws \<and> is_absolute (ws_path ws)" by blast
  qed
  then show ?thesis using agent by (simp add: agent_ok_def)
qed

definition example_agent :: agent_config where
  "example_agent = \<lparr>ag_command = ''/usr/bin/agent'', ag_args = [''--acp''], ag_workspaces = [''main''],
     ag_pass_env = [''HOME''], ag_env = [(''MODE'', ''remote'')], ag_client_env_allowlist = [''TOKEN''],
     ag_mcp_policy = Allowlisted\<rparr>"

definition example_config :: server_config where
  "example_config = default_config\<lparr>agents := [(''dev'', example_agent)],
     workspaces := [(''main'', \<lparr>ws_path = ''/srv/main''\<rparr>)]\<rparr>"

lemma example_config_ok: "validate url_parse example_config = Inr ()"
  by (simp add: validate_ok_iff config_ok_def example_config_def default_config_def limits_ok_def
    DEFAULT_MAX_FRAME_BYTES_def id_pattern_def id_start_char_def id_char_def is_absolute_def agent_ok_def
    example_agent_def env_name_ok_def)

theorem validated_agents_witness:
  "\<exists>ws. map_of (workspaces example_config) ''main'' = Some ws \<and> is_absolute (ws_path ws)"
proof -
  have "map_of (agents example_config) ''dev'' = Some example_agent" by (simp add: example_config_def)
  then show ?thesis
    using validated_agents [OF example_config_ok [of "\<lambda>_. Inl []"]]
    by (simp add: example_agent_def)
qed

end
