(* ===== verification/Acp_Protocol.thy ===== *)
theory Acp_Protocol
  imports Acp_Errors
begin

text \<open>
  \<^verbatim>\<open>protocol.rs\<close>: the envelopes of the tunnel, their JSON encoding as the \<open>serde\<close>
  attributes of the source prescribe it (internally tagged by \<open>type\<close>, renamed fields,
  skipped and defaulted fields), the validation of an opening request and the redacted
  \<open>Debug\<close> output.
\<close>

section \<open>Data\<close>

definition TUNNEL_VERSION :: nat where
  "TUNNEL_VERSION = 3"

record client_info =
  ci_name :: string
  ci_version :: string

record resume_request =
  connection_id :: string
  resume_token :: string

record client_environment_variable =
  var_name :: string
  var_value :: string

type_synonym client_environment = "client_environment_variable list"

datatype ack_stream = ClientToServer | ServerToClient

datatype shutdown_reason =
    StdinEof | Sigterm | Interrupt | ClientShutdown | UnknownReason string

datatype envelope =
    Open nat string string client_info client_environment "resume_request option"
  | Ready nat string "string option" bool
  | Acp "u64 option" string
  | Ack ack_stream u64
  | Stderr string
  | Exit "i32 option" "i32 option"
  | Shutdown shutdown_reason
  | ShutdownComplete "i32 option" "i32 option"
  | ErrorEnvelope string string
  | Ping string
  | Pong string

record open_request =
  or_tunnel_version :: nat
  or_agent :: string
  or_workspace :: string
  or_client_info :: client_info
  or_client_environment :: client_environment
  or_resume :: "resume_request option"

section \<open>Encoding\<close>

fun reason_as_str :: "shutdown_reason \<Rightarrow> string" where
  "reason_as_str StdinEof = ''stdin_eof''"
| "reason_as_str Sigterm = ''sigterm''"
| "reason_as_str Interrupt = ''interrupt''"
| "reason_as_str ClientShutdown = ''client_shutdown''"
| "reason_as_str (UnknownReason reason) = reason"

definition reason_from_str :: "string \<Rightarrow> shutdown_reason" where
  "reason_from_str reason =
     (if reason = ''stdin_eof'' then StdinEof
      else if reason = ''sigterm'' then Sigterm
      else if reason = ''interrupt'' then Interrupt
      else if reason = ''client_shutdown'' then ClientShutdown
      else UnknownReason reason)"

fun ack_stream_str :: "ack_stream \<Rightarrow> string" where
  "ack_stream_str ClientToServer = ''client_to_server''"
| "ack_stream_str ServerToClient = ''server_to_client''"

definition enc_nat :: "nat \<Rightarrow> json" where
  "enc_nat n = JNumber (PosInt n)"

definition enc_int :: "int \<Rightarrow> json" where
  "enc_int i = JNumber (if 0 \<le> i then PosInt (nat i) else NegInt i)"

definition enc_option :: "('a \<Rightarrow> json) \<Rightarrow> 'a option \<Rightarrow> json" where
  "enc_option f x = (case x of None \<Rightarrow> JNull | Some y \<Rightarrow> f y)"

definition enc_pair :: "string \<Rightarrow> string \<Rightarrow> string \<Rightarrow> string \<Rightarrow> json" where
  "enc_pair f1 f2 a b = JObject [(f1, JString a), (f2, JString b)]"

definition enc_client_info :: "client_info \<Rightarrow> json" where
  "enc_client_info ci = enc_pair ''name'' ''version'' (ci_name ci) (ci_version ci)"

definition enc_resume :: "resume_request \<Rightarrow> json" where
  "enc_resume r = enc_pair ''connectionId'' ''resumeToken'' (connection_id r) (resume_token r)"

definition enc_variable :: "client_environment_variable \<Rightarrow> json" where
  "enc_variable v = enc_pair ''name'' ''value'' (var_name v) (var_value v)"

definition some_field :: "string \<Rightarrow> ('a \<Rightarrow> json) \<Rightarrow> 'a option \<Rightarrow> jmap" where
  "some_field k f x = (case x of None \<Rightarrow> [] | Some y \<Rightarrow> [(k, f y)])"

fun envelope_fields :: "envelope \<Rightarrow> string \<times> jmap" where
  "envelope_fields (Open version agent workspace info env resume) =
     (''open'', [(''tunnelVersion'', enc_nat version), (''agent'', JString agent),
        (''workspace'', JString workspace), (''clientInfo'', enc_client_info info)]
        @ (if env = [] then [] else [(''clientEnvironment'', JArray (map enc_variable env))])
        @ some_field ''resume'' enc_resume resume)"
| "envelope_fields (Ready version cid token resumed) =
     (''ready'', [(''tunnelVersion'', enc_nat version), (''connectionId'', JString cid)]
        @ some_field ''resumeToken'' JString token @ [(''resumed'', JBool resumed)])"
| "envelope_fields (Acp sequence payload) =
     (''acp'', some_field ''sequence'' enc_nat sequence @ [(''payload'', JString payload)])"
| "envelope_fields (Ack stream sequence) =
     (''ack'', [(''stream'', JString (ack_stream_str stream)), (''sequence'', enc_nat sequence)])"
| "envelope_fields (Stderr payload) = (''stderr'', [(''payload'', JString payload)])"
| "envelope_fields (Exit code signal) =
     (''exit'', [(''code'', enc_option enc_int code), (''signal'', enc_option enc_int signal)])"
| "envelope_fields (Shutdown reason) =
     (''shutdown'', [(''reason'', JString (reason_as_str reason))])"
| "envelope_fields (ShutdownComplete code signal) =
     (''shutdown_complete'',
        [(''code'', enc_option enc_int code), (''signal'', enc_option enc_int signal)])"
| "envelope_fields (ErrorEnvelope code message) =
     (''error'', [(''code'', JString code), (''message'', JString message)])"
| "envelope_fields (Ping nonce) = (''ping'', [(''nonce'', JString nonce)])"
| "envelope_fields (Pong nonce) = (''pong'', [(''nonce'', JString nonce)])"

definition envelope_to_value :: "envelope \<Rightarrow> json" where
  "envelope_to_value e =
     (case envelope_fields e of (tag, members) \<Rightarrow> JObject ((''type'', JString tag) # members))"

section \<open>Decoding\<close>

definition u32_max :: nat where
  "u32_max = 4294967295"

fun dec_unsigned :: "nat \<Rightarrow> json \<Rightarrow> json_error + nat" where
  "dec_unsigned limit (JNumber (PosInt n)) = (if n \<le> limit then Inr n else Inl InvalidValue)"
| "dec_unsigned limit (JNumber (NegInt i)) = Inl InvalidValue"
| "dec_unsigned limit v = Inl InvalidType"

fun dec_i32 :: "json \<Rightarrow> json_error + i32" where
  "dec_i32 (JNumber (PosInt n)) = (if n \<le> 2147483647 then Inr (int n) else Inl InvalidValue)"
| "dec_i32 (JNumber (NegInt i)) = (if - 2147483648 \<le> i then Inr i else Inl InvalidValue)"
| "dec_i32 v = Inl InvalidType"

fun dec_string :: "json \<Rightarrow> json_error + string" where
  "dec_string (JString s) = Inr s"
| "dec_string v = Inl InvalidType"

fun dec_bool :: "json \<Rightarrow> json_error + bool" where
  "dec_bool (JBool b) = Inr b"
| "dec_bool v = Inl InvalidType"

definition dec_option :: "(json \<Rightarrow> json_error + 'a) \<Rightarrow> json \<Rightarrow> json_error + 'a option" where
  "dec_option f v = (if v = JNull then Inr None else rbind (f v) (\<lambda>x. Inr (Some x)))"

definition dec_stream :: "json \<Rightarrow> json_error + ack_stream" where
  "dec_stream v = rbind (dec_string v) (\<lambda>s.
     if s = ''client_to_server'' then Inr ClientToServer
     else if s = ''server_to_client'' then Inr ServerToClient
     else Inl (UnknownVariant s))"

definition dec_reason :: "json \<Rightarrow> json_error + shutdown_reason" where
  "dec_reason v = rbind (dec_string v) (\<lambda>s. Inr (reason_from_str s))"

text \<open>A field of a derived struct: a repeated known member is an error.\<close>

definition field_opt :: "string \<Rightarrow> jmap \<Rightarrow> json_error + json option" where
  "field_opt k m =
     (case filter (\<lambda>kv. fst kv = k) m of
        [] \<Rightarrow> Inr None
      | [kv] \<Rightarrow> Inr (Some (snd kv))
      | _ \<Rightarrow> Inl (DuplicateField k))"

definition required :: "string \<Rightarrow> (json \<Rightarrow> json_error + 'a) \<Rightarrow> jmap \<Rightarrow> json_error + 'a" where
  "required k f m = rbind (field_opt k m) (\<lambda>x.
     case x of None \<Rightarrow> Inl (MissingField k) | Some v \<Rightarrow> f v)"

definition defaulted :: "string \<Rightarrow> 'a \<Rightarrow> (json \<Rightarrow> json_error + 'a) \<Rightarrow> jmap \<Rightarrow> json_error + 'a" where
  "defaulted k d f m = rbind (field_opt k m) (\<lambda>x.
     case x of None \<Rightarrow> Inr d | Some v \<Rightarrow> f v)"

text \<open>The three structs with two string fields; a derived struct also accepts an array.\<close>

fun dec_pair :: "string \<Rightarrow> string \<Rightarrow> json \<Rightarrow> json_error + string \<times> string" where
  "dec_pair f1 f2 (JObject m) =
     rbind (required f1 dec_string m) (\<lambda>a. rbind (required f2 dec_string m) (\<lambda>b. Inr (a, b)))"
| "dec_pair f1 f2 (JArray [a, b]) =
     rbind (dec_string a) (\<lambda>a. rbind (dec_string b) (\<lambda>b. Inr (a, b)))"
| "dec_pair f1 f2 v = Inl InvalidType"

definition dec_client_info :: "json \<Rightarrow> json_error + client_info" where
  "dec_client_info v = rbind (dec_pair ''name'' ''version'' v)
     (\<lambda>(a, b). Inr \<lparr>ci_name = a, ci_version = b\<rparr>)"

definition dec_resume :: "json \<Rightarrow> json_error + resume_request" where
  "dec_resume v = rbind (dec_pair ''connectionId'' ''resumeToken'' v)
     (\<lambda>(a, b). Inr \<lparr>connection_id = a, resume_token = b\<rparr>)"

definition dec_variable :: "json \<Rightarrow> json_error + client_environment_variable" where
  "dec_variable v = rbind (dec_pair ''name'' ''value'' v)
     (\<lambda>(a, b). Inr \<lparr>var_name = a, var_value = b\<rparr>)"

fun dec_variables :: "json list \<Rightarrow> json_error + client_environment" where
  "dec_variables [] = Inr []"
| "dec_variables (v # vs) =
     rbind (dec_variable v) (\<lambda>x. rbind (dec_variables vs) (\<lambda>xs. Inr (x # xs)))"

fun dec_environment :: "json \<Rightarrow> json_error + client_environment" where
  "dec_environment (JArray vs) = dec_variables vs"
| "dec_environment v = Inl InvalidType"

definition decode_variant :: "string \<Rightarrow> jmap \<Rightarrow> json_error + envelope" where
  "decode_variant tag m =
     (if tag = ''open'' then
        rbind (required ''tunnelVersion'' (dec_unsigned u32_max) m) (\<lambda>version.
        rbind (required ''agent'' dec_string m) (\<lambda>agent.
        rbind (required ''workspace'' dec_string m) (\<lambda>workspace.
        rbind (required ''clientInfo'' dec_client_info m) (\<lambda>info.
        rbind (defaulted ''clientEnvironment'' [] dec_environment m) (\<lambda>env.
        rbind (defaulted ''resume'' None (dec_option dec_resume) m) (\<lambda>resume.
          Inr (Open version agent workspace info env resume)))))))
      else if tag = ''ready'' then
        rbind (required ''tunnelVersion'' (dec_unsigned u32_max) m) (\<lambda>version.
        rbind (required ''connectionId'' dec_string m) (\<lambda>cid.
        rbind (defaulted ''resumeToken'' None (dec_option dec_string) m) (\<lambda>token.
        rbind (defaulted ''resumed'' False dec_bool m) (\<lambda>resumed.
          Inr (Ready version cid token resumed)))))
      else if tag = ''acp'' then
        rbind (defaulted ''sequence'' None (dec_option (dec_unsigned u64_max)) m) (\<lambda>sequence.
        rbind (required ''payload'' dec_string m) (\<lambda>payload. Inr (Acp sequence payload)))
      else if tag = ''ack'' then
        rbind (required ''stream'' dec_stream m) (\<lambda>stream.
        rbind (required ''sequence'' (dec_unsigned u64_max) m) (\<lambda>sequence.
          Inr (Ack stream sequence)))
      else if tag = ''stderr'' then
        rbind (required ''payload'' dec_string m) (\<lambda>payload. Inr (Stderr payload))
      else if tag = ''exit'' then
        rbind (defaulted ''code'' None (dec_option dec_i32) m) (\<lambda>code.
        rbind (defaulted ''signal'' None (dec_option dec_i32) m) (\<lambda>signal.
          Inr (Exit code signal)))
      else if tag = ''shutdown'' then
        rbind (required ''reason'' dec_reason m) (\<lambda>reason. Inr (Shutdown reason))
      else if tag = ''shutdown_complete'' then
        rbind (defaulted ''code'' None (dec_option dec_i32) m) (\<lambda>code.
        rbind (defaulted ''signal'' None (dec_option dec_i32) m) (\<lambda>signal.
          Inr (ShutdownComplete code signal)))
      else if tag = ''error'' then
        rbind (required ''code'' dec_string m) (\<lambda>code.
        rbind (required ''message'' dec_string m) (\<lambda>message.
          Inr (ErrorEnvelope code message)))
      else if tag = ''ping'' then
        rbind (required ''nonce'' dec_string m) (\<lambda>nonce. Inr (Ping nonce))
      else if tag = ''pong'' then
        rbind (required ''nonce'' dec_string m) (\<lambda>nonce. Inr (Pong nonce))
      else Inl (UnknownVariant tag))"

text \<open>
  The tag must occur exactly once. Which error is reported when an envelope has several
  defects depends on the order of its members and is not modelled; \<open>seq\<close> stands for the array form that \<open>serde\<close> also
  accepts for an internally tagged enum.
\<close>

fun envelope_from_value ::
    "(json list \<Rightarrow> json_error + envelope) \<Rightarrow> json \<Rightarrow> json_error + envelope" where
  "envelope_from_value seq (JObject m) =
     rbind (required ''type'' dec_string m) (\<lambda>tag.
       decode_variant tag (filter (\<lambda>kv. fst kv \<noteq> ''type'') m))"
| "envelope_from_value seq (JArray vs) = seq vs"
| "envelope_from_value seq v = Inl InvalidType"

definition to_text :: "serde_json \<Rightarrow> envelope \<Rightarrow> string" where
  "to_text sj e = sj_to_string sj (envelope_to_value e)"

definition from_text ::
    "serde_json \<Rightarrow> (json list \<Rightarrow> json_error + envelope) \<Rightarrow> string \<Rightarrow> error + envelope" where
  "from_text sj seq text =
     map_err Json (rbind (sj_syntax sj text) (\<lambda>v. envelope_from_value seq v))"

section \<open>Opening requests\<close>

fun into_open :: "envelope \<Rightarrow> error + open_request" where
  "into_open (Open version agent workspace info env resume) =
     (if version = TUNNEL_VERSION
      then Inr \<lparr>or_tunnel_version = version, or_agent = agent, or_workspace = workspace,
                or_client_info = info, or_client_environment = env, or_resume = resume\<rparr>
      else Inl (Protocol [Lit ''unsupported tunnel version '', Num version,
                          Lit ''; expected '', Num TUNNEL_VERSION]))"
| "into_open _ =
     Inl (Protocol [Lit ''the first WebSocket message must be an open envelope''])"

section \<open>Debug output\<close>

text \<open>The tree that a \<open>Debug\<close> formatter is given.\<close>

datatype debug_value =
    DStr string
  | DNum nat
  | DCode "i32 option"
  | DBool bool
  | DReason shutdown_reason
  | DStream ack_stream
  | DOptNum "nat option"
  | DNone
  | DSome debug_value
  | DList "debug_value list"
  | DStruct string "(string \<times> debug_value) list"

definition REDACTED :: debug_value where
  "REDACTED = DStr ''[REDACTED]''"

definition debug_variable :: "client_environment_variable \<Rightarrow> debug_value" where
  "debug_variable v = DStruct ''ClientEnvironmentVariable''
     [(''name'', DStr (var_name v)), (''value'', REDACTED)]"

definition debug_environment :: "client_environment \<Rightarrow> debug_value" where
  "debug_environment env = DList (map debug_variable env)"

definition debug_resume :: "resume_request \<Rightarrow> debug_value" where
  "debug_resume r = DStruct ''ResumeRequest''
     [(''connection_id'', DStr (connection_id r)), (''resume_token'', REDACTED)]"

definition debug_client_info :: "client_info \<Rightarrow> debug_value" where
  "debug_client_info ci = DStruct ''ClientInfo''
     [(''name'', DStr (ci_name ci)), (''version'', DStr (ci_version ci))]"

definition debug_option :: "('a \<Rightarrow> debug_value) \<Rightarrow> 'a option \<Rightarrow> debug_value" where
  "debug_option f x = (case x of None \<Rightarrow> DNone | Some y \<Rightarrow> DSome (f y))"

fun envelope_debug :: "envelope \<Rightarrow> debug_value" where
  "envelope_debug (Open version agent workspace info env resume) = DStruct ''Open''
     [(''tunnel_version'', DNum version), (''agent'', DStr agent), (''workspace'', DStr workspace),
      (''client_info'', debug_client_info info), (''client_environment'', debug_environment env),
      (''resume'', debug_option debug_resume resume)]"
| "envelope_debug (Ready version cid token resumed) = DStruct ''Ready''
     [(''tunnel_version'', DNum version), (''connection_id'', DStr cid),
      (''resume_token'', debug_option (\<lambda>_. REDACTED) token), (''resumed'', DBool resumed)]"
| "envelope_debug (Acp sequence payload) = DStruct ''Acp''
     [(''sequence'', DOptNum sequence), (''payload'', REDACTED)]"
| "envelope_debug (Ack stream sequence) = DStruct ''Ack''
     [(''stream'', DStream stream), (''sequence'', DNum sequence)]"
| "envelope_debug (Stderr payload) = DStruct ''Stderr'' [(''payload'', REDACTED)]"
| "envelope_debug (Exit code signal) = DStruct ''Exit''
     [(''code'', DCode code), (''signal'', DCode signal)]"
| "envelope_debug (Shutdown reason) = DStruct ''Shutdown'' [(''reason'', DReason reason)]"
| "envelope_debug (ShutdownComplete code signal) = DStruct ''ShutdownComplete''
     [(''code'', DCode code), (''signal'', DCode signal)]"
| "envelope_debug (ErrorEnvelope code message) = DStruct ''Error''
     [(''code'', DStr code), (''message'', DStr message)]"
| "envelope_debug (Ping nonce) = DStruct ''Ping'' [(''nonce'', DStr nonce)]"
| "envelope_debug (Pong nonce) = DStruct ''Pong'' [(''nonce'', DStr nonce)]"

section \<open>Round trips\<close>

lemmas field_simps_json = field_opt_def required_def defaulted_def

lemma dec_enc_nat [simp]: "dec_unsigned limit (enc_nat n) = (if n \<le> limit then Inr n else Inl InvalidValue)"
  by (simp add: enc_nat_def)

definition i32_ok :: "i32 option \<Rightarrow> bool" where
  "i32_ok x = (case x of None \<Rightarrow> True | Some i \<Rightarrow> - 2147483648 \<le> i \<and> i \<le> 2147483647)"

lemma dec_enc_i32 [simp]:
  "i32_ok x \<Longrightarrow> dec_option dec_i32 (enc_option enc_int x) = Inr x"
  by (auto simp: i32_ok_def enc_option_def enc_int_def dec_option_def split: option.splits)

lemma reason_from_as_str:
  "(\<forall>s. r = UnknownReason s \<longrightarrow> s \<notin> {''stdin_eof'', ''sigterm'', ''interrupt'', ''client_shutdown''})
   \<Longrightarrow> reason_from_str (reason_as_str r) = r"
  by (cases r) (auto simp: reason_from_str_def)

lemma reason_as_from_str: "reason_as_str (reason_from_str s) = s"
  by (simp add: reason_from_str_def)

lemma dec_enc_stream [simp]: "dec_stream (JString (ack_stream_str st)) = Inr st"
  by (cases st) (simp_all add: dec_stream_def)

lemma dec_enc_client_info [simp]: "dec_client_info (enc_client_info ci) = Inr ci"
  by (simp add: dec_client_info_def enc_client_info_def enc_pair_def field_simps_json)

lemma dec_enc_resume [simp]: "dec_resume (enc_resume r) = Inr r"
  by (simp add: dec_resume_def enc_resume_def enc_pair_def field_simps_json)

lemma dec_enc_variable [simp]: "dec_variable (enc_variable v) = Inr v"
  by (simp add: dec_variable_def enc_variable_def enc_pair_def field_simps_json)

lemma dec_enc_variables [simp]: "dec_variables (map enc_variable env) = Inr env"
  by (induction env) auto

lemma enc_resume_not_null [simp]: "enc_resume r \<noteq> JNull"
  by (simp add: enc_resume_def enc_pair_def)

fun envelope_wf :: "envelope \<Rightarrow> bool" where
  "envelope_wf (Open version _ _ _ _ _) \<longleftrightarrow> version \<le> u32_max"
| "envelope_wf (Ready version _ _ _) \<longleftrightarrow> version \<le> u32_max"
| "envelope_wf (Acp sequence _) \<longleftrightarrow> (case sequence of None \<Rightarrow> True | Some n \<Rightarrow> n \<le> u64_max)"
| "envelope_wf (Ack _ sequence) \<longleftrightarrow> sequence \<le> u64_max"
| "envelope_wf (Exit code signal) \<longleftrightarrow> i32_ok code \<and> i32_ok signal"
| "envelope_wf (ShutdownComplete code signal) \<longleftrightarrow> i32_ok code \<and> i32_ok signal"
| "envelope_wf (Shutdown reason) \<longleftrightarrow> reason_from_str (reason_as_str reason) = reason"
| "envelope_wf _ \<longleftrightarrow> True"

lemma envelope_from_to_value:
  "envelope_wf e \<Longrightarrow> envelope_from_value seq (envelope_to_value e) = Inr e"
proof (cases e)
  case (Open version agent workspace info env resume)
  assume "envelope_wf e"
  with Open show ?thesis
    by (cases resume)
       (auto simp: envelope_to_value_def decode_variant_def field_simps_json some_field_def dec_option_def)
next
  case (Ready version cid token resumed)
  assume "envelope_wf e"
  with Ready show ?thesis
    by (cases token)
       (auto simp: envelope_to_value_def decode_variant_def field_simps_json some_field_def dec_option_def)
next
  case (Acp sequence payload)
  assume "envelope_wf e"
  with Acp show ?thesis
    by (cases sequence)
       (auto simp: envelope_to_value_def decode_variant_def field_simps_json some_field_def dec_option_def enc_nat_def)
qed (auto simp: envelope_to_value_def decode_variant_def field_simps_json dec_reason_def)

text \<open>An encoded envelope is a normal JSON value: its keys are distinct.\<close>

lemma norm_enc [simp]:
  "norm (enc_nat n) = enc_nat n" "norm (enc_option enc_int x) = enc_option enc_int x"
  "norm (enc_pair f1 f2 a b) = (if f1 = f2 then JObject [(f1, JString b)] else enc_pair f1 f2 a b)"
  by (auto simp: enc_nat_def enc_option_def enc_int_def enc_pair_def split: option.splits)

lemma norm_enc_structs [simp]:
  "norm (enc_client_info ci) = enc_client_info ci" "norm (enc_resume r) = enc_resume r"
  "norm (enc_variable v) = enc_variable v"
  by (simp_all add: enc_client_info_def enc_resume_def enc_variable_def)

lemma envelope_to_value_normal: "norm (envelope_to_value e) = envelope_to_value e"
  by (cases e)
     (auto simp: envelope_to_value_def some_field_def split: option.splits intro!: map_idI)

section \<open>Properties\<close>

text \<open>The secrets of an envelope, blanked.\<close>

fun redact :: "envelope \<Rightarrow> envelope" where
  "redact (Open version agent workspace info env resume) =
     Open version agent workspace info (map (\<lambda>v. v\<lparr>var_value := []\<rparr>) env)
       (map_option (\<lambda>r. r\<lparr>resume_token := []\<rparr>) resume)"
| "redact (Ready version connection token resumed) =
     Ready version connection (map_option (\<lambda>_. []) token) resumed"
| "redact (Acp sequence payload) = Acp sequence []"
| "redact (Stderr payload) = Stderr []"
| "redact e = e"

text \<open>
  The form in which an envelope is read back: a reason held as unknown although its text is that of a known
  reason, which only an embedding application can build, becomes the known one.
\<close>

fun canonical :: "envelope \<Rightarrow> envelope" where
  "canonical (Shutdown reason) = Shutdown (reason_from_str (reason_as_str reason))"
| "canonical e = e"

fun numbers_in_range :: "envelope \<Rightarrow> bool" where
  "numbers_in_range (Shutdown _) \<longleftrightarrow> True"
| "numbers_in_range e \<longleftrightarrow> envelope_wf e"

lemma canonical_value: "envelope_to_value (canonical e) = envelope_to_value e"
  by (cases e) (simp_all add: envelope_to_value_def reason_as_from_str)

lemma canonical_wf: "numbers_in_range e \<Longrightarrow> envelope_wf (canonical e)"
  by (cases e) (simp_all add: reason_as_from_str)

lemma canonical_known: "(\<And>s. e \<noteq> Shutdown (UnknownReason s)) \<Longrightarrow> canonical e = e"
proof (cases e)
  case (Shutdown reason)
  assume "\<And>s. e \<noteq> Shutdown (UnknownReason s)"
  with Shutdown show ?thesis by (cases reason) (simp_all add: reason_from_str_def)
qed simp_all

text \<open>
  C19. Whatever text the JSON library prints for an envelope whose numbers fit their Rust types, reading it
  back with \<open>from_text\<close> gives the canonical form of the envelope, which prints the same text; every envelope but a
  shutdown with an unknown reason is in its canonical form.
\<close>

theorem envelope_text_roundtrip:
  assumes "prints_back sj (envelope_to_value e)" and "numbers_in_range e"
  shows "from_text sj seq (to_text sj e) = Inr (canonical e) \<and> to_text sj (canonical e) = to_text sj e \<and>
    ((\<forall>s. e \<noteq> Shutdown (UnknownReason s)) \<longrightarrow> canonical e = e)"
proof -
  have "from_text sj seq (to_text sj e) = Inr (canonical e)"
    using assms(1) envelope_from_to_value [OF canonical_wf [OF assms(2)]]
    by (simp add: from_text_def to_text_def prints_back_def canonical_value)
  then show ?thesis using canonical_known by (simp add: to_text_def canonical_value)
qed

definition example_serde :: "json \<Rightarrow> serde_json" where
  "example_serde v = \<lparr>sj_syntax = (\<lambda>s. if s = ''text'' then Inr v else Inl (Syntax s)),
     sj_value = (\<lambda>s. if s = ''text'' then Inr (norm v) else Inl (Syntax s)),
     sj_to_string = (\<lambda>w. if w = v then ''text'' else ''other''), sj_display = (\<lambda>_. [])\<rparr>"

theorem envelope_text_roundtrip_witness:
  "let e = Acp (Some 7) ''hello''; sj = example_serde (envelope_to_value e)
   in from_text sj (\<lambda>_. Inl InvalidType) (to_text sj e) = Inr e"
proof -
  let ?e = "Acp (Some 7) ''hello''"
  have "prints_back (example_serde (envelope_to_value ?e)) (envelope_to_value ?e)"
    by (simp add: prints_back_def example_serde_def envelope_to_value_normal)
  moreover have "numbers_in_range ?e" by (simp add: u64_max_def)
  ultimately have "from_text (example_serde (envelope_to_value ?e)) (\<lambda>_. Inl InvalidType)
      (to_text (example_serde (envelope_to_value ?e)) ?e) = Inr (canonical ?e)"
    using envelope_text_roundtrip by blast
  then show ?thesis by (simp add: Let_def)
qed

text \<open>
  \<open>into_open\<close> accepts exactly the opening envelopes of tunnel version 3, and then hands
  over every field unchanged.
\<close>

theorem into_open_exact:
  "into_open e = Inr r \<longleftrightarrow>
     e = Open 3 (or_agent r) (or_workspace r) (or_client_info r) (or_client_environment r) (or_resume r) \<and>
     or_tunnel_version r = 3"
  by (cases e; cases r) (auto simp: TUNNEL_VERSION_def split: if_splits)

text \<open>
  The \<open>Debug\<close> output of an envelope does not depend on the values of client environment
  variables, on resume tokens, on ACP payloads or on standard-error text: it is the output of the
  envelope with all of these blanked.
\<close>

theorem debug_redacts: "envelope_debug e = envelope_debug (redact e)"
  by (cases e)
     (auto simp: debug_environment_def debug_variable_def debug_resume_def debug_option_def
       split: option.splits)

text \<open>
  Every shutdown reason on the wire is accepted, unknown ones included, and a reason that is
  read and written again is the same text.
\<close>

theorem shutdown_reason_open_ended:
  "\<exists>r. envelope_from_value seq (JObject [(''type'', JString ''shutdown''), (''reason'', JString s)])
        = Inr (Shutdown r) \<and> reason_as_str r = s"
  by (simp add: decode_variant_def field_simps_json dec_reason_def reason_as_from_str)

end
