(* ===== verification/Acp_Process.thy ===== *)
theory Acp_Process
  imports Acp_Config Acp_Protocol
begin

text \<open>
  \<^verbatim>\<open>process.rs\<close>: the environment an agent or an MCP server is given, the command that
  is spawned, and the shutdown of the process group on Unix. The host environment
  (\<open>std::env::var\<close>) is a parameter; the answers of the operating system to \<open>waitpid\<close>
  and \<open>killpg\<close> are the record \<open>os_answers\<close>, and the operations also return the trace of
  what they asked of it.
\<close>

section \<open>Environments\<close>

type_synonym host_env = "string \<Rightarrow> string option"

definition selected_environment ::
    "host_env \<Rightarrow> string list \<Rightarrow> string btree \<Rightarrow> string btree" where
  "selected_environment host pass_env fixed =
     (let selected = fold (\<lambda>name m. case host name of None \<Rightarrow> m | Some value \<Rightarrow> btree_insert name value m)
                       pass_env []
      in btree_extend selected fixed)"

definition selected_mcp_environment :: "host_env \<Rightarrow> mcp_server_config \<Rightarrow> string btree" where
  "selected_mcp_environment host config = selected_environment host (mc_pass_env config) (mc_env config)"

text \<open>One iteration of the loop over the client variables: the merged map and the names seen.\<close>

definition merge_variable ::
    "agent_config \<Rightarrow> string btree \<times> string set \<Rightarrow> client_environment_variable
      \<Rightarrow> error + string btree \<times> string set" where
  "merge_variable config acc variable =
     (case acc of (merged, incoming_names) \<Rightarrow>
        rbind (map_err (\<lambda>_. Protocol [Lit ''client environment has an invalid variable name''])
                 (validate_environment_name ''client agent'' ''request'' (var_name variable))) (\<lambda>_.
        if CHR 0x00 \<in> set (var_value variable)
        then Inl (Protocol [Lit ''client environment has an invalid variable value''])
        else if var_name variable \<in> incoming_names
        then Inl (Protocol [Lit ''client environment contains a duplicate variable name''])
        else if var_name variable \<notin> set (ag_client_env_allowlist config)
        then Inl (Protocol [Lit ''client environment variable '', Dbg (var_name variable),
                            Lit '' is not allowlisted for this agent''])
        else Inr (btree_or_insert (var_name variable) (var_value variable) merged,
                  insert (var_name variable) incoming_names)))"

definition merge_agent_environment ::
    "host_env \<Rightarrow> agent_config \<Rightarrow> client_environment \<Rightarrow> error + string btree" where
  "merge_agent_environment host config client_environment =
     rbind (try_fold (merge_variable config)
              (selected_environment host (ag_pass_env config) (ag_env config), {})
              client_environment)
       (\<lambda>(merged, _). Inr merged)"

subsection \<open>Selection\<close>

definition host_value :: "host_env \<Rightarrow> string list \<Rightarrow> string btree \<Rightarrow> string \<Rightarrow> string option" where
  "host_value host pass_env fixed name =
     (case map_of fixed name of
        Some v \<Rightarrow> Some v
      | None \<Rightarrow> if name \<in> set pass_env then host name else None)"

lemma map_of_fold_pass_env:
  "map_of (fold (\<lambda>name m. case host name of None \<Rightarrow> m | Some value \<Rightarrow> btree_insert name value m) ns m) x
   = (if x \<in> set ns \<and> host x \<noteq> None then host x else map_of m x)"
  by (induction ns arbitrary: m) (auto simp: map_of_btree_insert split: option.splits)

lemma map_of_selected_environment:
  "btree_inv fixed \<Longrightarrow>
   map_of (selected_environment host pass_env fixed) name = host_value host pass_env fixed name"
  by (auto simp: selected_environment_def Let_def map_of_btree_extend map_of_fold_pass_env
      host_value_def split: option.splits)

lemma btree_inv_selected_environment: "btree_inv (selected_environment host pass_env fixed)"
proof -
  have "btree_inv m \<Longrightarrow> btree_inv (fold (\<lambda>name m. case host name of None \<Rightarrow> m
      | Some value \<Rightarrow> btree_insert name value m) ns m)" for ns m
    by (induction ns arbitrary: m) (auto simp: btree_inv_insert split: option.splits)
  then show ?thesis
    by (simp add: selected_environment_def Let_def btree_inv_extend)
qed

subsection \<open>Merging client values\<close>

lemma merge_variable_Inr_iff:
  "merge_variable config (m, seen) v = Inr r \<longleftrightarrow>
     env_name_ok (var_name v) \<and> CHR 0x00 \<notin> set (var_value v) \<and> var_name v \<notin> seen \<and>
     var_name v \<in> set (ag_client_env_allowlist config) \<and>
     r = (btree_or_insert (var_name v) (var_value v) m, insert (var_name v) seen)"
  by (auto simp: merge_variable_def rbind_Inr_iff split: if_splits)

lemma try_fold_merge_variable:
  assumes "try_fold (merge_variable config) (m, seen) vs = Inr (m', seen')"
  shows "map_of m' x = (case map_of m x of Some v \<Rightarrow> Some v
           | None \<Rightarrow> map_of (map (\<lambda>v. (var_name v, var_value v)) vs) x)"
    and "distinct (map var_name vs)" and "set (map var_name vs) \<inter> seen = {}"
    and "\<forall>v\<in>set vs. env_name_ok (var_name v) \<and> CHR 0x00 \<notin> set (var_value v)
           \<and> var_name v \<in> set (ag_client_env_allowlist config)"
proof -
  have "map_of m' x = (case map_of m x of Some v \<Rightarrow> Some v
           | None \<Rightarrow> map_of (map (\<lambda>v. (var_name v, var_value v)) vs) x)
      \<and> distinct (map var_name vs) \<and> set (map var_name vs) \<inter> seen = {}
      \<and> (\<forall>v\<in>set vs. env_name_ok (var_name v) \<and> CHR 0x00 \<notin> set (var_value v)
           \<and> var_name v \<in> set (ag_client_env_allowlist config))"
    using assms
  proof (induction vs arbitrary: m seen)
    case Nil
    then show ?case by (auto split: option.splits)
  next
    case (Cons v vs)
    from Cons.prems obtain
      step: "env_name_ok (var_name v)" "CHR 0x00 \<notin> set (var_value v)" "var_name v \<notin> seen"
        "var_name v \<in> set (ag_client_env_allowlist config)"
      and rest: "try_fold (merge_variable config)
         (btree_or_insert (var_name v) (var_value v) m, insert (var_name v) seen) vs = Inr (m', seen')"
      by (auto simp: rbind_Inr_iff merge_variable_Inr_iff)
    show ?case using Cons.IH [OF rest] step
      by (auto simp: map_of_btree_or_insert split: option.splits if_splits)
  qed
  then show "map_of m' x = (case map_of m x of Some v \<Rightarrow> Some v
           | None \<Rightarrow> map_of (map (\<lambda>v. (var_name v, var_value v)) vs) x)"
    and "distinct (map var_name vs)" and "set (map var_name vs) \<inter> seen = {}"
    and "\<forall>v\<in>set vs. env_name_ok (var_name v) \<and> CHR 0x00 \<notin> set (var_value v)
           \<and> var_name v \<in> set (ag_client_env_allowlist config)"
    by blast+
qed

text \<open>A client environment the server accepts for an agent.\<close>

definition client_environment_ok :: "agent_config \<Rightarrow> client_environment \<Rightarrow> bool" where
  "client_environment_ok config env \<longleftrightarrow>
     distinct (map var_name env) \<and>
     (\<forall>v\<in>set env. env_name_ok (var_name v) \<and> CHR 0x00 \<notin> set (var_value v)
        \<and> var_name v \<in> set (ag_client_env_allowlist config))"

lemma try_fold_merge_variable_ok:
  assumes "distinct (map var_name vs)" and "set (map var_name vs) \<inter> seen = {}"
    and "\<forall>v\<in>set vs. env_name_ok (var_name v) \<and> CHR 0x00 \<notin> set (var_value v)
           \<and> var_name v \<in> set (ag_client_env_allowlist config)"
  shows "\<exists>r. try_fold (merge_variable config) (m, seen) vs = Inr r"
  using assms
proof (induction vs arbitrary: m seen)
  case Nil
  then show ?case by simp
next
  case (Cons v vs)
  have step: "merge_variable config (m, seen) v
    = Inr (btree_or_insert (var_name v) (var_value v) m, insert (var_name v) seen)"
    using Cons.prems by (auto simp: merge_variable_Inr_iff)
  show ?case
    using Cons.IH [of "insert (var_name v) seen" "btree_or_insert (var_name v) (var_value v) m"]
      Cons.prems step by auto
qed

lemma merge_agent_environment_ok_iff:
  "is_ok (merge_agent_environment host config env) \<longleftrightarrow> client_environment_ok config env"
proof
  assume "is_ok (merge_agent_environment host config env)"
  then obtain m' seen' where "try_fold (merge_variable config)
      (selected_environment host (ag_pass_env config) (ag_env config), {}) env = Inr (m', seen')"
    by (auto simp: merge_agent_environment_def rbind_def is_ok_def split: sum.splits)
  from try_fold_merge_variable(2,4) [OF this]
  show "client_environment_ok config env" by (simp add: client_environment_ok_def)
next
  assume "client_environment_ok config env"
  then obtain r where "try_fold (merge_variable config)
      (selected_environment host (ag_pass_env config) (ag_env config), {}) env = Inr r"
    unfolding client_environment_ok_def
    using try_fold_merge_variable_ok [of env "{}" config] by blast
  then show "is_ok (merge_agent_environment host config env)"
    by (cases r) (simp add: merge_agent_environment_def)
qed

lemma map_of_merge_agent_environment:
  assumes "merge_agent_environment host config env = Inr merged" and "btree_inv (ag_env config)"
  shows "map_of merged x =
    (case host_value host (ag_pass_env config) (ag_env config) x of
       Some v \<Rightarrow> Some v
     | None \<Rightarrow> map_of (map (\<lambda>v. (var_name v, var_value v)) env) x)"
proof -
  from assms(1) obtain seen' where "try_fold (merge_variable config)
      (selected_environment host (ag_pass_env config) (ag_env config), {}) env = Inr (merged, seen')"
    by (auto simp: merge_agent_environment_def rbind_Inr_iff)
  from try_fold_merge_variable(1) [OF this] show ?thesis
    by (simp add: map_of_selected_environment assms(2))
qed

text \<open>No error message shows a value of the client environment.\<close>

lemma merge_variable_error_shows:
  assumes "merge_variable config acc v = Inl e"
  shows "message_shows (error_to_string e) \<subseteq> {var_name v}"
proof -
  obtain m seen where "acc = (m, seen)" by (cases acc)
  with assms show ?thesis
    by (auto simp: merge_variable_def validate_environment_name_def split: if_splits)
qed

section \<open>Spawning\<close>

record spawn_command =
  sc_program :: string
  sc_args :: "string list"
  sc_current_dir :: string
  sc_env :: "string btree"   \<comment> \<open>the complete environment: it is cleared first\<close>
  sc_process_group :: nat

record spawned =
  sp_id :: "nat option"
  sp_stdin :: bool
  sp_stdout :: bool
  sp_stderr :: bool

record agent_process =
  ap_pid :: nat
  ap_stdin :: bool
  ap_stdout :: bool
  ap_stderr :: bool

definition agent_command ::
    "host_env \<Rightarrow> agent_config \<Rightarrow> string \<Rightarrow> client_environment \<Rightarrow> error + spawn_command" where
  "agent_command host config workspace client_environment =
     rbind (merge_agent_environment host config client_environment) (\<lambda>environment.
       Inr \<lparr>sc_program = ag_command config, sc_args = ag_args config, sc_current_dir = workspace,
            sc_env = environment, sc_process_group = 0\<rparr>)"

definition spawn ::
    "(spawn_command \<Rightarrow> string + spawned) \<Rightarrow> host_env \<Rightarrow> agent_config \<Rightarrow> string \<Rightarrow> client_environment
      \<Rightarrow> error + agent_process" where
  "spawn os_spawn host config workspace client_environment =
     rbind (agent_command host config workspace client_environment) (\<lambda>command.
     rbind (map_err (\<lambda>error. Process [Lit ''cannot start configured agent executable '',
              Disp (ag_command config), Lit '': '', Disp error]) (os_spawn command)) (\<lambda>child.
     rbind (ok_or (Process [Lit ''spawned agent has no process ID'']) (sp_id child)) (\<lambda>pid.
       if \<not> sp_stdin child then Inl (Process [Lit ''agent stdin pipe is unavailable''])
       else if \<not> sp_stdout child then Inl (Process [Lit ''agent stdout pipe is unavailable''])
       else if \<not> sp_stderr child then Inl (Process [Lit ''agent stderr pipe is unavailable''])
       else Inr \<lparr>ap_pid = pid, ap_stdin = True, ap_stdout = True, ap_stderr = True\<rparr>)))"

definition take_stdin :: "agent_process \<Rightarrow> error + agent_process" where
  "take_stdin p = (if ap_stdin p then Inr (p\<lparr>ap_stdin := False\<rparr>)
     else Inl (Process [Lit ''agent stdin pipe was already taken'']))"

definition take_stdout :: "agent_process \<Rightarrow> error + agent_process" where
  "take_stdout p = (if ap_stdout p then Inr (p\<lparr>ap_stdout := False\<rparr>)
     else Inl (Process [Lit ''agent stdout pipe was already taken'']))"

definition take_stderr :: "agent_process \<Rightarrow> error + agent_process" where
  "take_stderr p = (if ap_stderr p then Inr (p\<lparr>ap_stderr := False\<rparr>)
     else Inl (Process [Lit ''agent stderr pipe was already taken'']))"

lemma agent_command_server_owned:
  "agent_command host config ws env = Inr c \<Longrightarrow>
     sc_program c = ag_command config \<and> sc_args c = ag_args config \<and> sc_current_dir c = ws"
  by (auto simp: agent_command_def rbind_Inr_iff)

section \<open>Properties\<close>

text \<open>
  A client environment is accepted for an agent exactly when its names are valid, distinct and
  all on the agent's allowlist and no value contains a NUL byte.
\<close>

theorem client_environment_accepted_iff:
  "is_ok (merge_agent_environment host config env) \<longleftrightarrow>
     distinct (map var_name env) \<and>
     (\<forall>v\<in>set env. env_name_ok (var_name v) \<and> CHR 0x00 \<notin> set (var_value v) \<and>
        var_name v \<in> set (ag_client_env_allowlist config))"
  by (simp add: merge_agent_environment_ok_iff client_environment_ok_def)

text \<open>
  C29. The environment an agent starts with has, for every name, the fixed value of the
  configuration, else the host's value if the name is passed through, else the client's value: a
  client never overrides what the server set.
\<close>

theorem agent_environment_precedence:
  assumes "btree_inv (ag_env config)"
    and "spawn os_spawn host config workspace env = Inr process"
  shows "\<exists>command. agent_command host config workspace env = Inr command \<and>
    sc_program command = ag_command config \<and> sc_args command = ag_args config \<and>
    sc_current_dir command = workspace \<and>
    (\<forall>x. map_of (sc_env command) x =
       (case map_of (ag_env config) x of
          Some v \<Rightarrow> Some v
        | None \<Rightarrow>
            (case (if x \<in> set (ag_pass_env config) then host x else None) of
               Some v \<Rightarrow> Some v
             | None \<Rightarrow> map_of (map (\<lambda>v. (var_name v, var_value v)) env) x)))"
proof -
  from assms(2) obtain command where c: "agent_command host config workspace env = Inr command"
    by (auto simp: spawn_def rbind_Inr_iff)
  then have merged: "merge_agent_environment host config env = Inr (sc_env command)"
    by (auto simp: agent_command_def rbind_Inr_iff)
  have "map_of (sc_env command) x =
       (case map_of (ag_env config) x of
          Some v \<Rightarrow> Some v
        | None \<Rightarrow>
            (case (if x \<in> set (ag_pass_env config) then host x else None) of
               Some v \<Rightarrow> Some v
             | None \<Rightarrow> map_of (map (\<lambda>v. (var_name v, var_value v)) env) x))" for x
    using map_of_merge_agent_environment [OF merged assms(1), of x]
    by (simp add: host_value_def split: option.splits)
  with c agent_command_server_owned [OF c] show ?thesis by blast
qed

definition example_variable :: client_environment_variable where
  "example_variable = \<lparr>var_name = ''TOKEN'', var_value = ''from-client''\<rparr>"

definition example_spawn :: "spawn_command \<Rightarrow> string + spawned" where
  "example_spawn command = Inr \<lparr>sp_id = Some 42, sp_stdin = True, sp_stdout = True, sp_stderr = True\<rparr>"

theorem client_environment_accepted_iff_witness:
  "is_ok (merge_agent_environment (\<lambda>_. None) example_agent [example_variable]) \<and>
   \<not> is_ok (merge_agent_environment (\<lambda>_. None) example_agent [example_variable, example_variable])"
  unfolding client_environment_accepted_iff
  by (simp add: example_agent_def example_variable_def env_name_ok_def)

theorem agent_environment_precedence_witness:
  "\<exists>command. agent_command (\<lambda>_. None) example_agent ''/srv/main'' [example_variable] = Inr command \<and>
    sc_program command = ''/usr/bin/agent'' \<and> map_of (sc_env command) ''TOKEN'' = Some ''from-client'' \<and>
    map_of (sc_env command) ''MODE'' = Some ''remote''"
proof -
  have inv: "btree_inv (ag_env example_agent)" by (simp add: example_agent_def)
  have "spawn example_spawn (\<lambda>_. None) example_agent ''/srv/main'' [example_variable]
      = Inr \<lparr>ap_pid = 42, ap_stdin = True, ap_stdout = True, ap_stderr = True\<rparr>"
    by (simp add: spawn_def agent_command_def merge_agent_environment_def merge_variable_def
      example_agent_def example_variable_def example_spawn_def validate_environment_name_def)
  from agent_environment_precedence [OF inv this] show ?thesis
    by (auto simp: example_agent_def example_variable_def)
qed

text \<open>
  No error of the environment merge shows a value the client sent: at most one variable name
  appears in the message.
\<close>

theorem environment_errors_hide_values:
  assumes "merge_agent_environment host config env = Inl e"
  shows "\<exists>v\<in>set env. message_shows (error_to_string e) \<subseteq> {var_name v}"
proof -
  have "try_fold (merge_variable config) acc env = Inl e \<Longrightarrow>
      \<exists>v\<in>set env. message_shows (error_to_string e) \<subseteq> {var_name v}" for acc
    by (induction env arbitrary: acc) (auto simp: rbind_Inl_iff dest: merge_variable_error_shows)
  with assms show ?thesis by (auto simp: merge_agent_environment_def rbind_Inl_iff)
qed

theorem environment_errors_hide_values_witness:
  "\<exists>v\<in>set [\<lparr>var_name = ''PATH'', var_value = ''secret''\<rparr>].
     message_shows (error_to_string (Protocol [Lit ''client environment variable '', Dbg ''PATH'',
       Lit '' is not allowlisted for this agent''])) \<subseteq> {var_name v}"
proof -
  have "merge_agent_environment (\<lambda>_. None) example_agent [\<lparr>var_name = ''PATH'', var_value = ''secret''\<rparr>]
      = Inl (Protocol [Lit ''client environment variable '', Dbg ''PATH'',
          Lit '' is not allowlisted for this agent''])"
    by (simp add: merge_agent_environment_def merge_variable_def example_agent_def
      validate_environment_name_def)
  then show ?thesis by (rule environment_errors_hide_values)
qed

end
