(* ===== verification/Acp_Policy.thy ===== *)
theory Acp_Policy
  imports Acp_Process
begin

text \<open>
  \<^verbatim>\<open>policy.rs\<close>: the only transformations of ACP lines. A line whose method is not a
  lifecycle method is forwarded byte for byte; a lifecycle request is parsed, its
  \<open>cwd\<close> and its MCP servers are edited and it is printed again. Parsing and printing,
  the host environment, the text of messages and the serialisation of an MCP server
  definition (the \<open>agent-client-protocol\<close> crate) are the parameters in \<open>policy_env\<close>.
\<close>

section \<open>Data and parameters\<close>

record mcp_stdio =
  ms_name :: string
  ms_command :: string
  ms_args :: "string list"
  ms_env :: "(string \<times> string) list"

record policy_env =
  pe_serde :: serde_json
  pe_host :: host_env
  pe_stdio :: "mcp_stdio \<Rightarrow> json_error + json"
  pe_format :: text_format

datatype policy_outcome = Forward string | Reject string

record acp_policy =
  pol_workspace_path :: string
  pol_rewrite_cwd :: bool
  pol_mcp_policy :: mcp_policy
  pol_mcp_servers :: "mcp_server_config btree"

definition SESSION_NEW_METHOD :: string where
  "SESSION_NEW_METHOD = ''session/new''"

definition LIFECYCLE_METHODS :: "string list" where
  "LIFECYCLE_METHODS = [SESSION_NEW_METHOD, ''session/load'', ''session/resume'']"

section \<open>The method of a line\<close>

text \<open>The derived deserialiser of \<open>MethodOnly\<close>: an object, or an array of its one field.\<close>

fun method_only :: "json \<Rightarrow> json_error + string option" where
  "method_only (JObject m) = defaulted ''method'' None (dec_option dec_string) m"
| "method_only (JArray [v]) = dec_option dec_string v"
| "method_only v = Inl InvalidType"

definition sniff_method :: "serde_json \<Rightarrow> string \<Rightarrow> string option" where
  "sniff_method sj line =
     (case rbind (sj_syntax sj line) method_only of Inl _ \<Rightarrow> None | Inr m \<Rightarrow> m)"

section \<open>Client environments of MCP servers\<close>

definition validate_client_environment_name :: "string \<Rightarrow> message + unit" where
  "validate_client_environment_name name =
     map_err (\<lambda>_. [Lit ''MCP environment contains an invalid variable name''])
       (validate_environment_name ''client MCP server'' ''request'' name)"

definition parse_array_entry :: "string btree \<Rightarrow> json \<Rightarrow> message + string btree" where
  "parse_array_entry parsed entry =
     rbind (ok_or [Lit ''each MCP environment entry must be an object''] (as_object entry)) (\<lambda>object.
     rbind (ok_or [Lit ''each MCP environment entry must have a string name'']
              (Option.bind (map_of object ''name'') as_str)) (\<lambda>name.
     rbind (ok_or [Lit ''each MCP environment entry must have a string value'']
              (Option.bind (map_of object ''value'') as_str)) (\<lambda>value.
     rbind (validate_client_environment_name name) (\<lambda>_.
       if map_of parsed name \<noteq> None
       then Inl [Lit ''MCP environment contains a duplicate variable name'']
       else Inr (btree_insert name value parsed)))))"

definition parse_object_entry :: "string btree \<Rightarrow> string \<times> json \<Rightarrow> message + string btree" where
  "parse_object_entry parsed entry =
     (case entry of (name, value) \<Rightarrow>
        rbind (validate_client_environment_name name) (\<lambda>_.
        rbind (ok_or [Lit ''each MCP environment value must be a string''] (as_str value)) (\<lambda>value.
          Inr (btree_insert name value parsed))))"

definition parse_client_environment :: "json option \<Rightarrow> message + string btree" where
  "parse_client_environment incoming =
     (case incoming of
        None \<Rightarrow> Inr []
      | Some (JArray entries) \<Rightarrow> try_fold parse_array_entry [] entries
      | Some (JObject entries) \<Rightarrow> try_fold parse_object_entry [] entries
      | Some _ \<Rightarrow> Inl [Lit ''MCP server env must be an object or an array''])"

definition merge_mcp_environment ::
    "string btree \<Rightarrow> string list \<Rightarrow> json option \<Rightarrow> message + string btree" where
  "merge_mcp_environment server_environment client_allowlist incoming =
     rbind (parse_client_environment incoming) (\<lambda>client_environment.
       Inr (fold (\<lambda>(name, value) m. if name \<in> set client_allowlist then btree_or_insert name value m else m)
              client_environment server_environment))"

definition configured_mcp ::
    "(mcp_stdio \<Rightarrow> json_error + json) \<Rightarrow> string \<Rightarrow> mcp_server_config \<Rightarrow> string btree \<Rightarrow> json_error + json" where
  "configured_mcp stdio name configured environment =
     stdio \<lparr>ms_name = name, ms_command = mc_command configured, ms_args = mc_args configured,
            ms_env = environment\<rparr>"

section \<open>Editing a request\<close>

definition replace_server ::
    "policy_env \<Rightarrow> mcp_server_config btree \<Rightarrow> json list \<Rightarrow> json \<Rightarrow> message + json list" where
  "replace_server pe servers replacements server =
     rbind (ok_or [Lit ''each MCP server must have a string name'']
              (Option.bind (value_get ''name'' server) as_str)) (\<lambda>name.
     rbind (ok_or [Lit ''MCP server '', Dbg name, Lit '' is not allowlisted''] (map_of servers name)) (\<lambda>configured.
     rbind (merge_mcp_environment (selected_mcp_environment (pe_host pe) configured)
              (mc_client_env_allowlist configured) (value_get ''env'' server)) (\<lambda>environment.
     rbind (map_err (\<lambda>e. [Lit ''cannot construct MCP server '', Dbg name, Lit '': '', JsonText e])
              (configured_mcp (pe_stdio pe) name configured environment)) (\<lambda>value.
       Inr (replacements @ [value])))))"

definition apply_mcp :: "policy_env \<Rightarrow> acp_policy \<Rightarrow> jmap \<Rightarrow> message + jmap" where
  "apply_mcp pe self params =
     (case pol_mcp_policy self of
        Passthrough \<Rightarrow> Inr params
      | Deny \<Rightarrow> Inr (jmap_insert ''mcpServers'' (JArray []) params)
      | Allowlisted \<Rightarrow>
          (case map_of params ''mcpServers'' of
             None \<Rightarrow> Inr params
           | Some incoming \<Rightarrow>
               rbind (ok_or [Lit ''params.mcpServers must be an array''] (as_array incoming)) (\<lambda>servers.
               rbind (try_fold (replace_server pe (pol_mcp_servers self)) [] servers) (\<lambda>replacements.
                 Inr (jmap_insert ''mcpServers'' (JArray replacements) params)))))"

definition json_rpc_error :: "policy_env \<Rightarrow> json \<Rightarrow> int \<Rightarrow> message \<Rightarrow> string" where
  "json_rpc_error pe ident code message =
     sj_to_string (pe_serde pe)
       (JObject [(''jsonrpc'', JString ''2.0''), (''id'', ident),
          (''error'', JObject [(''code'', enc_int code),
                              (''message'', JString (render (pe_format pe) message))])])"

definition edit_request :: "policy_env \<Rightarrow> acp_policy \<Rightarrow> string \<Rightarrow> json \<Rightarrow> error + policy_outcome" where
  "edit_request pe self method document =
     (case as_object document of
        None \<Rightarrow> Inl (Policy [Lit ''lifecycle JSON-RPC request must be an object''])
      | Some root0 \<Rightarrow>
          let root = (if map_of root0 ''params'' = None then jmap_insert ''params'' (JObject []) root0 else root0)
          in (case Option.bind (map_of root ''params'') as_object of
                None \<Rightarrow> Inl (Policy [Lit ''lifecycle JSON-RPC params must be an object''])
              | Some params0 \<Rightarrow>
                  let params = (if pol_rewrite_cwd self
                                then jmap_insert ''cwd'' (JString (pol_workspace_path self)) params0
                                else params0)
                  in (case (if method = SESSION_NEW_METHOD then apply_mcp pe self params else Inr params) of
                        Inl message \<Rightarrow>
                          Inr (Reject (json_rpc_error pe
                            (case map_of root ''id'' of None \<Rightarrow> JNull | Some v \<Rightarrow> v) (- 32001) message))
                      | Inr edited \<Rightarrow>
                          Inr (Forward (sj_to_string (pe_serde pe)
                            (JObject (jmap_insert ''params'' (JObject edited) root)))))))"

definition policy_apply :: "policy_env \<Rightarrow> acp_policy \<Rightarrow> string \<Rightarrow> error + policy_outcome" where
  "policy_apply pe self line =
     (case sniff_method (pe_serde pe) line of
        None \<Rightarrow> Inr (Forward line)
      | Some method \<Rightarrow>
          if method \<notin> set LIFECYCLE_METHODS then Inr (Forward line)
          else if \<not> pol_rewrite_cwd self \<and> (method \<noteq> SESSION_NEW_METHOD \<or> pol_mcp_policy self = Passthrough)
          then Inr (Forward line)
          else rbind (map_err (\<lambda>e. Policy [Lit ''invalid lifecycle JSON-RPC request: '', JsonText e])
                        (sj_value (pe_serde pe) line)) (\<lambda>document. edit_request pe self method document))"

section \<open>Lines that are not edited\<close>

lemma sniff_method_None:
  "is_ok (rbind (sj_syntax sj line) method_only) = False \<Longrightarrow> sniff_method sj line = None"
  by (auto simp: sniff_method_def is_ok_def split: sum.splits)

lemma policy_apply_not_sniffed:
  "sniff_method (pe_serde pe) line = None \<Longrightarrow> policy_apply pe self line = Inr (Forward line)"
  by (simp add: policy_apply_def)

section \<open>Merging client environments\<close>

lemma validate_client_environment_name_ok [simp]:
  "validate_client_environment_name n = Inr u \<longleftrightarrow> env_name_ok n"
  by (simp add: validate_client_environment_name_def)

lemma map_of_fold_allowlisted:
  "map_of (fold (\<lambda>(name, value) m. if name \<in> set allow then btree_or_insert name value m else m) kvs m) x
   = (case map_of m x of
        Some v \<Rightarrow> Some v
      | None \<Rightarrow> if x \<in> set allow then map_of kvs x else None)"
  by (induction kvs arbitrary: m)
     (auto simp: map_of_btree_or_insert split: option.splits if_splits)

lemma map_of_merge_mcp_environment:
  assumes "merge_mcp_environment server allow incoming = Inr merged"
    and "parse_client_environment incoming = Inr client"
  shows "map_of merged x = (case map_of server x of
           Some v \<Rightarrow> Some v
         | None \<Rightarrow> if x \<in> set allow then map_of client x else None)"
  using assms by (auto simp: merge_mcp_environment_def map_of_fold_allowlisted)

lemma merge_mcp_environment_sources:
  assumes "merge_mcp_environment server allow incoming = Inr merged" and "map_of merged x = Some v"
  shows "map_of server x = Some v \<or> (map_of server x = None \<and> x \<in> set allow)"
proof -
  from assms(1) obtain client where c: "parse_client_environment incoming = Inr client"
    by (auto simp: merge_mcp_environment_def rbind_Inr_iff)
  from map_of_merge_mcp_environment [OF assms(1) c, of x] assms(2) show ?thesis
    by (auto split: option.splits if_splits)
qed

section \<open>Replaced MCP servers\<close>

text \<open>A definition that carries only what the server configured, plus allowlisted variables.\<close>

definition server_owned :: "policy_env \<Rightarrow> mcp_server_config btree \<Rightarrow> json \<Rightarrow> bool" where
  "server_owned pe servers value \<longleftrightarrow>
     (\<exists>name configured environment.
        map_of servers name = Some configured \<and>
        pe_stdio pe \<lparr>ms_name = name, ms_command = mc_command configured,
          ms_args = mc_args configured, ms_env = environment\<rparr> = Inr value \<and>
        (\<forall>x v. map_of environment x = Some v \<longrightarrow>
           map_of (selected_mcp_environment (pe_host pe) configured) x = Some v \<or>
           (map_of (selected_mcp_environment (pe_host pe) configured) x = None \<and>
            x \<in> set (mc_client_env_allowlist configured))))"

lemma replace_server_owned:
  assumes "replace_server pe servers acc server = Inr acc'"
  shows "\<exists>value. acc' = acc @ [value] \<and> server_owned pe servers value"
proof -
  from assms obtain name configured environment out where
    "map_of servers name = Some configured"
    "merge_mcp_environment (selected_mcp_environment (pe_host pe) configured)
       (mc_client_env_allowlist configured) (value_get ''env'' server) = Inr environment"
    "pe_stdio pe \<lparr>ms_name = name, ms_command = mc_command configured,
       ms_args = mc_args configured, ms_env = environment\<rparr> = Inr out"
    "acc' = acc @ [out]"
    by (auto simp: replace_server_def configured_mcp_def rbind_Inr_iff)
  then show ?thesis
    unfolding server_owned_def using merge_mcp_environment_sources by blast
qed

lemma replace_servers_owned:
  assumes "try_fold (replace_server pe servers) acc vs = Inr acc'"
    and "\<forall>v\<in>set acc. server_owned pe servers v"
  shows "\<forall>v\<in>set acc'. server_owned pe servers v"
  using assms
  by (rule try_fold_invariant) (auto dest!: replace_server_owned)

lemma apply_mcp_allowlisted:
  assumes "apply_mcp pe self params = Inr params'" and "pol_mcp_policy self = Allowlisted"
  shows "(map_of params ''mcpServers'' = None \<and> params' = params) \<or>
         (\<exists>vs. map_of params' ''mcpServers'' = Some (JArray vs) \<and>
               (\<forall>v\<in>set vs. server_owned pe (pol_mcp_servers self) v))"
  using assms
  by (auto simp: apply_mcp_def rbind_Inr_iff map_of_jmap_insert
      dest: replace_servers_owned split: option.splits)

lemma apply_mcp_deny:
  "apply_mcp pe self params = Inr params' \<Longrightarrow> pol_mcp_policy self = Deny
   \<Longrightarrow> map_of params' ''mcpServers'' = Some (JArray [])"
  by (auto simp: apply_mcp_def map_of_jmap_insert)

lemma apply_mcp_frame:
  "apply_mcp pe self params = Inr params' \<Longrightarrow> k \<noteq> ''mcpServers'' \<Longrightarrow> map_of params' k = map_of params k"
  by (auto simp: apply_mcp_def rbind_Inr_iff map_of_jmap_insert split: mcp_policy.splits option.splits)

text \<open>The edited request: which document is printed.\<close>

lemma edit_request_Forward:
  assumes "edit_request pe self method document = Inr (Forward out)"
  obtains root0 params0 params edited where
    "document = JObject root0"
    "params0 = (case map_of root0 ''params'' of Some (JObject p) \<Rightarrow> p | _ \<Rightarrow> [])"
    "params = (if pol_rewrite_cwd self
               then jmap_insert ''cwd'' (JString (pol_workspace_path self)) params0 else params0)"
    "(if method = SESSION_NEW_METHOD then apply_mcp pe self params else Inr params) = Inr edited"
    "out = sj_to_string (pe_serde pe) (JObject (jmap_insert ''params'' (JObject edited)
        (if map_of root0 ''params'' = None then jmap_insert ''params'' (JObject []) root0 else root0)))"
proof (cases "as_object document")
  case None
  with assms show ?thesis by (simp add: edit_request_def)
next
  case (Some root0)
  then have doc: "document = JObject root0" by (simp add: as_object_Some_iff)
  show ?thesis
  proof (cases "map_of root0 ''params''")
    case None
    with assms doc that [of root0 "[]"] show ?thesis
      by (auto simp: edit_request_def Let_def map_of_jmap_insert split: sum.splits if_splits)
  next
    case (Some p)
    with assms doc that [of root0 "case p of JObject q \<Rightarrow> q | _ \<Rightarrow> []"] show ?thesis
      by (cases p) (auto simp: edit_request_def Let_def split: sum.splits if_splits)
  qed
qed

section \<open>Properties\<close>

text \<open>
  A line that is not one of the three lifecycle requests, or is one that no setting applies
  to, goes to the agent byte for byte.
\<close>

theorem policy_passthrough:
  assumes "\<forall>m. sniff_method (pe_serde pe) line = Some m \<longrightarrow>
      m \<notin> set LIFECYCLE_METHODS \<or>
      \<not> pol_rewrite_cwd self \<and> (m \<noteq> SESSION_NEW_METHOD \<or> pol_mcp_policy self = Passthrough)"
  shows "policy_apply pe self line = Inr (Forward line)"
  using assms by (auto simp: policy_apply_def split: option.splits)

definition example_policy_env :: "json \<Rightarrow> policy_env" where
  "example_policy_env v = \<lparr>pe_serde = example_serde v, pe_host = (\<lambda>_. None),
     pe_stdio = (\<lambda>d. Inr (JObject [(''name'', JString (ms_name d)), (''command'', JString (ms_command d))])),
     pe_format = \<lparr>fmt_debug = id, fmt_debug_code = (\<lambda>_. []), fmt_json = (\<lambda>_. [])\<rparr>\<rparr>"

definition example_policy :: "mcp_policy \<Rightarrow> acp_policy" where
  "example_policy mcp = \<lparr>pol_workspace_path = ''/srv/main'', pol_rewrite_cwd = True, pol_mcp_policy = mcp,
     pol_mcp_servers = [(''files'', \<lparr>mc_command = ''/usr/bin/files'', mc_args = [], mc_pass_env = [],
       mc_env = [], mc_client_env_allowlist = []\<rparr>)]\<rparr>"

theorem policy_passthrough_witness:
  "policy_apply (example_policy_env (JObject [(''method'', JString ''session/prompt'')]))
     (example_policy Deny) ''text'' = Inr (Forward ''text'')"
  by (rule policy_passthrough)
     (simp add: sniff_method_def example_policy_env_def example_serde_def field_simps_json dec_option_def
       LIFECYCLE_METHODS_def SESSION_NEW_METHOD_def)

text \<open>What a forwarded lifecycle request looks like: the parsed document with only its parameters edited.\<close>

definition edited_request :: "acp_policy \<Rightarrow> json \<Rightarrow> jmap \<Rightarrow> jmap \<Rightarrow> bool" where
  "edited_request self document root params \<longleftrightarrow>
     (\<exists>root0 params0. document = JObject root0 \<and>
        params0 = (case map_of root0 ''params'' of Some (JObject p) \<Rightarrow> p | _ \<Rightarrow> []) \<and>
        map_of root ''params'' = Some (JObject params) \<and>
        (\<forall>k. k \<noteq> ''params'' \<longrightarrow> map_of root k = map_of root0 k) \<and>
        (pol_rewrite_cwd self \<longrightarrow> map_of params ''cwd'' = Some (JString (pol_workspace_path self))) \<and>
        (\<forall>k. k \<noteq> ''mcpServers'' \<and> (k = ''cwd'' \<longrightarrow> \<not> pol_rewrite_cwd self) \<longrightarrow>
           map_of params k = map_of params0 k))"

lemma edited_requestI:
  assumes "(if method = SESSION_NEW_METHOD then apply_mcp pe self params else Inr params) = Inr edited"
    and "params = (if pol_rewrite_cwd self
      then jmap_insert ''cwd'' (JString (pol_workspace_path self)) params0 else params0)"
    and "params0 = (case map_of root0 ''params'' of Some (JObject p) \<Rightarrow> p | _ \<Rightarrow> [])"
  shows "edited_request self (JObject root0) (jmap_insert ''params'' (JObject edited)
    (if map_of root0 ''params'' = None then jmap_insert ''params'' (JObject []) root0 else root0)) edited"
proof -
  have frame: "k \<noteq> ''mcpServers'' \<Longrightarrow> map_of edited k = map_of params k" for k
    using assms(1) by (auto split: if_splits dest: apply_mcp_frame)
  show ?thesis
    unfolding edited_request_def
    using frame assms(2,3) by (auto simp: map_of_jmap_insert)
qed

lemma session_new_forwarded:
  assumes "policy_apply pe self line = Inr (Forward out)"
    and "sniff_method (pe_serde pe) line = Some ''session/new''" and "pol_mcp_policy self \<noteq> Passthrough"
  obtains request root params edited where "sj_value (pe_serde pe) line = Inr request"
    and "out = sj_to_string (pe_serde pe) (JObject root)" and "edited_request self request root edited"
    and "apply_mcp pe self params = Inr edited"
proof -
  from assms obtain request where doc: "sj_value (pe_serde pe) line = Inr request"
    and edit: "edit_request pe self ''session/new'' request = Inr (Forward out)"
    by (auto simp: policy_apply_def LIFECYCLE_METHODS_def SESSION_NEW_METHOD_def rbind_Inr_iff)
  from edit obtain root0 params0 params edited where d: "request = JObject root0"
    and p: "params0 = (case map_of root0 ''params'' of Some (JObject p) \<Rightarrow> p | _ \<Rightarrow> [])"
      "params = (if pol_rewrite_cwd self
         then jmap_insert ''cwd'' (JString (pol_workspace_path self)) params0 else params0)"
      "(if ''session/new'' = SESSION_NEW_METHOD then apply_mcp pe self params else Inr params) = Inr edited"
    and out: "out = sj_to_string (pe_serde pe) (JObject (jmap_insert ''params'' (JObject edited)
        (if map_of root0 ''params'' = None then jmap_insert ''params'' (JObject []) root0 else root0)))"
    by (rule edit_request_Forward)
  have "apply_mcp pe self params = Inr edited" using p(3) by (simp add: SESSION_NEW_METHOD_def)
  with doc out edited_requestI [OF p(3,2,1)] d show ?thesis by (intro that) auto
qed

text \<open>
  With MCP denied, a \<open>session/new\<close> request that is forwarded carries no MCP server; with the
  rewrite on, its working directory is the configured workspace; every other member of the
  request and of its parameters is as the client sent it.
\<close>

theorem policy_deny_strips_servers:
  assumes "policy_apply pe self line = Inr (Forward out)"
    and "sniff_method (pe_serde pe) line = Some ''session/new''" and "pol_mcp_policy self = Deny"
  shows "\<exists>request root params. sj_value (pe_serde pe) line = Inr request \<and>
    out = sj_to_string (pe_serde pe) (JObject root) \<and> edited_request self request root params \<and>
    map_of params ''mcpServers'' = Some (JArray [])"
proof -
  from assms obtain request root params edited where r: "sj_value (pe_serde pe) line = Inr request"
    "out = sj_to_string (pe_serde pe) (JObject root)" "edited_request self request root edited"
    and mcp: "apply_mcp pe self params = Inr edited"
    by (metis session_new_forwarded mcp_policy.distinct(3))
  have "map_of edited ''mcpServers'' = Some (JArray [])"
    using mcp assms(3) by (rule apply_mcp_deny)
  with r show ?thesis by blast
qed

theorem policy_deny_strips_servers_witness:
  "let v = JObject [(''method'', JString ''session/new''),
         (''params'', JObject [(''mcpServers'', JArray [JNull]), (''x'', JBool True)])];
       pe = example_policy_env v; self = example_policy Deny
   in \<exists>request root params. sj_value (pe_serde pe) ''text'' = Inr request \<and>
        ''other'' = sj_to_string (pe_serde pe) (JObject root) \<and> edited_request self request root params \<and>
        map_of params ''mcpServers'' = Some (JArray [])"
  unfolding Let_def
  by (rule policy_deny_strips_servers)
     (simp_all add: policy_apply_def sniff_method_def example_policy_env_def example_serde_def
       example_policy_def field_simps_json dec_option_def LIFECYCLE_METHODS_def SESSION_NEW_METHOD_def
       edit_request_def Let_def apply_mcp_def)

text \<open>
  C18. With the allowlist policy, every MCP server of a forwarded \<open>session/new\<close> request is one the
  operator configured: its command and arguments come from the configuration and each of its
  environment variables has the server's value or is on that server's allowlist for clients.
\<close>

theorem policy_allowlist_server_owned:
  assumes "policy_apply pe self line = Inr (Forward out)"
    and "sniff_method (pe_serde pe) line = Some ''session/new''" and "pol_mcp_policy self = Allowlisted"
  shows "\<exists>request root params. sj_value (pe_serde pe) line = Inr request \<and>
    out = sj_to_string (pe_serde pe) (JObject root) \<and> edited_request self request root params \<and>
    (map_of params ''mcpServers'' = None \<or>
     (\<exists>vs. map_of params ''mcpServers'' = Some (JArray vs) \<and>
        (\<forall>v\<in>set vs. server_owned pe (pol_mcp_servers self) v)))"
proof -
  from assms obtain request root params edited where r: "sj_value (pe_serde pe) line = Inr request"
    "out = sj_to_string (pe_serde pe) (JObject root)" "edited_request self request root edited"
    and mcp: "apply_mcp pe self params = Inr edited"
    by (metis session_new_forwarded mcp_policy.distinct(5))
  have "map_of edited ''mcpServers'' = None \<or>
     (\<exists>vs. map_of edited ''mcpServers'' = Some (JArray vs) \<and>
        (\<forall>v\<in>set vs. server_owned pe (pol_mcp_servers self) v))"
    using apply_mcp_allowlisted [OF mcp assms(3)] by auto
  with r show ?thesis by blast
qed

theorem policy_allowlist_server_owned_witness:
  "let v = JObject [(''method'', JString ''session/new''),
         (''params'', JObject [(''mcpServers'', JArray [JObject [(''name'', JString ''files''),
            (''command'', JString ''/bin/sh'')]])])];
       pe = example_policy_env v; self = example_policy Allowlisted
   in \<exists>request root params. sj_value (pe_serde pe) ''text'' = Inr request \<and>
        ''other'' = sj_to_string (pe_serde pe) (JObject root) \<and> edited_request self request root params \<and>
        (map_of params ''mcpServers'' = None \<or>
         (\<exists>vs. map_of params ''mcpServers'' = Some (JArray vs) \<and>
            (\<forall>v\<in>set vs. server_owned pe (pol_mcp_servers self) v)))"
  unfolding Let_def
  by (rule policy_allowlist_server_owned)
     (simp_all add: policy_apply_def sniff_method_def example_policy_env_def example_serde_def
       example_policy_def field_simps_json dec_option_def LIFECYCLE_METHODS_def SESSION_NEW_METHOD_def
       edit_request_def Let_def apply_mcp_def replace_server_def merge_mcp_environment_def
       parse_client_environment_def selected_mcp_environment_def selected_environment_def
       btree_extend_def configured_mcp_def)

text \<open>
  A rejection answers the request it rejects: it is a JSON-RPC error with code -32001 that
  carries the \<open>id\<close> of the request, or null when it has none; only \<open>session/new\<close> under the allowlist
  policy is ever rejected.
\<close>

theorem policy_reject_correlated:
  assumes "policy_apply pe self line = Inr (Reject out)"
  shows "\<exists>root0 message. sj_value (pe_serde pe) line = Inr (JObject root0) \<and>
    out = json_rpc_error pe (case map_of root0 ''id'' of None \<Rightarrow> JNull | Some v \<Rightarrow> v) (- 32001) message \<and>
    sniff_method (pe_serde pe) line = Some ''session/new'' \<and> pol_mcp_policy self = Allowlisted"
proof -
  from assms obtain name request where m: "sniff_method (pe_serde pe) line = Some name"
    and doc: "sj_value (pe_serde pe) line = Inr request"
    and edit: "edit_request pe self name request = Inr (Reject out)"
    by (auto simp: policy_apply_def rbind_Inr_iff split: option.splits if_splits)
  from edit obtain root0 params message where d: "request = JObject root0"
    and new: "name = SESSION_NEW_METHOD" and err: "apply_mcp pe self params = Inl message"
    and out: "out = json_rpc_error pe (case map_of (if map_of root0 ''params'' = None
        then jmap_insert ''params'' (JObject []) root0 else root0) ''id'' of None \<Rightarrow> JNull | Some v \<Rightarrow> v)
        (- 32001) message"
    by (auto simp: edit_request_def Let_def as_object_Some_iff split: option.splits if_splits sum.splits)
  have "pol_mcp_policy self = Allowlisted"
    using err by (cases "pol_mcp_policy self") (auto simp: apply_mcp_def)
  with m doc d new out show ?thesis
    by (auto simp: SESSION_NEW_METHOD_def map_of_jmap_insert split: if_splits)
qed

theorem policy_reject_correlated_witness:
  "let v = JObject [(''id'', JNumber (PosInt 9)), (''method'', JString ''session/new''),
         (''params'', JObject [(''mcpServers'', JNull)])];
       pe = example_policy_env v; self = example_policy Allowlisted
   in \<exists>root0 message. sj_value (pe_serde pe) ''text'' = Inr (JObject root0) \<and>
        ''other'' = json_rpc_error pe (case map_of root0 ''id'' of None \<Rightarrow> JNull | Some v \<Rightarrow> v) (- 32001) message \<and>
        sniff_method (pe_serde pe) ''text'' = Some ''session/new'' \<and> pol_mcp_policy self = Allowlisted"
  unfolding Let_def
  by (rule policy_reject_correlated)
     (simp add: policy_apply_def sniff_method_def example_policy_env_def example_serde_def
       example_policy_def field_simps_json dec_option_def LIFECYCLE_METHODS_def SESSION_NEW_METHOD_def
       edit_request_def Let_def apply_mcp_def json_rpc_error_def)

text \<open>A repeated member is refused by a derived struct; in a \<open>Value\<close> the last one stays.\<close>

lemma field_opt_repeated:
  assumes "2 \<le> length (filter (\<lambda>kv. fst kv = k) m)"
  shows "field_opt k m = Inl (DuplicateField k)"
  using assms
  by (cases "filter (\<lambda>kv. fst kv = k) m" rule: remdups_adj.cases) (simp_all add: field_opt_def)

lemma map_of_fold_jmap_insert:
  "map_of (fold (\<lambda>(k, v). jmap_insert k v) m acc) k =
     (if filter (\<lambda>kv. fst kv = k) m = [] then map_of acc k
      else Some (snd (last (filter (\<lambda>kv. fst kv = k) m))))"
  by (induction m arbitrary: acc) (auto simp: map_of_jmap_insert)

lemma norm_last_member:
  assumes "filter (\<lambda>kv. fst kv = k) m \<noteq> []"
  shows "\<exists>root. norm (JObject m) = JObject root \<and>
    map_of root k = Some (norm (snd (last (filter (\<lambda>kv. fst kv = k) m))))"
proof -
  have "filter (\<lambda>kv. fst kv = k) (map (map_prod id norm) m) =
      map (map_prod id norm) (filter (\<lambda>kv. fst kv = k) m)"
    by (simp add: filter_map o_def)
  with assms show ?thesis by (simp add: map_of_fold_jmap_insert last_map)
qed

text \<open>
  C31. Every request whose object has the member \<open>method\<close> more than once escapes the policy, whatever the values of
  these members, the other members and the policy are: the sniffing deserialiser refuses the duplicate, so the line is
  forwarded unchanged. A reader that takes the last member (as \<open>serde_json::Value\<close> does) sees
  its value as the method.
\<close>

theorem policy_duplicate_method_bypass:
  assumes "sj_syntax (pe_serde pe) line = Inr (JObject m)"
    and "2 \<le> length (filter (\<lambda>kv. fst kv = ''method'') m)"
    and "last (filter (\<lambda>kv. fst kv = ''method'') m) = (''method'', JString method)"
  shows "policy_apply pe self line = Inr (Forward line) \<and>
    (\<exists>root. norm (JObject m) = JObject root \<and> map_of root ''method'' = Some (JString method))"
proof
  have "sniff_method (pe_serde pe) line = None"
    by (simp add: sniff_method_def assms(1) defaulted_def field_opt_repeated [OF assms(2)] rbind_def)
  then show "policy_apply pe self line = Inr (Forward line)" by (rule policy_apply_not_sniffed)
  show "\<exists>root. norm (JObject m) = JObject root \<and> map_of root ''method'' = Some (JString method)"
  proof -
    have "filter (\<lambda>kv. fst kv = ''method'') m \<noteq> []" using assms(2) by (metis list.size(3) not_numeral_le_zero)
    from norm_last_member [OF this] show ?thesis by (simp add: assms(3))
  qed
qed

text \<open>The witness: a complete JSON-RPC request for a new session with an MCP server, under the strictest policy.\<close>

theorem policy_duplicate_method_bypass_witness:
  "let m = [(''jsonrpc'', JString ''2.0''), (''id'', JNumber (PosInt 7)), (''method'', JString ''session/new''),
         (''params'', JObject [(''cwd'', JString ''/''),
            (''mcpServers'', JArray [JObject [(''command'', JString ''/bin/sh'')]])]),
         (''method'', JString ''session/new'')]
   in policy_apply (example_policy_env (JObject m)) (example_policy Deny) ''text'' = Inr (Forward ''text'') \<and>
      (\<exists>root. norm (JObject m) = JObject root \<and> map_of root ''method'' = Some (JString ''session/new''))"
  unfolding Let_def
  by (rule policy_duplicate_method_bypass)
     (simp_all add: example_policy_env_def example_serde_def)

end
