(* ===== verification/Acp_Reap.thy ===== *)
theory Acp_Reap
  imports Acp_Process
begin

text \<open>
  \<^verbatim>\<open>process.rs\<close>, the shutdown of an agent on Unix: signals to the process group, the
  wait for the direct child and the cleanup of what is left of the group. The operating
  system answers through \<open>os_answers\<close>; an operation returns the trace of its requests
  and its result, where \<open>None\<close> means that the polling loop has used up the answers it
  was given and is still running.
\<close>

section \<open>The answers of the operating system\<close>

record exit_status =
  es_code :: "i32 option"
  es_signal :: "i32 option"

definition success :: "exit_status \<Rightarrow> bool" where
  "success status \<longleftrightarrow> es_code status = Some 0"

definition exit_details :: "exit_status \<Rightarrow> i32 option \<times> i32 option" where
  "exit_details status = (es_code status, es_signal status)"

datatype kill_result = KillOk | KillEsrch | KillEperm | KillOther string

datatype wait_result = Elapsed | Waited "string + exit_status"

datatype os_action = TryWait | WaitChild nat | SignalGroup bool | ProbeGroup

record os_answers =
  oa_try_wait :: "string + exit_status option"
  oa_graceful_wait :: wait_result
  oa_terminate :: kill_result
  oa_terminate_wait :: wait_result
  oa_force :: kill_result
  oa_force_wait :: wait_result
  oa_remaining :: kill_result                  \<comment> \<open>first probe of the group\<close>
  oa_cleanup_terminate :: kill_result
  oa_polls :: "(kill_result \<times> nat) list"       \<comment> \<open>each later probe, with the clock after it\<close>
  oa_cleanup_start :: nat                       \<comment> \<open>the clock when polling starts\<close>
  oa_cleanup_force :: kill_result

type_synonym 'a os = "os_action list \<times> (error + 'a) option"

definition os_return :: "error + 'a \<Rightarrow> 'a os" where
  "os_return r = ([], Some r)"

definition os_bind :: "'a os \<Rightarrow> ('a \<Rightarrow> 'b os) \<Rightarrow> 'b os" where
  "os_bind m f =
     (case m of (t, r) \<Rightarrow>
        (case r of
           None \<Rightarrow> (t, None)
         | Some (Inl e) \<Rightarrow> (t, Some (Inl e))
         | Some (Inr x) \<Rightarrow> (case f x of (t', r') \<Rightarrow> (t @ t', r'))))"

definition os_act :: "os_action \<Rightarrow> error + 'a \<Rightarrow> 'a os" where
  "os_act a r = ([a], Some r)"

lemma os_bind_simps [simp]:
  "os_bind (t, None) f = (t, None)"
  "os_bind (t, Some (Inl e)) f = (t, Some (Inl e))"
  "os_bind (t, Some (Inr x)) f = (t @ fst (f x), snd (f x))"
  by (simp_all add: os_bind_def split: prod.splits)

section \<open>Signals\<close>

definition pid_in_range :: "nat \<Rightarrow> error + unit" where
  "pid_in_range pid = (if pid \<le> 2147483647 then Inr ()
     else Inl (Process [Lit ''agent process ID is outside the platform range'']))"

definition process_group_exists :: "nat \<Rightarrow> kill_result \<Rightarrow> error + bool" where
  "process_group_exists pid answer =
     rbind (pid_in_range pid) (\<lambda>_.
       case answer of
         KillOk \<Rightarrow> Inr True
       | KillEperm \<Rightarrow> Inr True
       | KillEsrch \<Rightarrow> Inr False
       | KillOther e \<Rightarrow> Inl (Process [Lit ''cannot inspect agent process group: '', Disp e]))"

definition signal_group :: "nat \<Rightarrow> bool \<Rightarrow> kill_result \<Rightarrow> error + unit" where
  "signal_group pid force answer =
     rbind (pid_in_range pid) (\<lambda>_.
       case answer of
         KillOk \<Rightarrow> Inr ()
       | KillEsrch \<Rightarrow> Inr ()
       | KillEperm \<Rightarrow> Inl (Process [Lit ''cannot signal agent process group: '', Lit ''EPERM''])
       | KillOther e \<Rightarrow> Inl (Process [Lit ''cannot signal agent process group: '', Disp e]))"

definition terminate_group :: "nat \<Rightarrow> bool \<Rightarrow> kill_result \<Rightarrow> unit os" where
  "terminate_group pid force answer = os_act (SignalGroup force) (signal_group pid force answer)"

text \<open>The clock, in milliseconds, does not go back, and the pause after a probe lasts 25 ms.\<close>

fun wait_for_process_group_exit :: "nat \<Rightarrow> nat \<Rightarrow> nat \<Rightarrow> (kill_result \<times> nat) list \<Rightarrow> bool os" where
  "wait_for_process_group_exit pid deadline earliest [] = ([], None)"
| "wait_for_process_group_exit pid deadline earliest ((answer, now) # polls) =
     (case process_group_exists pid answer of
        Inl e \<Rightarrow> ([ProbeGroup], Some (Inl e))
      | Inr False \<Rightarrow> ([ProbeGroup], Some (Inr True))
      | Inr True \<Rightarrow>
          if deadline \<le> max earliest now then ([ProbeGroup], Some (Inr False))
          else (case wait_for_process_group_exit pid deadline (max earliest now + 25) polls of
                  (t, r) \<Rightarrow> (ProbeGroup # t, r)))"

definition cleanup_remaining_group :: "os_answers \<Rightarrow> nat \<Rightarrow> nat \<Rightarrow> unit os" where
  "cleanup_remaining_group os pid timeout =
     os_bind (os_act ProbeGroup (process_group_exists pid (oa_remaining os))) (\<lambda>exists.
       if \<not> exists then os_return (Inr ())
       else os_bind (terminate_group pid False (oa_cleanup_terminate os)) (\<lambda>_.
            os_bind (wait_for_process_group_exit pid (oa_cleanup_start os + timeout) (oa_cleanup_start os)
                       (oa_polls os)) (\<lambda>gone.
              if gone then os_return (Inr ())
              else terminate_group pid True (oa_cleanup_force os))))"

section \<open>Terminating and reaping\<close>

definition try_wait :: "os_answers \<Rightarrow> exit_status option os" where
  "try_wait os = os_act TryWait
     (map_err (\<lambda>e. Process [Lit ''cannot inspect agent status: '', Disp e]) (oa_try_wait os))"

text \<open>The last step of both operations: force, wait, and give up after the timeout.\<close>

definition force_and_reap :: "os_answers \<Rightarrow> nat \<Rightarrow> nat \<Rightarrow> exit_status os" where
  "force_and_reap os pid timeout =
     os_bind (terminate_group pid True (oa_force os)) (\<lambda>_.
       os_act (WaitChild timeout)
         (case oa_force_wait os of
            Elapsed \<Rightarrow> Inl (Timeout ''force-killing remote agent'')
          | Waited r \<Rightarrow> map_err (\<lambda>e. Process [Lit ''cannot reap force-killed agent: '', Disp e]) r))"

definition terminate_and_reap :: "os_answers \<Rightarrow> nat \<Rightarrow> nat \<Rightarrow> exit_status os" where
  "terminate_and_reap os pid timeout =
     os_bind (try_wait os) (\<lambda>exited.
       case exited of
         Some status \<Rightarrow> os_return (Inr status)
       | None \<Rightarrow>
           os_bind (terminate_group pid False (oa_terminate os)) (\<lambda>_.
             case oa_terminate_wait os of
               Waited r \<Rightarrow>
                 os_bind (os_act (WaitChild timeout)
                   (map_err (\<lambda>e. Process [Lit ''cannot reap agent after termination: '', Disp e]) r))
                   (\<lambda>status. os_bind (cleanup_remaining_group os pid timeout) (\<lambda>_. os_return (Inr status)))
             | Elapsed \<Rightarrow>
                 os_bind (os_act (WaitChild timeout) (Inr ())) (\<lambda>_. force_and_reap os pid timeout)))"

definition graceful_shutdown_and_reap :: "os_answers \<Rightarrow> nat \<Rightarrow> nat \<Rightarrow> nat \<Rightarrow> exit_status os" where
  "graceful_shutdown_and_reap os pid graceful_timeout timeout =
     os_bind (try_wait os) (\<lambda>exited.
       case exited of
         Some status \<Rightarrow>
           os_bind (cleanup_remaining_group os pid timeout) (\<lambda>_. os_return (Inr status))
       | None \<Rightarrow>
           (case oa_graceful_wait os of
              Waited r \<Rightarrow>
                os_bind (os_act (WaitChild graceful_timeout)
                  (map_err (\<lambda>e. Process [Lit ''cannot reap agent after stdin closure: '', Disp e]) r))
                  (\<lambda>status. os_bind (cleanup_remaining_group os pid timeout) (\<lambda>_. os_return (Inr status)))
            | Elapsed \<Rightarrow>
                os_bind (os_act (WaitChild graceful_timeout) (Inr ())) (\<lambda>_.
                os_bind (terminate_group pid False (oa_terminate os)) (\<lambda>_.
                  case oa_terminate_wait os of
                    Waited r \<Rightarrow>
                      os_act (WaitChild timeout)
                        (map_err (\<lambda>e. Process [Lit ''cannot reap agent after termination: '', Disp e]) r)
                  | Elapsed \<Rightarrow>
                      os_bind (os_act (WaitChild timeout) (Inr ())) (\<lambda>_. force_and_reap os pid timeout)))))"

section \<open>The polling loop ends\<close>

lemma wait_for_process_group_exit_returns:
  assumes "deadline \<le> earliest + 25 * n" and "n < length polls"
  shows "\<exists>r. snd (wait_for_process_group_exit pid deadline earliest polls) = Some r"
  using assms
proof (induction polls arbitrary: earliest n)
  case Nil
  then show ?case by simp
next
  case (Cons p polls)
  obtain answer now where p: "p = (answer, now)" by (cases p)
  show ?case
  proof (cases "deadline \<le> max earliest now")
    case True
    then show ?thesis using p by (auto split: sum.splits bool.splits)
  next
    case False
    then obtain m where n: "n = Suc m" using Cons.prems(1) by (cases n) auto
    have "deadline \<le> (max earliest now + 25) + 25 * m" using Cons.prems(1) n by auto
    from Cons.IH [OF this] Cons.prems(2) n show ?thesis
      using p by (auto split: sum.splits bool.splits prod.splits)
  qed
qed

section \<open>Escalation\<close>

lemmas reap_defs =
  terminate_and_reap_def graceful_shutdown_and_reap_def force_and_reap_def try_wait_def
  terminate_group_def cleanup_remaining_group_def os_act_def os_return_def

text \<open>A trace in which a forced signal never comes before an ordinary one.\<close>

fun escalates :: "bool \<Rightarrow> os_action list \<Rightarrow> bool" where
  "escalates asked [] = True"
| "escalates asked (SignalGroup force # t) = ((force \<longrightarrow> asked) \<and> escalates (asked \<or> \<not> force) t)"
| "escalates asked (_ # t) = escalates asked t"

fun asked_in :: "bool \<Rightarrow> os_action list \<Rightarrow> bool" where
  "asked_in asked [] = asked"
| "asked_in asked (SignalGroup force # t) = asked_in (asked \<or> \<not> force) t"
| "asked_in asked (_ # t) = asked_in asked t"

lemma escalates_append:
  "escalates asked (t @ t') \<longleftrightarrow> escalates asked t \<and> escalates (asked_in asked t) t'"
  by (induction asked t rule: escalates.induct) auto

lemma escalates_bind:
  "escalates asked (fst m) \<Longrightarrow> (\<And>x. escalates (asked_in asked (fst m)) (fst (f x))) \<Longrightarrow>
     escalates asked (fst (os_bind m f))"
  by (cases m; cases "snd m"; cases "the (snd m)") (auto simp: escalates_append)

lemma polling_only_probes:
  "set (fst (wait_for_process_group_exit pid deadline earliest polls)) \<subseteq> {ProbeGroup}"
proof (induction polls arbitrary: earliest)
  case Nil
  show ?case by simp
next
  case (Cons p polls)
  obtain answer now where p: "p = (answer, now)" by (cases p)
  show ?case
    using Cons.IH [of "max earliest now + 25"] by (auto simp: p split: sum.splits bool.splits prod.splits if_splits)
qed

lemma probes_escalate: "set t \<subseteq> {ProbeGroup} \<Longrightarrow> escalates asked t \<and> asked_in asked t = asked"
  by (induction t) auto

lemma cleanup_escalates: "escalates asked (fst (cleanup_remaining_group os pid timeout))"
proof -
  define w where "w = wait_for_process_group_exit pid (oa_cleanup_start os + timeout) (oa_cleanup_start os) (oa_polls os)"
  obtain t r where tr: "w = (t, r)" by (cases w)
  have "set t \<subseteq> {ProbeGroup}"
    using polling_only_probes [of pid "oa_cleanup_start os + timeout" "oa_cleanup_start os" "oa_polls os"]
    by (simp add: w_def [symmetric] tr)
  then have "escalates True t \<and> asked_in True t" using probes_escalate by blast
  then show ?thesis
    unfolding cleanup_remaining_group_def w_def [symmetric] tr terminate_group_def os_act_def os_return_def
    by (cases "process_group_exists pid (oa_remaining os)";
        cases "signal_group pid False (oa_cleanup_terminate os)";
        cases r; cases "the r")
       (auto simp: escalates_append)
qed

section \<open>Properties\<close>

text \<open>
  C32. The process group is never killed before it was asked to terminate: in every trace of
  both shutdown operations a \<open>SIGKILL\<close> comes after a \<open>SIGTERM\<close>.
\<close>

theorem shutdown_escalates:
  "escalates False (fst (terminate_and_reap os pid timeout)) \<and>
   escalates False (fst (graceful_shutdown_and_reap os pid graceful timeout))"
  by (auto simp: terminate_and_reap_def graceful_shutdown_and_reap_def force_and_reap_def
    try_wait_def terminate_group_def os_act_def os_return_def
    intro!: escalates_bind cleanup_escalates split: option.splits wait_result.splits)

text \<open>
  Both operations come to a result, whatever the system answers: the pauses of 25 ms between two probes fill the
  timeout, so the polling needs at most two probes more than the timeout has pauses.
\<close>

lemma cleanup_returns:
  assumes "timeout div 25 + 2 \<le> length (oa_polls os)"
  shows "snd (cleanup_remaining_group os pid timeout) \<noteq> None"
proof -
  let ?start = "oa_cleanup_start os"
  have "?start + timeout \<le> ?start + 25 * Suc (timeout div 25)"
    using dividend_less_times_div [of 25 timeout] by simp
  from wait_for_process_group_exit_returns [OF this, of "oa_polls os" pid] assms obtain r where
    r: "snd (wait_for_process_group_exit pid (?start + timeout) ?start (oa_polls os)) = Some r" by auto
  then show ?thesis
    by (cases "wait_for_process_group_exit pid (?start + timeout) ?start (oa_polls os)"; cases r)
       (auto simp: cleanup_remaining_group_def os_bind_def os_act_def os_return_def terminate_group_def
         split: sum.splits option.splits prod.splits bool.splits)
qed

definition returns :: "'a os \<Rightarrow> bool" where
  "returns m \<longleftrightarrow> snd m \<noteq> None"

lemma returns_bind:
  assumes "returns m" and "\<And>x. returns (f x)"
  shows "returns (os_bind m f)"
proof (cases m)
  case (Pair t r)
  with assms(1) obtain x where "r = Some x" by (auto simp: returns_def)
  with Pair assms(2) show ?thesis by (cases x) (simp_all add: returns_def)
qed

lemma returns_simps [simp]: "returns (os_act a r)" "returns (os_return r)"
  by (simp_all add: returns_def os_act_def os_return_def)

theorem reaping_returns:
  assumes "timeout div 25 + 2 \<le> length (oa_polls os)"
  shows "returns (terminate_and_reap os pid timeout) \<and> returns (graceful_shutdown_and_reap os pid graceful timeout)"
proof -
  have "returns (cleanup_remaining_group os pid timeout)"
    using cleanup_returns [OF assms] by (simp add: returns_def)
  then show ?thesis
    by (auto simp: terminate_and_reap_def graceful_shutdown_and_reap_def force_and_reap_def try_wait_def
      terminate_group_def intro!: returns_bind split: option.splits wait_result.splits)
qed

text \<open>An exit status that was reaped is one the system reported.\<close>

definition reports :: "os_answers \<Rightarrow> exit_status \<Rightarrow> bool" where
  "reports os status \<longleftrightarrow> oa_try_wait os = Inr (Some status) \<or> oa_graceful_wait os = Waited (Inr status) \<or>
     oa_terminate_wait os = Waited (Inr status) \<or> oa_force_wait os = Waited (Inr status)"

lemma os_bind_Inr_iff:
  "snd (os_bind m f) = Some (Inr y) \<longleftrightarrow> (\<exists>x. snd m = Some (Inr x) \<and> snd (f x) = Some (Inr y))"
  by (auto simp: os_bind_def split: prod.splits option.splits sum.splits)

lemma reaped_reported:
  "snd (terminate_and_reap os pid timeout) = Some (Inr status) \<Longrightarrow> reports os status"
  "snd (graceful_shutdown_and_reap os pid graceful timeout) = Some (Inr status) \<Longrightarrow> reports os status"
  by (auto simp: terminate_and_reap_def graceful_shutdown_and_reap_def force_and_reap_def try_wait_def os_act_def
    os_return_def os_bind_Inr_iff reports_def split: option.splits wait_result.splits)

text \<open>
  C33. After a graceful shutdown in which the agent exits only on \<open>SIGTERM\<close>, the rest of its process
  group is not looked at: no probe and no further signal follow. In the same situation
  \<open>terminate_and_reap\<close> does clean the group up.
\<close>

theorem graceful_term_skips_group_cleanup:
  assumes "oa_try_wait os = Inr None" and "oa_graceful_wait os = Elapsed"
    and "oa_terminate os = KillOk" and "oa_terminate_wait os = Waited (Inr status)"
    and "pid \<le> 2147483647"
  shows "graceful_shutdown_and_reap os pid graceful timeout =
      ([TryWait, WaitChild graceful, SignalGroup False, WaitChild timeout], Some (Inr status)) \<and>
    ProbeGroup \<in> set (fst (terminate_and_reap os pid timeout))"
proof -
  have "ProbeGroup \<in> set (fst (cleanup_remaining_group os pid timeout))"
    by (cases "process_group_exists pid (oa_remaining os)")
       (auto simp: cleanup_remaining_group_def os_act_def)
  with assms show ?thesis
    by (cases "cleanup_remaining_group os pid timeout")
       (auto simp: graceful_shutdown_and_reap_def terminate_and_reap_def try_wait_def terminate_group_def
         os_act_def os_return_def signal_group_def pid_in_range_def os_bind_def split: option.splits sum.splits)
qed

definition example_os :: os_answers where
  "example_os = \<lparr>oa_try_wait = Inr None, oa_graceful_wait = Elapsed, oa_terminate = KillOk,
     oa_terminate_wait = Waited (Inr \<lparr>es_code = None, es_signal = Some 15\<rparr>), oa_force = KillOk,
     oa_force_wait = Elapsed, oa_remaining = KillOk, oa_cleanup_terminate = KillOk,
     oa_polls = [(KillEsrch, 10)], oa_cleanup_start = 0, oa_cleanup_force = KillOk\<rparr>"

theorem graceful_term_skips_group_cleanup_witness:
  "graceful_shutdown_and_reap example_os 42 5000 5000 =
      ([TryWait, WaitChild 5000, SignalGroup False, WaitChild 5000],
       Some (Inr \<lparr>es_code = None, es_signal = Some 15\<rparr>)) \<and>
    ProbeGroup \<in> set (fst (terminate_and_reap example_os 42 5000))"
  by (rule graceful_term_skips_group_cleanup) (simp_all add: example_os_def)

end
