(* ===== verification/Acp_Replay.thy ===== *)
theory Acp_Replay
  imports Acp_Prelude
begin

text \<open>
  The contract of a replay queue, which the server and the connector both implement:
  frames are queued with consecutive sequence numbers, kept until they are acknowledged
  and dropped from the front by a cumulative acknowledgement. \<open>retains\<close> relates a queue
  to the list of all payloads queued so far; the locale \<open>replay_queue\<close> proves once that
  queueing and acknowledging keep the relation.
\<close>

text \<open>The payload with a sequence number; sequence numbers start at 1.\<close>

definition payload_at :: "string list \<Rightarrow> u64 \<Rightarrow> string" where
  "payload_at produced sequence = produced ! (sequence - 1)"

lemma payload_at_append:
  "1 \<le> i \<Longrightarrow> i \<le> length produced \<Longrightarrow> payload_at (produced @ xs) i = payload_at produced i"
  by (auto simp: payload_at_def nth_append)

lemma payload_at_last [simp]: "payload_at (produced @ [p]) (Suc (length produced)) = p"
  by (simp add: payload_at_def)

text \<open>Consecutive numbered payloads of a list.\<close>

definition numbered :: "string list \<Rightarrow> nat \<Rightarrow> nat \<Rightarrow> (u64 \<times> string) list" where
  "numbered produced a b = map (\<lambda>i. (i, payload_at produced i)) [a..<b]"

lemma numbered_empty [simp]: "b \<le> a \<Longrightarrow> numbered produced a b = []"
  by (simp add: numbered_def)

lemma numbered_Cons: "a < b \<Longrightarrow> numbered produced a b = (a, payload_at produced a) # numbered produced (Suc a) b"
  by (simp add: numbered_def upt_conv_Cons)

lemma numbered_eq_Cons_iff:
  "numbered produced a b = x # xs \<longleftrightarrow>
     a < b \<and> x = (a, payload_at produced a) \<and> xs = numbered produced (Suc a) b"
proof (cases "a < b")
  case True
  then show ?thesis by (auto simp: numbered_Cons)
qed auto

lemma numbered_Suc: "a \<le> b \<Longrightarrow> numbered produced a (Suc b) = numbered produced a b @ [(b, payload_at produced b)]"
  by (simp add: numbered_def)

lemma numbered_append: "a \<le> b \<Longrightarrow> b \<le> c \<Longrightarrow> numbered produced a c = numbered produced a b @ numbered produced b c"
proof -
  assume "a \<le> b" "b \<le> c"
  then have "[a..<c] = [a..<b] @ [b..<c]"
    using upt_add_eq_append [of a b "c - b"] by simp
  then show ?thesis by (simp add: numbered_def)
qed

lemma numbered_extend:
  "1 \<le> a \<Longrightarrow> b \<le> Suc (length produced) \<Longrightarrow> numbered (produced @ xs) a b = numbered produced a b"
  by (auto simp: numbered_def payload_at_append)

lemma length_numbered [simp]: "length (numbered produced a b) = b - a"
  by (simp add: numbered_def)

lemma take_numbered: "a + k \<le> b \<Longrightarrow> take k (numbered ps a b) = numbered ps a (a + k)"
  by (simp add: numbered_append [of a "a + k" b])

lemma dropWhile_numbered:
  "dropWhile (\<lambda>f. fst f \<le> q) (numbered produced a b) = numbered produced (max a (Suc q)) b"
  by (simp add: numbered_def dropWhile_map o_def dropWhile_le_upt)

definition payload_bytes :: "(u64 \<times> string) list \<Rightarrow> nat" where
  "payload_bytes fs = sum_list (map (length \<circ> snd) fs)"

lemma payload_bytes_simps [simp]:
  "payload_bytes [] = 0"
  "payload_bytes (f # fs) = length (snd f) + payload_bytes fs"
  "payload_bytes (fs @ gs) = payload_bytes fs + payload_bytes gs"
  by (simp_all add: payload_bytes_def)

text \<open>
  A queue retains the payloads from the first unacknowledged one to the last one queued.
\<close>

definition retains :: "string list \<Rightarrow> nat \<Rightarrow> (u64 \<times> string) list \<Rightarrow> usize \<Rightarrow> u64 \<Rightarrow> bool" where
  "retains produced first fs bytes next \<longleftrightarrow>
     next = Suc (length produced) \<and> 1 \<le> first \<and> first \<le> next \<and>
     fs = numbered produced first next \<and> bytes = payload_bytes fs"

lemma retains_next: "retains produced first fs bytes next \<Longrightarrow> next = Suc (length produced)"
  by (simp add: retains_def)

locale replay_queue =
  fixes view :: "'f \<Rightarrow> u64 \<times> string"
    and push :: "string \<Rightarrow> 'f list \<times> usize \<times> u64 \<Rightarrow> ('f list \<times> usize \<times> u64) option"
    and pop_acknowledged :: "u64 \<Rightarrow> 'f list \<times> usize \<Rightarrow> 'f list \<times> usize"
  assumes push_None: "push p (fs, b, n) = None \<longleftrightarrow> u64_max < n + 1"
    and push_Some: "push p (fs, b, n) = Some (fs', b', n') \<Longrightarrow>
      n' = n + 1 \<and> b' = saturating_add b (length p) \<and> map view fs' = map view fs @ [(n, p)]"
    and pop_view: "map view (fst (pop_acknowledged q (fs, b)))
      = dropWhile (\<lambda>f. fst f \<le> q) (map view fs)"
    and pop_bytes: "snd (pop_acknowledged q (fs, b))
      = b - payload_bytes (takeWhile (\<lambda>f. fst f \<le> q) (map view fs))"
begin

lemma push_retains:
  assumes "retains produced first (map view fs) b n" and "push p (fs, b, n) = Some (fs', b', n')"
    and "b + length p \<le> u64_max"
  shows "retains (produced @ [p]) first (map view fs') b' n'"
proof -
  from push_Some [OF assms(2)] have n': "n' = n + 1" and b': "b' = b + length p"
    and fs': "map view fs' = map view fs @ [(n, p)]"
    using assms(3) by auto
  have n: "n = Suc (length produced)" "1 \<le> first" "first \<le> n"
    and fs: "map view fs = numbered produced first n" and b: "b = payload_bytes (map view fs)"
    using assms(1) by (auto simp: retains_def)
  have "numbered (produced @ [p]) first n = numbered produced first n"
    using n by (intro numbered_extend) auto
  then have eq: "numbered (produced @ [p]) first (Suc n) = map view fs @ [(n, p)]"
    using n fs by (simp add: numbered_Suc)
  show ?thesis
    unfolding retains_def fs' n' b' using n b eq by simp
qed

lemma pop_retains:
  assumes "retains produced first (map view fs) b n" and "q < n"
    and "pop_acknowledged q (fs, b) = (fs', b')"
  shows "retains produced (max first (Suc q)) (map view fs') b' n"
proof -
  let ?T = "takeWhile (\<lambda>f. fst f \<le> q) (map view fs)" and ?D = "dropWhile (\<lambda>f. fst f \<le> q) (map view fs)"
  from assms(3) have fs': "map view fs' = ?D" and b': "b' = b - payload_bytes ?T"
    using pop_view [of q fs b] pop_bytes [of q fs b] by auto
  have "b = payload_bytes ?T + payload_bytes ?D"
    using assms(1) by (simp add: retains_def flip: payload_bytes_simps(3))
  then have "b' = payload_bytes ?D" using b' by simp
  moreover have "?D = numbered produced (max first (Suc q)) n"
    using assms(1) by (simp add: retains_def dropWhile_numbered)
  ultimately show ?thesis
    using assms(1,2) fs' by (auto simp: retains_def)
qed

text \<open>An acknowledgement only shortens the queue.\<close>

lemma pop_bounds:
  assumes "pop_acknowledged q (fs, b) = (fs', b')"
  shows "length fs' \<le> length fs" and "b' \<le> b"
proof -
  have "length (map view fs') = length (dropWhile (\<lambda>f. fst f \<le> q) (map view fs))"
    using pop_view [of q fs b] assms by simp
  also have "\<dots> \<le> length (map view fs)" by (rule length_dropWhile_le)
  finally show "length fs' \<le> length fs" by simp
  show "b' \<le> b" using pop_bytes [of q fs b] assms by simp
qed

end

end
