(* ===== verification/Acp_Session.thy ===== *)
theory Acp_Session
  imports Acp_Policy Acp_Reap Acp_Replay
begin

text \<open>
  \<^verbatim>\<open>server.rs\<close>, the session of one remote agent: the variables of
  \<open>run_agent_session\<close> are the record \<open>session\<close>, and one turn of its loop is the
  function \<open>iteration\<close>: the replay pump and the exit notice at the top of the loop,
  then one branch of the \<open>select!\<close>.

  A transport is known by its generation. Its command channel is the list of commands
  the channel has accepted; whether it accepts one (it may be full, or closed because
  the transport task has ended) is decided by the environment, as are the clock, the
  agent's standard input and the notice that a command was written: the record
  \<open>session_io\<close> holds the answers one turn of the loop meets.
\<close>

section \<open>Data\<close>

record replay_frame =
  rf_sequence :: u64
  rf_payload :: string
  rf_last_sent_generation :: u64

datatype agent_event = AgentAcp string | StdoutError | StdoutClosed

datatype transport_command =
    CmdEnvelope envelope
  | CmdExit envelope
  | CmdShutdownComplete envelope

datatype transport_event_kind =
    EvEnvelope envelope
  | EvActivity
  | EvWritable
  | EvDisconnected
  | EvClosed
  | EvInvalidEnvelope

record transport_event =
  te_generation :: u64
  te_kind :: transport_event_kind

record counters =
  inbound_frames :: u64
  inbound_bytes :: u64
  dropped_stderr_frames :: u64

record session =
  pending :: "replay_frame list"
  pending_bytes :: usize
  next_server_sequence :: u64
  expected_client_sequence :: u64
  generation :: u64
  transport :: "u64 option"
  commands :: "(u64 \<times> transport_command) list"
  detached_deadline :: "nat option"
  last_received :: nat
  child_status :: "exit_status option"
  resumed_count :: u64
  exit_was_sent :: bool
  shutdown_reason :: "Acp_Protocol.shutdown_reason option"
  end_category :: "string option"
  agent_stdin :: "string list"   \<comment> \<open>the lines written and flushed, without their line feeds\<close>
  resumable :: bool              \<comment> \<open>the entry in the table of sessions\<close>
  session_counters :: counters
  queued :: "string list"        \<comment> \<open>history: every payload given a sequence number\<close>
  consumed :: "string list"      \<comment> \<open>history: every payload of the connector that was processed\<close>

section \<open>The environment of one turn\<close>

datatype try_send_result = TrySent | TryFull | TryClosed

datatype sent_notice = NoticeElapsed | NoticeDropped | NoticeSent

datatype setup_answer = SetupSent | SetupClosed | SetupElapsed

record session_io =
  io_now :: nat
  io_pump :: "nat \<Rightarrow> try_send_result"      \<comment> \<open>the n-th \<open>try_send\<close> of the pump\<close>
  io_try_send :: try_send_result           \<comment> \<open>a keepalive or a diagnostic\<close>
  io_send :: bool                          \<comment> \<open>an awaited send is accepted\<close>
  io_stdin :: "string option"              \<comment> \<open>an error of the agent's standard input\<close>
  io_notice_accepted :: bool               \<comment> \<open>the exit command is accepted in time\<close>
  io_notice :: sent_notice                 \<comment> \<open>the answer of its \<open>oneshot\<close> channel\<close>
  io_setup :: "nat \<Rightarrow> setup_answer"        \<comment> \<open>the n-th send of a transport's setup\<close>
  io_nonce :: string                       \<comment> \<open>a fresh keepalive nonce\<close>

section \<open>The replay buffer\<close>

definition replay_fits :: "replay_frame list \<Rightarrow> usize \<Rightarrow> string \<Rightarrow> server_config \<Rightarrow> bool" where
  "replay_fits fs bytes payload config \<longleftrightarrow>
     length fs < max_replay_frames config \<and>
     saturating_add bytes (length payload) \<le> max_replay_bytes config"

definition push_frame ::
    "string \<Rightarrow> replay_frame list \<times> usize \<times> u64 \<Rightarrow> (replay_frame list \<times> usize \<times> u64) option" where
  "push_frame payload q =
     (case q of (fs, bytes, next) \<Rightarrow>
        (case checked_add next 1 of
           None \<Rightarrow> None
         | Some next' \<Rightarrow>
             Some (fs @ [\<lparr>rf_sequence = next, rf_payload = payload, rf_last_sent_generation = 0\<rparr>],
                   saturating_add bytes (length payload), next')))"

definition queue_server_frame :: "string \<Rightarrow> session \<Rightarrow> error + session" where
  "queue_server_frame payload s =
     (case push_frame payload (pending s, pending_bytes s, next_server_sequence s) of
        None \<Rightarrow> Inl (Protocol [Lit ''server ACP sequence exhausted''])
      | Some (fs, bytes, next) \<Rightarrow>
          Inr (s\<lparr>pending := fs, pending_bytes := bytes, next_server_sequence := next,
                 queued := queued s @ [payload]\<rparr>))"

fun pop_acknowledged :: "u64 \<Rightarrow> replay_frame list \<times> usize \<Rightarrow> replay_frame list \<times> usize" where
  "pop_acknowledged sequence ([], bytes) = ([], bytes)"
| "pop_acknowledged sequence (frame # fs, bytes) =
     (if rf_sequence frame \<le> sequence
      then pop_acknowledged sequence (fs, saturating_sub bytes (length (rf_payload frame)))
      else (frame # fs, bytes))"

definition acp_of :: "replay_frame \<Rightarrow> transport_command" where
  "acp_of frame = CmdEnvelope (Acp (Some (rf_sequence frame)) (rf_payload frame))"

text \<open>
  \<open>pump_replay\<close>: the frames not yet sent on this transport, until the channel is full;
  the result is false when the channel is closed. The number counts the sends so far.
\<close>

fun pump_replay ::
    "(nat \<Rightarrow> try_send_result) \<Rightarrow> nat \<Rightarrow> u64 \<Rightarrow> replay_frame list
      \<Rightarrow> replay_frame list \<times> transport_command list \<times> bool" where
  "pump_replay answers n gen [] = ([], [], True)"
| "pump_replay answers n gen (frame # fs) =
     (if rf_last_sent_generation frame = gen
      then (case pump_replay answers n gen fs of (fs', cs, ok) \<Rightarrow> (frame # fs', cs, ok))
      else (case answers n of
              TrySent \<Rightarrow>
                (case pump_replay answers (Suc n) gen fs of (fs', cs, ok) \<Rightarrow>
                   (frame\<lparr>rf_last_sent_generation := gen\<rparr> # fs', acp_of frame # cs, ok))
            | TryFull \<Rightarrow> (frame # fs, [], True)
            | TryClosed \<Rightarrow> (frame # fs, [], False)))"

section \<open>Transports\<close>

definition accept :: "u64 \<Rightarrow> transport_command list \<Rightarrow> session \<Rightarrow> session" where
  "accept gen cs s = s\<lparr>commands := commands s @ map (\<lambda>c. (gen, c)) cs\<rparr>"

definition detach_transport :: "server_config \<Rightarrow> session_io \<Rightarrow> session \<Rightarrow> session" where
  "detach_transport config io s =
     s\<lparr>transport := None,
       detached_deadline := (case detached_deadline s of
          None \<Rightarrow> Some (io_now io + reconnect_grace config) | Some d \<Rightarrow> Some d)\<rparr>"

text \<open>An awaited send whose error is ignored.\<close>

definition send_ignoring_error :: "session_io \<Rightarrow> transport_command \<Rightarrow> session \<Rightarrow> session" where
  "send_ignoring_error io c s =
     (case transport s of
        None \<Rightarrow> s
      | Some gen \<Rightarrow> if io_send io then accept gen [c] s else s)"

definition send_client_ack :: "session_io \<Rightarrow> u64 \<Rightarrow> session \<Rightarrow> session" where
  "send_client_ack io expected s =
     (case checked_sub expected 1 of
        None \<Rightarrow> s
      | Some sequence \<Rightarrow> send_ignoring_error io (CmdEnvelope (Ack ClientToServer sequence)) s)"

text \<open>
  \<open>send_exit\<close>: true when the command is accepted in time and the \<open>oneshot\<close> answers in
  time, whether it was used or dropped.
\<close>

definition notice_result :: "session_io \<Rightarrow> bool" where
  "notice_result io \<longleftrightarrow> io_notice_accepted io \<and> io_notice io \<noteq> NoticeElapsed"

definition send_exit :: "session_io \<Rightarrow> u64 \<Rightarrow> exit_status \<Rightarrow> session \<Rightarrow> session \<times> bool" where
  "send_exit io gen status s =
     (case exit_details status of (code, signal) \<Rightarrow>
        (if io_notice_accepted io then accept gen [CmdExit (Exit code signal)] s else s,
         notice_result io))"

definition send_shutdown_complete :: "session_io \<Rightarrow> u64 \<Rightarrow> exit_status \<Rightarrow> session \<Rightarrow> session \<times> bool" where
  "send_shutdown_complete io gen status s =
     (case exit_details status of (code, signal) \<Rightarrow>
        (if io_notice_accepted io then accept gen [CmdShutdownComplete (ShutdownComplete code signal)] s else s,
         notice_result io))"

text \<open>
  The setup of a transport: ready, the acknowledgement of a resumed session, then every
  pending frame. The commands sent before a failure stay sent and their frames marked.
\<close>

fun setup_frames ::
    "(nat \<Rightarrow> setup_answer) \<Rightarrow> nat \<Rightarrow> u64 \<Rightarrow> replay_frame list
      \<Rightarrow> replay_frame list \<times> transport_command list \<times> (error + unit)" where
  "setup_frames answers n gen [] = ([], [], Inr ())"
| "setup_frames answers n gen (frame # fs) =
     (case answers n of
        SetupSent \<Rightarrow>
          (case setup_frames answers (Suc n) gen fs of (fs', cs, r) \<Rightarrow>
             (frame\<lparr>rf_last_sent_generation := gen\<rparr> # fs', acp_of frame # cs, r))
      | SetupClosed \<Rightarrow> (frame # fs, [], Inl (Network [Lit ''transport stopped during replay'']))
      | SetupElapsed \<Rightarrow> (frame # fs, [], Inl (Timeout ''preparing resumed transport'')))"

definition attach_transport ::
    "(nat \<Rightarrow> setup_answer) \<Rightarrow> u64 \<Rightarrow> envelope \<Rightarrow> envelope option \<Rightarrow> replay_frame list
      \<Rightarrow> replay_frame list \<times> transport_command list \<times> (error + unit)" where
  "attach_transport answers gen ready client_ack fs =
     (case answers 0 of
        SetupClosed \<Rightarrow> (fs, [], Inl (Network [Lit ''transport stopped before ready'']))
      | SetupElapsed \<Rightarrow> (fs, [], Inl (Timeout ''preparing resumed transport''))
      | SetupSent \<Rightarrow>
          (case client_ack of
             None \<Rightarrow>
               (case setup_frames answers 1 gen fs of (fs', cs, r) \<Rightarrow> (fs', CmdEnvelope ready # cs, r))
           | Some ack \<Rightarrow>
               (case answers 1 of
                  SetupClosed \<Rightarrow>
                    (fs, [CmdEnvelope ready],
                     Inl (Network [Lit ''transport stopped before resume acknowledgement'']))
                | SetupElapsed \<Rightarrow>
                    (fs, [CmdEnvelope ready], Inl (Timeout ''preparing resumed transport''))
                | SetupSent \<Rightarrow>
                    (case setup_frames answers 2 gen fs of (fs', cs, r) \<Rightarrow>
                       (fs', CmdEnvelope ready # CmdEnvelope ack # cs, r)))))"

section \<open>Envelopes from the connector\<close>

record session_context =
  cx_config :: server_config
  cx_policy :: acp_policy
  cx_env :: policy_env
  cx_connection_id :: string
  cx_resume_token :: string

definition end_with :: "string \<Rightarrow> session \<Rightarrow> session" where
  "end_with category s = s\<lparr>end_category := Some category\<rparr>"

definition count_inbound :: "string \<Rightarrow> session \<Rightarrow> session" where
  "count_inbound payload s =
     s\<lparr>session_counters := (session_counters s)
         \<lparr>inbound_frames := fetch_add (inbound_frames (session_counters s)) 1,
          inbound_bytes := fetch_add (inbound_bytes (session_counters s)) (length payload)\<rparr>\<rparr>"

text \<open>The delivery of a frame with the expected number: through the policy to the agent.\<close>

definition advance_client :: "session_io \<Rightarrow> string \<Rightarrow> session \<Rightarrow> error + session" where
  "advance_client io payload s =
     (case checked_add (expected_client_sequence s) 1 of
        None \<Rightarrow> Inl (Protocol [Lit ''client ACP sequence exhausted''])
      | Some expected \<Rightarrow>
          Inr (send_client_ack io expected
            (s\<lparr>expected_client_sequence := expected, consumed := consumed s @ [payload]\<rparr>)))"

definition deliver :: "session_context \<Rightarrow> session_io \<Rightarrow> string \<Rightarrow> session \<Rightarrow> error + session" where
  "deliver cx io payload s =
     rbind (policy_apply (cx_env cx) (cx_policy cx) payload) (\<lambda>outcome.
       case outcome of
         Forward line \<Rightarrow>
           (case io_stdin io of
              Some e \<Rightarrow> Inl (Io e)
            | None \<Rightarrow> advance_client io payload (s\<lparr>agent_stdin := agent_stdin s @ [line]\<rparr>))
       | Reject line \<Rightarrow>
           if \<not> replay_fits (pending s) (pending_bytes s) line (cx_config cx)
           then Inr (end_with ''replay_buffer_exhausted'' s)
           else rbind (queue_server_frame line s) (advance_client io payload))"

fun handle_client_envelope ::
    "session_context \<Rightarrow> session_io \<Rightarrow> envelope \<Rightarrow> session \<Rightarrow> error + session" where
  "handle_client_envelope cx io (Acp (Some sequence) payload) s0 =
     (let s = count_inbound payload s0
      in if max_frame_bytes (cx_config cx) < length payload
         then Inr (end_with ''oversized_acp_line'' s)
         else if expected_client_sequence s < sequence
         then Inr (end_with ''client_sequence_gap'' s)
         else if sequence < expected_client_sequence s
         then Inr (send_client_ack io (expected_client_sequence s) s)
         else deliver cx io payload s)"
| "handle_client_envelope cx io (Acp None payload) s = Inr (end_with ''missing_sequence'' s)"
| "handle_client_envelope cx io (Ack ServerToClient sequence) s =
     (if next_server_sequence s \<le> sequence
      then Inr (end_with ''invalid_acknowledgement'' s)
      else (case pop_acknowledged sequence (pending s, pending_bytes s) of (fs, bytes) \<Rightarrow>
              Inr (s\<lparr>pending := fs, pending_bytes := bytes\<rparr>)))"
| "handle_client_envelope cx io (Ack ClientToServer sequence) s =
     Inr (end_with ''unexpected_acknowledgement'' s)"
| "handle_client_envelope cx io (Ping nonce) s =
     Inr (send_ignoring_error io (CmdEnvelope (Pong nonce)) s)"
| "handle_client_envelope cx io (Pong nonce) s = Inr s"
| "handle_client_envelope cx io (Shutdown reason) s =
     Inr (if shutdown_reason s = None then s\<lparr>shutdown_reason := Some reason\<rparr> else s)"
| "handle_client_envelope cx io _ s = Inr (end_with ''unexpected_envelope'' s)"

section \<open>One turn of the loop\<close>

datatype select_event =
    ChildExited "error + exit_status"
  | Attachment bool                       \<comment> \<open>a socket, or a closed channel\<close>
  | ServerShutdown
  | KeepaliveTick
  | TransportRecv "transport_event option"
  | AgentRecv "agent_event option"
  | DiagnosticRecv "string option"
  | DeadlineElapsed

definition all_enqueued :: "u64 \<Rightarrow> replay_frame list \<Rightarrow> bool" where
  "all_enqueued gen fs = list_all (\<lambda>frame. rf_last_sent_generation frame = gen) fs"

definition pump_transport :: "server_config \<Rightarrow> session_io \<Rightarrow> session \<Rightarrow> session" where
  "pump_transport config io s =
     (case transport s of
        None \<Rightarrow> s
      | Some gen \<Rightarrow>
          (case pump_replay (io_pump io) 0 gen (pending s) of (fs, cs, ok) \<Rightarrow>
             let s1 = accept gen cs (s\<lparr>pending := fs\<rparr>)
             in if ok then s1 else detach_transport config io s1))"

definition notify_exit :: "server_config \<Rightarrow> session_io \<Rightarrow> session \<Rightarrow> session" where
  "notify_exit config io s =
     (case (child_status s, transport s) of
        (Some status, Some gen) \<Rightarrow>
          if all_enqueued gen (pending s)
          then (case send_exit io gen status s of (s1, ok) \<Rightarrow>
                  if ok then end_with ''child_exit'' (s1\<lparr>exit_was_sent := True\<rparr>)
                  else detach_transport config io s1)
          else s
      | _ \<Rightarrow> s)"

definition prologue :: "server_config \<Rightarrow> session_io \<Rightarrow> session \<Rightarrow> session" where
  "prologue config io s = notify_exit config io (pump_transport config io s)"

definition can_read_agent :: "server_config \<Rightarrow> session \<Rightarrow> bool" where
  "can_read_agent config s \<longleftrightarrow>
     child_status s = None \<and> length (pending s) < max_replay_frames config \<and>
     pending_bytes s \<le> saturating_sub (max_replay_bytes config) (max_frame_bytes config)"

fun branch_enabled :: "server_config \<Rightarrow> session \<Rightarrow> select_event \<Rightarrow> bool" where
  "branch_enabled config s (ChildExited _) \<longleftrightarrow> child_status s = None"
| "branch_enabled config s (AgentRecv _) \<longleftrightarrow> can_read_agent config s"
| "branch_enabled config s DeadlineElapsed \<longleftrightarrow> detached_deadline s \<noteq> None"
| "branch_enabled config s _ \<longleftrightarrow> True"

definition attach_socket :: "session_context \<Rightarrow> session_io \<Rightarrow> session \<Rightarrow> error + session" where
  "attach_socket cx io s0 =
     (let s = s0\<lparr>transport := None\<rparr>
      in case checked_add (generation s) 1 of
           None \<Rightarrow> Inl (Protocol [Lit ''transport generation exhausted''])
         | Some gen \<Rightarrow>
             (case attach_transport (io_setup io) gen
                     (Ready TUNNEL_VERSION (cx_connection_id cx) (Some (cx_resume_token cx)) True)
                     (map_option (Ack ClientToServer) (checked_sub (expected_client_sequence s) 1))
                     (pending s) of
                (fs, cs, result) \<Rightarrow>
                  let s1 = accept gen cs (s\<lparr>generation := gen, pending := fs\<rparr>)
                  in case result of
                       Inr _ \<Rightarrow>
                         Inr (s1\<lparr>transport := Some gen, detached_deadline := None,
                                 last_received := io_now io,
                                 resumed_count := saturating_add (resumed_count s1) 1\<rparr>)
                     | Inl _ \<Rightarrow> Inr s1))"

definition keepalive_tick :: "server_config \<Rightarrow> session_io \<Rightarrow> session \<Rightarrow> session" where
  "keepalive_tick config io s =
     (case transport s of
        None \<Rightarrow> s
      | Some gen \<Rightarrow>
          if keepalive_timeout config < io_now io - last_received s
          then detach_transport config io s
          else if io_try_send io = TrySent
          then accept gen [CmdEnvelope (Ping (io_nonce io))] s
          else s)"

definition receive_envelope ::
    "session_context \<Rightarrow> session_io \<Rightarrow> envelope \<Rightarrow> session \<Rightarrow> error + session" where
  "receive_envelope cx io envelope s =
     rbind (handle_client_envelope cx io envelope (s\<lparr>last_received := io_now io\<rparr>)) (\<lambda>s1.
       if shutdown_reason s1 \<noteq> None
       then Inr (end_with ''client_shutdown'' (s1\<lparr>resumable := False\<rparr>))
       else Inr s1)"

definition receive_transport ::
    "session_context \<Rightarrow> session_io \<Rightarrow> transport_event \<Rightarrow> session \<Rightarrow> error + session" where
  "receive_transport cx io event s =
     (if transport s \<noteq> Some (te_generation event) then Inr s
      else case te_kind event of
             EvEnvelope envelope \<Rightarrow> receive_envelope cx io envelope s
           | EvActivity \<Rightarrow> Inr (s\<lparr>last_received := io_now io\<rparr>)
           | EvWritable \<Rightarrow> Inr s
           | EvDisconnected \<Rightarrow> Inr (detach_transport (cx_config cx) io s)
           | EvClosed \<Rightarrow> Inr (detach_transport (cx_config cx) io s)
           | EvInvalidEnvelope \<Rightarrow> Inr (end_with ''invalid_envelope'' s))"

definition forward_diagnostic :: "session_io \<Rightarrow> string \<Rightarrow> session \<Rightarrow> session" where
  "forward_diagnostic io payload s =
     (case transport s of
        None \<Rightarrow> s
      | Some gen \<Rightarrow>
          if io_try_send io = TrySent then accept gen [CmdEnvelope (Stderr payload)] s
          else s\<lparr>session_counters := (session_counters s)
                 \<lparr>dropped_stderr_frames := fetch_add (dropped_stderr_frames (session_counters s)) 1\<rparr>\<rparr>)"

fun take_branch ::
    "session_context \<Rightarrow> session_io \<Rightarrow> select_event \<Rightarrow> session \<Rightarrow> error + session" where
  "take_branch cx io (ChildExited status) s = rbind status (\<lambda>st. Inr (s\<lparr>child_status := Some st\<rparr>))"
| "take_branch cx io (Attachment socket) s = (if socket then attach_socket cx io s else Inr s)"
| "take_branch cx io ServerShutdown s = Inr (end_with ''server_shutdown'' s)"
| "take_branch cx io KeepaliveTick s = Inr (keepalive_tick (cx_config cx) io s)"
| "take_branch cx io (TransportRecv None) s = Inr (end_with ''transport_task_stopped'' s)"
| "take_branch cx io (TransportRecv (Some event)) s = receive_transport cx io event s"
| "take_branch cx io (AgentRecv (Some (AgentAcp payload))) s = queue_server_frame payload s"
| "take_branch cx io (AgentRecv (Some StdoutError)) s = Inr (end_with ''agent_stdout_line'' s)"
| "take_branch cx io (AgentRecv _) s = Inr s"
| "take_branch cx io (DiagnosticRecv (Some payload)) s = Inr (forward_diagnostic io payload s)"
| "take_branch cx io (DiagnosticRecv None) s = Inr s"
| "take_branch cx io DeadlineElapsed s = Inr (end_with ''reconnect_timeout'' s)"

text \<open>
  One turn of the loop; \<open>None\<close> when the event is of a branch that is disabled.
\<close>

definition iteration ::
    "session_context \<Rightarrow> session_io \<Rightarrow> select_event \<Rightarrow> session \<Rightarrow> (error + session) option" where
  "iteration cx io event s =
     (let s1 = prologue (cx_config cx) io s
      in if end_category s1 \<noteq> None then Some (Inr s1)
         else if branch_enabled (cx_config cx) s1 event then Some (take_branch cx io event s1)
         else None)"

end
