(* ===== verification/Acp_Link.thy ===== *)
theory Acp_Link
  imports Acp_Replay Acp_Protocol
begin

text \<open>
  The abstract specification of one direction of the tunnel. A sender numbers payloads
  from 1, keeps those that are not acknowledged and sends them over a succession of
  connections; when a connection is attached it first repeats everything it keeps. A
  receiver reads one connection at a time and accepts the payload with the expected
  number only. The server session and the connector both implement the two roles; the
  theorem on the abstract link, \<open>link_delivery\<close>, is what the tunnel promises: delivery
  in order, exactly once, without a gap, however the connections fail.
\<close>

section \<open>The frames among the messages of a connection\<close>

fun env_frame :: "envelope \<Rightarrow> (u64 \<times> string) option" where
  "env_frame (Acp (Some n) p) = Some (n, p)"
| "env_frame _ = None"

text \<open>What an envelope does to the receiving side.\<close>

fun receives :: "envelope \<Rightarrow> nat \<times> string list \<Rightarrow> nat \<times> string list" where
  "receives (Acp (Some n) p) (expected, lines) =
     (if n = expected then (Suc n, lines @ [p]) else (expected, lines))"
| "receives _ r = r"

fun in_order :: "envelope \<Rightarrow> nat \<Rightarrow> bool" where
  "in_order (Acp (Some n) p) expected \<longleftrightarrow> n \<le> expected"
| "in_order _ expected \<longleftrightarrow> True"

section \<open>The sender\<close>

record sender =
  sd_payloads :: "string list"
  sd_first :: nat
  sd_conn :: "nat option"
  sd_sent :: nat
  sd_logs :: "nat \<Rightarrow> (u64 \<times> string) list"

datatype sender_act =
    Produce string
  | Acked nat
  | Transmit
  | Detach
  | Attach nat nat bool

fun sender_do :: "sender_act \<Rightarrow> sender \<Rightarrow> sender option" where
  "sender_do (Produce p) sd = Some (sd\<lparr>sd_payloads := sd_payloads sd @ [p]\<rparr>)"
| "sender_do (Acked q) sd =
     (if q \<le> length (sd_payloads sd)
      then Some (sd\<lparr>sd_first := max (sd_first sd) (Suc q), sd_sent := max (sd_sent sd) (Suc q)\<rparr>)
      else None)"
| "sender_do Transmit sd =
     (case sd_conn sd of
        None \<Rightarrow> None
      | Some g \<Rightarrow>
          if sd_sent sd \<le> length (sd_payloads sd)
          then Some (sd\<lparr>sd_logs := (sd_logs sd)(g := sd_logs sd g @
                          [(sd_sent sd, payload_at (sd_payloads sd) (sd_sent sd))]),
                        sd_sent := Suc (sd_sent sd)\<rparr>)
          else None)"
| "sender_do Detach sd = Some (sd\<lparr>sd_conn := None\<rparr>)"
| "sender_do (Attach g k complete) sd =
     (if sd_conn sd = None \<and> sd_logs sd g = [] \<and> sd_first sd + k \<le> Suc (length (sd_payloads sd)) \<and>
         (complete \<longrightarrow> sd_first sd + k = Suc (length (sd_payloads sd)))
      then Some (sd\<lparr>sd_logs := (sd_logs sd)(g := numbered (sd_payloads sd) (sd_first sd) (sd_first sd + k)),
                    sd_conn := (if complete then Some g else None),
                    sd_sent := sd_first sd + k\<rparr>)
      else None)"

fun sender_run :: "sender_act list \<Rightarrow> sender \<Rightarrow> sender option" where
  "sender_run [] sd = Some sd"
| "sender_run (a # as) sd = (case sender_do a sd of None \<Rightarrow> None | Some sd' \<Rightarrow> sender_run as sd')"

lemma sender_run_append:
  "sender_run (as @ bs) sd = (case sender_run as sd of None \<Rightarrow> None | Some sd' \<Rightarrow> sender_run bs sd')"
  by (induction as arbitrary: sd) (auto split: option.splits)

lemma sender_run_trans:
  "sender_run as sd = Some sd' \<Longrightarrow> sender_run bs sd' = Some sd'' \<Longrightarrow> sender_run (as @ bs) sd = Some sd''"
  by (simp add: sender_run_append)

text \<open>The runs in which only the numbers of a given set are acknowledged.\<close>

definition acks_in :: "nat set \<Rightarrow> sender_act list \<Rightarrow> bool" where
  "acks_in A acts = list_all (\<lambda>a. case a of Acked q \<Rightarrow> q \<in> A | _ \<Rightarrow> True) acts"

lemma acks_in_append [simp]: "acks_in A (as @ bs) \<longleftrightarrow> acks_in A as \<and> acks_in A bs"
  by (simp add: acks_in_def)

lemma acks_in_simps [simp]:
  "acks_in A []" "acks_in A (Acked q # as) \<longleftrightarrow> q \<in> A \<and> acks_in A as"
  "acks_in A (Produce p # as) \<longleftrightarrow> acks_in A as" "acks_in A (Transmit # as) \<longleftrightarrow> acks_in A as"
  "acks_in A (Detach # as) \<longleftrightarrow> acks_in A as" "acks_in A (Attach g k c # as) \<longleftrightarrow> acks_in A as"
  by (simp_all add: acks_in_def)

text \<open>
  What holds of a sender whatever its peer acknowledges: on each connection the numbers
  increase and every payload is the one with its number.
\<close>

definition genuine :: "string list \<Rightarrow> (u64 \<times> string) list \<Rightarrow> bool" where
  "genuine ps xs \<longleftrightarrow>
     sorted_wrt (<) (map fst xs) \<and>
     (\<forall>(n, p)\<in>set xs. 1 \<le> n \<and> n \<le> length ps \<and> p = payload_at ps n)"

definition numbers_below :: "nat \<Rightarrow> (u64 \<times> string) list \<Rightarrow> bool" where
  "numbers_below n xs \<longleftrightarrow> (\<forall>x\<in>set xs. fst x < n)"

definition sender_wf :: "sender \<Rightarrow> bool" where
  "sender_wf sd \<longleftrightarrow>
     1 \<le> sd_first sd \<and> sd_first sd \<le> sd_sent sd \<and> sd_sent sd \<le> Suc (length (sd_payloads sd)) \<and>
     (\<forall>g. genuine (sd_payloads sd) (sd_logs sd g) \<and>
          (sd_conn sd = Some g \<longrightarrow> numbers_below (sd_sent sd) (sd_logs sd g)))"

lemma set_numbered: "set (numbered ps a b) = (\<lambda>i. (i, payload_at ps i)) ` {a..<b}"
  by (simp add: numbered_def)

lemma map_fst_numbered [simp]: "map fst (numbered ps a b) = [a..<b]"
  by (simp add: numbered_def o_def)

lemma genuine_extend: "genuine ps xs \<Longrightarrow> genuine (ps @ qs) xs"
  by (fastforce simp: genuine_def payload_at_append)

lemma genuine_snoc:
  "genuine ps xs \<Longrightarrow> numbers_below n xs \<Longrightarrow> 1 \<le> n \<Longrightarrow> n \<le> length ps \<Longrightarrow>
     genuine ps (xs @ [(n, payload_at ps n)])"
  by (auto simp: genuine_def numbers_below_def sorted_wrt_append)

lemma genuine_numbered: "1 \<le> a \<Longrightarrow> b \<le> Suc (length ps) \<Longrightarrow> genuine ps (numbered ps a b)"
  by (auto simp: genuine_def set_numbered)

lemma numbers_below_mono: "numbers_below m xs \<Longrightarrow> m \<le> n \<Longrightarrow> numbers_below n xs"
  by (auto simp: numbers_below_def)

lemma numbers_below_numbered: "b \<le> n \<Longrightarrow> numbers_below n (numbered ps a b)"
  by (auto simp: numbers_below_def set_numbered)

lemma numbers_below_snoc: "numbers_below n (xs @ [(m, p)]) \<longleftrightarrow> numbers_below n xs \<and> m < n"
  by (auto simp: numbers_below_def)

lemma sender_do_wf:
  assumes "sender_wf sd" and "sender_do a sd = Some sd'"
  shows "sender_wf sd'"
proof (cases a)
  case (Produce p)
  with assms show ?thesis by (auto simp: sender_wf_def genuine_extend)
next
  case (Acked q)
  have "numbers_below (max (sd_sent sd) n) (sd_logs sd g)" if "sd_conn sd = Some g" for g n
  proof -
    from assms(1) that have "numbers_below (sd_sent sd) (sd_logs sd g)" by (simp add: sender_wf_def)
    then show ?thesis by (rule numbers_below_mono) simp
  qed
  with Acked assms show ?thesis
    by (auto simp: sender_wf_def split: if_splits)
next
  case Transmit
  with assms(2) obtain g where g: "sd_conn sd = Some g" "sd_sent sd \<le> length (sd_payloads sd)"
    by (auto split: option.splits if_splits)
  with assms(1) have below: "numbers_below (sd_sent sd) (sd_logs sd g)"
    and "genuine (sd_payloads sd) (sd_logs sd g)" and "1 \<le> sd_sent sd"
    by (auto simp: sender_wf_def)
  with g have "genuine (sd_payloads sd)
      (sd_logs sd g @ [(sd_sent sd, payload_at (sd_payloads sd) (sd_sent sd))])"
    by (intro genuine_snoc) auto
  moreover have "numbers_below (Suc (sd_sent sd)) (sd_logs sd g)"
    using below by (rule numbers_below_mono) simp
  ultimately show ?thesis
    using Transmit g assms by (auto simp: sender_wf_def numbers_below_snoc)
next
  case Detach
  with assms show ?thesis by (auto simp: sender_wf_def)
next
  case (Attach g k complete)
  with assms show ?thesis
    by (auto simp: sender_wf_def genuine_numbered numbers_below_numbered split: if_splits)
qed

lemma sender_run_wf: "sender_wf sd \<Longrightarrow> sender_run as sd = Some sd' \<Longrightarrow> sender_wf sd'"
  by (induction as arbitrary: sd) (auto split: option.splits intro: sender_do_wf)

section \<open>The receiver\<close>

record receiver =
  rc_expected :: nat
  rc_delivered :: "string list"
  rc_reading :: nat
  rc_position :: nat

fun receive :: "nat \<times> string \<Rightarrow> receiver \<Rightarrow> receiver option" where
  "receive (n, p) rc =
     (if rc_expected rc < n then None
      else if n = rc_expected rc
      then Some (rc\<lparr>rc_expected := Suc n, rc_delivered := rc_delivered rc @ [p],
                    rc_position := Suc (rc_position rc)\<rparr>)
      else Some (rc\<lparr>rc_position := Suc (rc_position rc)\<rparr>))"

section \<open>The link\<close>

text \<open>
  Acknowledgements reach the sender late, so any number below the expected one may
  arrive. The receiver may leave a connection at any point and go to another.
\<close>

datatype link_act = Snd sender_act | Switch nat | Read

fun link_do :: "link_act \<Rightarrow> sender \<times> receiver \<Rightarrow> (sender \<times> receiver) option" where
  "link_do (Snd a) (sd, rc) =
     (if (case a of Acked q \<Rightarrow> q < rc_expected rc | _ \<Rightarrow> True)
      then map_option (\<lambda>sd'. (sd', rc)) (sender_do a sd) else None)"
| "link_do (Switch g) (sd, rc) = Some (sd, rc\<lparr>rc_reading := g, rc_position := 0\<rparr>)"
| "link_do Read (sd, rc) =
     (if rc_position rc < length (sd_logs sd (rc_reading rc))
      then map_option (\<lambda>rc'. (sd, rc')) (receive (sd_logs sd (rc_reading rc) ! rc_position rc) rc)
      else None)"

definition log_ok :: "sender \<Rightarrow> receiver \<Rightarrow> nat \<Rightarrow> nat \<Rightarrow> bool" where
  "log_ok sd rc g a \<longleftrightarrow>
     1 \<le> a \<and> a \<le> rc_expected rc \<and> a + length (sd_logs sd g) \<le> Suc (length (sd_payloads sd)) \<and>
     sd_logs sd g = numbered (sd_payloads sd) a (a + length (sd_logs sd g)) \<and>
     (sd_conn sd \<noteq> None \<longrightarrow> a + length (sd_logs sd g) \<le> sd_sent sd) \<and>
     (sd_conn sd = Some g \<longrightarrow> a + length (sd_logs sd g) = sd_sent sd) \<and>
     (rc_reading rc = g \<longrightarrow> a + rc_position rc \<le> rc_expected rc)"

definition link_inv :: "sender \<times> receiver \<Rightarrow> bool" where
  "link_inv l = (case l of (sd, rc) \<Rightarrow>
     1 \<le> sd_first sd \<and> sd_first sd \<le> rc_expected rc \<and>
     rc_expected rc \<le> Suc (length (sd_payloads sd)) \<and>
     rc_delivered rc = take (rc_expected rc - 1) (sd_payloads sd) \<and>
     (sd_conn sd \<noteq> None \<longrightarrow> rc_expected rc \<le> sd_sent sd \<and> sd_sent sd \<le> Suc (length (sd_payloads sd))) \<and>
     rc_position rc \<le> length (sd_logs sd (rc_reading rc)) \<and>
     (\<forall>g. \<exists>a. log_ok sd rc g a))"

lemma link_invI:
  assumes "1 \<le> sd_first sd" and "sd_first sd \<le> rc_expected rc"
    and "rc_expected rc \<le> Suc (length (sd_payloads sd))"
    and "rc_delivered rc = take (rc_expected rc - 1) (sd_payloads sd)"
    and "sd_conn sd \<noteq> None \<Longrightarrow> rc_expected rc \<le> sd_sent sd \<and> sd_sent sd \<le> Suc (length (sd_payloads sd))"
    and "rc_position rc \<le> length (sd_logs sd (rc_reading rc))"
    and "\<forall>g. \<exists>a. log_ok sd rc g a"
  shows "link_inv (sd, rc)"
  using assms by (simp add: link_inv_def)

lemma link_inv_Snd:
  assumes inv: "link_inv (sd, rc)" and act: "link_do (Snd a) (sd, rc) = Some (sd', rc')"
  shows "link_inv (sd', rc')"
proof -
  from act have rc: "rc' = rc" and step: "sender_do a sd = Some sd'"
    and ack: "case a of Acked q \<Rightarrow> q < rc_expected rc | _ \<Rightarrow> True"
    by (auto split: if_splits)
  from inv have logs: "\<forall>g. \<exists>a. log_ok sd rc g a" by (simp add: link_inv_def)
  have inv': "1 \<le> sd_first sd" "sd_first sd \<le> rc_expected rc" "rc_expected rc \<le> Suc (length (sd_payloads sd))"
    "rc_delivered rc = take (rc_expected rc - 1) (sd_payloads sd)"
    "sd_conn sd \<noteq> None \<longrightarrow> rc_expected rc \<le> sd_sent sd \<and> sd_sent sd \<le> Suc (length (sd_payloads sd))"
    "rc_position rc \<le> length (sd_logs sd (rc_reading rc))"
    using inv by (simp_all add: link_inv_def)
  have logs': "\<forall>g. \<exists>a. log_ok sd' rc g a"
  proof
    fix g
    from logs obtain st where ok: "log_ok sd rc g st" by blast
    show "\<exists>a. log_ok sd' rc g a"
    proof (cases a)
      case (Produce p)
      with step ok have "log_ok sd' rc g st"
        by (auto simp: log_ok_def numbered_extend)
      then show ?thesis by blast
    next
      case (Acked q)
      with step have sd': "sd' = sd\<lparr>sd_first := max (sd_first sd) (Suc q), sd_sent := max (sd_sent sd) (Suc q)\<rparr>"
        by (auto split: if_splits)
      have "sd_conn sd \<noteq> None \<Longrightarrow> max (sd_sent sd) (Suc q) = sd_sent sd"
        using Acked ack inv'(5) by auto
      with ok have "log_ok sd' rc g st" by (auto simp: sd' log_ok_def)
      then show ?thesis by blast
    next
      case Transmit
      with step ok inv' have "log_ok sd' rc g st"
        by (auto simp: log_ok_def numbered_Suc split: option.splits if_splits)
      then show ?thesis by blast
    next
      case Detach
      with step ok have "log_ok sd' rc g st" by (auto simp: log_ok_def)
      then show ?thesis by blast
    next
      case (Attach h k complete)
      with step have sd': "sd' = sd\<lparr>sd_logs := (sd_logs sd)(h := numbered (sd_payloads sd) (sd_first sd) (sd_first sd + k)),
          sd_conn := (if complete then Some h else None), sd_sent := sd_first sd + k\<rparr>"
        and k: "sd_first sd + k \<le> Suc (length (sd_payloads sd))"
          "complete \<longrightarrow> sd_first sd + k = Suc (length (sd_payloads sd))" and h: "sd_logs sd h = []"
        by (auto split: if_splits)
      show ?thesis
      proof (cases "g = h")
        case True
        have "rc_reading rc = g \<Longrightarrow> rc_position rc = 0" using inv'(6) h True by simp
        then have "log_ok sd' rc g (sd_first sd)"
          using True k inv'(1,2) by (simp add: sd' log_ok_def)
        then show ?thesis by blast
      next
        case False
        with ok k have "log_ok sd' rc g st" by (simp add: sd' log_ok_def)
        then show ?thesis by blast
      qed
    qed
  qed
  show ?thesis
    unfolding rc
  proof (cases a)
    case (Produce p)
    show "link_inv (sd', rc)"
      by (intro link_invI logs') (use Produce step inv' in \<open>auto\<close>)
  next
    case (Acked q)
    show "link_inv (sd', rc)"
      by (intro link_invI logs') (use Acked step ack inv' in \<open>auto split: if_splits\<close>)
  next
    case Transmit
    show "link_inv (sd', rc)"
      by (intro link_invI logs') (use Transmit step inv' in \<open>auto split: option.splits if_splits\<close>)
  next
    case Detach
    show "link_inv (sd', rc)"
      by (intro link_invI logs') (use Detach step inv' in \<open>auto\<close>)
  next
    case (Attach g k complete)
    with step have sd': "sd' = sd\<lparr>sd_logs := (sd_logs sd)(g := numbered (sd_payloads sd) (sd_first sd) (sd_first sd + k)),
        sd_conn := (if complete then Some g else None), sd_sent := sd_first sd + k\<rparr>"
      and k: "sd_first sd + k \<le> Suc (length (sd_payloads sd))"
        "complete \<longrightarrow> sd_first sd + k = Suc (length (sd_payloads sd))" and g: "sd_logs sd g = []"
      by (auto split: if_splits)
    show "link_inv (sd', rc)"
      by (intro link_invI logs') (use k g inv' in \<open>auto simp: sd' split: if_splits\<close>)
  qed
qed

text \<open>A run of the sender in which only numbers below the expected one are acknowledged.\<close>

lemma link_inv_run:
  assumes "link_inv (sd, rc)" and "sender_run acts sd = Some sd'" and "acks_in A acts"
    and "\<And>q. q \<in> A \<Longrightarrow> q < rc_expected rc"
  shows "link_inv (sd', rc)"
  using assms
proof (induction acts arbitrary: sd)
  case Nil
  then show ?case by simp
next
  case (Cons a acts)
  then obtain sd1 where a: "sender_do a sd = Some sd1" and rest: "sender_run acts sd1 = Some sd'"
    by (auto split: option.splits)
  have "link_do (Snd a) (sd, rc) = Some (sd1, rc)"
    using a Cons.prems(3,4) by (cases a) (auto simp: acks_in_def)
  then have "link_inv (sd1, rc)" using Cons.prems(1) link_inv_Snd by blast
  with Cons.IH rest Cons.prems(3,4) show ?case by (auto simp: acks_in_def)
qed

text \<open>The place of the receiver in what it reads is only an upper bound.\<close>

lemma link_inv_back:
  assumes "link_inv (sd, rc)" and "k \<le> rc_position rc"
  shows "link_inv (sd, rc\<lparr>rc_position := k\<rparr>)"
proof -
  have "\<exists>a. log_ok sd (rc\<lparr>rc_position := k\<rparr>) h a" for h
  proof -
    from assms obtain a where "log_ok sd rc h a" by (auto simp: link_inv_def)
    then have "log_ok sd (rc\<lparr>rc_position := k\<rparr>) h a" using assms(2) by (auto simp: log_ok_def)
    then show ?thesis by blast
  qed
  with assms show ?thesis by (simp add: link_inv_def)
qed

lemma link_inv_Switch:
  assumes "link_inv (sd, rc)"
  shows "link_inv (sd, rc\<lparr>rc_reading := g, rc_position := 0\<rparr>)"
proof -
  let ?rc = "rc\<lparr>rc_reading := g, rc_position := 0\<rparr>"
  have "\<exists>a. log_ok sd ?rc h a" for h
  proof -
    from assms obtain a where "log_ok sd rc h a" by (auto simp: link_inv_def)
    then have "log_ok sd ?rc h a" by (simp add: log_ok_def)
    then show ?thesis by blast
  qed
  with assms show ?thesis by (simp add: link_inv_def)
qed

lemma take_payload_at:
  "1 \<le> n \<Longrightarrow> n \<le> length ps \<Longrightarrow> take (n - 1) ps @ [payload_at ps n] = take n ps"
  by (cases n) (auto simp: payload_at_def take_Suc_nth)

text \<open>What the receiver reads next is never past the expected number.\<close>

lemma link_next_frame:
  assumes "link_inv (sd, rc)" and "rc_position rc < length (sd_logs sd (rc_reading rc))"
  obtains n where "sd_logs sd (rc_reading rc) ! rc_position rc = (n, payload_at (sd_payloads sd) n)"
    and "1 \<le> n" and "n \<le> rc_expected rc" and "n \<le> length (sd_payloads sd)"
    and "sd_conn sd \<noteq> None \<Longrightarrow> n < sd_sent sd"
proof -
  from assms(1) obtain a where a: "log_ok sd rc (rc_reading rc) a"
    by (auto simp: link_inv_def)
  let ?n = "a + rc_position rc" and ?log = "sd_logs sd (rc_reading rc)"
  from a have "?log = numbered (sd_payloads sd) a (a + length ?log)"
    by (simp add: log_ok_def)
  then have "?log ! rc_position rc = numbered (sd_payloads sd) a (a + length ?log) ! rc_position rc"
    by simp
  also have "\<dots> = (?n, payload_at (sd_payloads sd) ?n)"
    using assms(2) by (simp add: numbered_def)
  finally show ?thesis
    using a assms(2) by (intro that [of ?n]) (auto simp: log_ok_def)
qed

lemma link_inv_Read:
  assumes inv: "link_inv (sd, rc)" and act: "link_do Read (sd, rc) = Some (sd', rc')"
  shows "link_inv (sd', rc')"
proof -
  from act have pos: "rc_position rc < length (sd_logs sd (rc_reading rc))" and sd: "sd' = sd"
    and rc: "receive (sd_logs sd (rc_reading rc) ! rc_position rc) rc = Some rc'"
    by (auto split: if_splits)
  obtain n where n: "sd_logs sd (rc_reading rc) ! rc_position rc = (n, payload_at (sd_payloads sd) n)"
    "1 \<le> n" "n \<le> rc_expected rc" "n \<le> length (sd_payloads sd)" "sd_conn sd \<noteq> None \<Longrightarrow> n < sd_sent sd"
    using link_next_frame [OF inv pos] by blast
  have frame: "n = a + rc_position rc" if "log_ok sd rc (rc_reading rc) a" for a
  proof -
    let ?log = "sd_logs sd (rc_reading rc)"
    from that have "?log = numbered (sd_payloads sd) a (a + length ?log)"
      by (simp add: log_ok_def)
    then have "?log ! rc_position rc = numbered (sd_payloads sd) a (a + length ?log) ! rc_position rc"
      by simp
    with n(1) pos show ?thesis by (simp add: numbered_def)
  qed
  have logs': "\<forall>g. \<exists>a. log_ok sd rc' g a"
  proof
    fix g
    from inv obtain a where a: "log_ok sd rc g a" by (auto simp: link_inv_def)
    have "log_ok sd rc' g a"
      using a rc n frame [of a] by (auto simp: log_ok_def split: if_splits)
    then show "\<exists>a. log_ok sd rc' g a" by blast
  qed
  have "rc_delivered rc' = take (rc_expected rc' - 1) (sd_payloads sd)"
    using inv rc n take_payload_at [of "rc_expected rc" "sd_payloads sd"]
    by (auto simp: link_inv_def split: if_splits)
  moreover have "sd_conn sd \<noteq> None \<Longrightarrow> rc_expected rc' \<le> sd_sent sd \<and> sd_sent sd \<le> Suc (length (sd_payloads sd))"
    using inv rc n by (auto simp: link_inv_def Suc_le_eq split: if_splits)
  moreover have "1 \<le> sd_first sd" "sd_first sd \<le> rc_expected rc'" "rc_expected rc' \<le> Suc (length (sd_payloads sd))"
    "rc_position rc' \<le> length (sd_logs sd (rc_reading rc'))"
    using inv rc n pos by (auto simp: link_inv_def split: if_splits)
  ultimately show ?thesis
    using logs' unfolding sd by (intro link_invI)
qed

lemma link_do_inv: "link_inv l \<Longrightarrow> link_do a l = Some l' \<Longrightarrow> link_inv l'"
  by (cases l; cases l'; cases a) (auto intro: link_inv_Snd link_inv_Switch link_inv_Read)

inductive link_reach :: "sender \<times> receiver \<Rightarrow> sender \<times> receiver \<Rightarrow> bool" for l0 where
  link_reach_refl: "link_reach l0 l0"
| link_reach_step: "link_reach l0 l \<Longrightarrow> link_do a l = Some l' \<Longrightarrow> link_reach l0 l'"

lemma link_reach_inv: "link_reach l0 l \<Longrightarrow> link_inv l0 \<Longrightarrow> link_inv l"
  by (induction rule: link_reach.induct) (auto intro: link_do_inv)

text \<open>A reader with a frame before it can always read: no gap ever shows.\<close>

lemma link_no_gap:
  assumes "link_inv (sd, rc)" and "rc_position rc < length (sd_logs sd (rc_reading rc))"
  shows "\<exists>l'. link_do Read (sd, rc) = Some l'"
proof -
  obtain n where "sd_logs sd (rc_reading rc) ! rc_position rc = (n, payload_at (sd_payloads sd) n)"
    "n \<le> rc_expected rc" using link_next_frame [OF assms] by blast
  with assms(2) show ?thesis by auto
qed

definition initial_link :: "sender \<times> receiver" where
  "initial_link =
     (\<lparr>sd_payloads = [], sd_first = 1, sd_conn = None, sd_sent = 1, sd_logs = (\<lambda>_. [])\<rparr>,
      \<lparr>rc_expected = 1, rc_delivered = [], rc_reading = 0, rc_position = 0\<rparr>)"

lemma initial_link_inv: "link_inv initial_link"
  by (auto simp: initial_link_def link_inv_def log_ok_def intro: exI [of _ 1])

end
