(* ===== verification/Acp_Session_Inv.thy ===== *)
theory Acp_Session_Inv
  imports Acp_Session Acp_Link
begin

text \<open>
  Facts about one turn of the session loop: the server's replay buffer implements
  \<open>replay_queue\<close>, every turn keeps the session invariant (consecutive sequence numbers,
  exact byte count, the configured limits, the frames sent on the current transport a
  prefix of the buffer), and what a turn adds to the commands of a transport.
\<close>

section \<open>The buffer is a replay queue\<close>

definition frame_view :: "replay_frame \<Rightarrow> u64 \<times> string" where
  "frame_view f = (rf_sequence f, rf_payload f)"

lemma frame_view_sent [simp]: "frame_view (f\<lparr>rf_last_sent_generation := g\<rparr>) = frame_view f"
  by (simp add: frame_view_def)

lemma pop_acknowledged_view:
  "map frame_view (fst (pop_acknowledged q (fs, b))) = dropWhile (\<lambda>f. fst f \<le> q) (map frame_view fs)"
  by (induction fs arbitrary: b) (auto simp: frame_view_def)

lemma pop_acknowledged_bytes:
  "snd (pop_acknowledged q (fs, b))
   = b - payload_bytes (takeWhile (\<lambda>f. fst f \<le> q) (map frame_view fs))"
  by (induction fs arbitrary: b) (auto simp: frame_view_def saturating_sub_def)

interpretation server_queue: replay_queue frame_view push_frame pop_acknowledged
  by unfold_locales
     (auto simp: push_frame_def frame_view_def checked_add_def pop_acknowledged_view
       pop_acknowledged_bytes split: option.splits if_splits)

lemma pop_acknowledged_suffix: "\<exists>n. fst (pop_acknowledged q (fs, b)) = drop n fs"
proof (induction fs arbitrary: b)
  case Nil
  show ?case by simp
next
  case (Cons f fs)
  obtain n where "fst (pop_acknowledged q (fs, saturating_sub b (length (rf_payload f)))) = drop n fs"
    using Cons.IH by blast
  then have "fst (pop_acknowledged q (f # fs, b)) = drop (if rf_sequence f \<le> q then Suc n else 0) (f # fs)"
    by simp
  then show ?case by blast
qed

section \<open>The frames sent on a transport\<close>

text \<open>
  The frames marked with a generation come first. The rest is what the pump has still
  to send on that transport.
\<close>

definition sent_prefix :: "u64 \<Rightarrow> replay_frame list \<Rightarrow> bool" where
  "sent_prefix gen fs \<longleftrightarrow>
     (\<exists>n. (\<forall>f\<in>set (take n fs). rf_last_sent_generation f = gen) \<and>
          (\<forall>f\<in>set (drop n fs). rf_last_sent_generation f \<noteq> gen))"

definition unsent :: "u64 \<Rightarrow> replay_frame list \<Rightarrow> replay_frame list" where
  "unsent gen fs = filter (\<lambda>f. rf_last_sent_generation f \<noteq> gen) fs"

lemma sent_prefix_Nil [simp]: "sent_prefix gen []"
  by (simp add: sent_prefix_def)

lemma sent_prefix_Cons:
  "sent_prefix gen (f # fs) \<longleftrightarrow>
     (if rf_last_sent_generation f = gen then sent_prefix gen fs
      else \<forall>g\<in>set fs. rf_last_sent_generation g \<noteq> gen)"
proof (cases "rf_last_sent_generation f = gen")
  case True
  show ?thesis
  proof
    assume "sent_prefix gen (f # fs)"
    then obtain n where n: "\<forall>f\<in>set (take n (f # fs)). rf_last_sent_generation f = gen"
      "\<forall>f\<in>set (drop n (f # fs)). rf_last_sent_generation f \<noteq> gen" by (auto simp: sent_prefix_def)
    with True have "n \<noteq> 0" by (cases n) auto
    with n True show "if rf_last_sent_generation f = gen then sent_prefix gen fs
      else \<forall>g\<in>set fs. rf_last_sent_generation g \<noteq> gen"
      by (cases n) (auto simp: sent_prefix_def)
  next
    assume "if rf_last_sent_generation f = gen then sent_prefix gen fs
      else \<forall>g\<in>set fs. rf_last_sent_generation g \<noteq> gen"
    then obtain n where "\<forall>f\<in>set (take n fs). rf_last_sent_generation f = gen"
      "\<forall>f\<in>set (drop n fs). rf_last_sent_generation f \<noteq> gen"
      using True by (auto simp: sent_prefix_def)
    with True show "sent_prefix gen (f # fs)"
      unfolding sent_prefix_def by (intro exI [of _ "Suc n"]) auto
  qed
next
  case False
  then show ?thesis
  proof -
    have "sent_prefix gen (f # fs) \<Longrightarrow> \<forall>g\<in>set fs. rf_last_sent_generation g \<noteq> gen"
      unfolding sent_prefix_def using False by (auto simp: take_Cons' drop_Cons' split: if_splits)
    moreover have "\<forall>g\<in>set fs. rf_last_sent_generation g \<noteq> gen \<Longrightarrow> sent_prefix gen (f # fs)"
      unfolding sent_prefix_def using False by (intro exI [of _ 0]) auto
    ultimately show ?thesis using False by auto
  qed
qed

lemma sent_prefix_none: "\<forall>f\<in>set fs. rf_last_sent_generation f \<noteq> gen \<Longrightarrow> sent_prefix gen fs"
  by (induction fs) (auto simp: sent_prefix_Cons)

lemma sent_prefix_drop: "sent_prefix gen fs \<Longrightarrow> sent_prefix gen (drop n fs)"
proof (induction fs arbitrary: n)
  case Nil
  then show ?case by simp
next
  case (Cons f fs)
  show ?case
  proof (cases n)
    case 0
    with Cons.prems show ?thesis by simp
  next
    case (Suc m)
    have "sent_prefix gen fs"
      using Cons.prems sent_prefix_none by (auto simp: sent_prefix_Cons split: if_splits)
    with Cons.IH Suc show ?thesis by simp
  qed
qed

lemma sent_prefix_snoc:
  "sent_prefix gen fs \<Longrightarrow> rf_last_sent_generation f \<noteq> gen \<Longrightarrow> sent_prefix gen (fs @ [f])"
  by (induction fs) (auto simp: sent_prefix_Cons)

text \<open>
  With a prefix sent, the unsent frames are a suffix; in numbers: the sent ones end where
  the unsent ones begin.
\<close>

lemma sent_prefix_split:
  assumes "sent_prefix gen fs"
  shows "fs = filter (\<lambda>f. rf_last_sent_generation f = gen) fs @ unsent gen fs"
  using assms by (induction fs) (auto simp: sent_prefix_Cons unsent_def filter_empty_conv)

section \<open>The pump\<close>

lemma pump_replay_view:
  "pump_replay answers n gen fs = (fs', cs, ok) \<Longrightarrow> map frame_view fs' = map frame_view fs"
  by (induction fs arbitrary: n fs' cs)
     (auto split: if_splits try_send_result.splits prod.splits)

lemma pump_replay_generation:
  "pump_replay answers n gen fs = (fs', cs, ok) \<Longrightarrow> f \<in> set fs' \<Longrightarrow>
     rf_last_sent_generation f = gen \<or> f \<in> set fs"
  by (induction fs arbitrary: n fs' cs)
     (fastforce split: if_splits try_send_result.splits prod.splits)+

text \<open>
  With the frames sent so far a prefix, the pump sends the next unsent frames in order
  and leaves a longer prefix.
\<close>

lemma pump_replay_all_unsent:
  "\<forall>f\<in>set fs. rf_last_sent_generation f \<noteq> gen \<Longrightarrow> pump_replay answers n gen fs = (fs', cs, ok) \<Longrightarrow>
     sent_prefix gen fs' \<and> map acp_of fs = cs @ map acp_of (unsent gen fs')"
proof (induction fs arbitrary: n fs' cs ok)
  case Nil
  then show ?case by (auto simp: unsent_def)
next
  case (Cons f fs)
  then have ne: "rf_last_sent_generation f \<noteq> gen" by simp
  show ?case
  proof (cases "answers n")
    case TrySent
    obtain fs1 cs1 ok1 where rec: "pump_replay answers (Suc n) gen fs = (fs1, cs1, ok1)"
      by (cases "pump_replay answers (Suc n) gen fs") auto
    from Cons.IH [OF _ rec] Cons.prems(1)
    have "sent_prefix gen fs1" "map acp_of fs = cs1 @ map acp_of (unsent gen fs1)" by auto
    with Cons.prems(2) ne TrySent rec show ?thesis
      by (auto simp: sent_prefix_Cons unsent_def)
  next
    case TryFull
    with Cons.prems ne show ?thesis by (auto simp: unsent_def sent_prefix_Cons)
  next
    case TryClosed
    with Cons.prems ne show ?thesis by (auto simp: unsent_def sent_prefix_Cons)
  qed
qed

lemma pump_replay_sent:
  assumes "sent_prefix gen fs" and "pump_replay answers n gen fs = (fs', cs, ok)"
  shows "sent_prefix gen fs'" and "map acp_of (unsent gen fs) = cs @ map acp_of (unsent gen fs')"
proof -
  have "sent_prefix gen fs' \<and> map acp_of (unsent gen fs) = cs @ map acp_of (unsent gen fs')"
    using assms
  proof (induction fs arbitrary: n fs' cs ok)
    case Nil
    then show ?case by (auto simp: unsent_def)
  next
    case (Cons f fs)
    show ?case
    proof (cases "rf_last_sent_generation f = gen")
      case True
      obtain fs1 cs1 ok1 where rec: "pump_replay answers n gen fs = (fs1, cs1, ok1)"
        by (cases "pump_replay answers n gen fs") auto
      have "sent_prefix gen fs" using Cons.prems(1) True by (simp add: sent_prefix_Cons)
      from Cons.IH [OF this rec] Cons.prems(2) True rec show ?thesis
        by (auto simp: sent_prefix_Cons unsent_def)
    next
      case False
      with Cons.prems(1) have none: "\<forall>g\<in>set (f # fs). rf_last_sent_generation g \<noteq> gen"
        by (auto simp: sent_prefix_Cons)
      then have "unsent gen (f # fs) = f # fs" by (simp add: unsent_def)
      with pump_replay_all_unsent [OF none Cons.prems(2)] show ?thesis by simp
    qed
  qed
  then show "sent_prefix gen fs'" and "map acp_of (unsent gen fs) = cs @ map acp_of (unsent gen fs')"
    by auto
qed

section \<open>The setup of a transport\<close>

lemma setup_frames_facts:
  assumes "setup_frames answers n gen fs = (fs', cs, r)"
  shows "map frame_view fs' = map frame_view fs"
    and "\<exists>k. cs = map acp_of (take k fs)"
    and "r = Inr () \<Longrightarrow> cs = map acp_of fs \<and> (\<forall>f\<in>set fs'. rf_last_sent_generation f = gen)"
    and "\<forall>f\<in>set fs'. rf_last_sent_generation f = gen \<or> f \<in> set fs"
proof -
  have "map frame_view fs' = map frame_view fs \<and> (\<exists>k. cs = map acp_of (take k fs)) \<and>
    (r = Inr () \<longrightarrow> cs = map acp_of fs \<and> (\<forall>f\<in>set fs'. rf_last_sent_generation f = gen)) \<and>
    (\<forall>f\<in>set fs'. rf_last_sent_generation f = gen \<or> f \<in> set fs)"
    using assms
  proof (induction fs arbitrary: n fs' cs)
    case Nil
    then show ?case by simp
  next
    case (Cons f fs)
    show ?case
    proof (cases "answers n")
      case SetupSent
      obtain fs1 cs1 r1 where rec: "setup_frames answers (Suc n) gen fs = (fs1, cs1, r1)"
        by (cases "setup_frames answers (Suc n) gen fs") auto
      from Cons.prems SetupSent rec have eqs: "fs' = f\<lparr>rf_last_sent_generation := gen\<rparr> # fs1"
        "cs = acp_of f # cs1" "r = r1" by auto
      have IH: "map frame_view fs1 = map frame_view fs" "\<exists>k. cs1 = map acp_of (take k fs)"
        "r1 = Inr () \<longrightarrow> cs1 = map acp_of fs \<and> (\<forall>f\<in>set fs1. rf_last_sent_generation f = gen)"
        "\<forall>f\<in>set fs1. rf_last_sent_generation f = gen \<or> f \<in> set fs"
        using Cons.IH [of "Suc n" fs1 cs1] Cons.prems rec eqs(3) by auto
      from IH(2) obtain k where "cs1 = map acp_of (take k fs)" by blast
      then have "cs = map acp_of (take (Suc k) (f # fs))" using eqs by simp
      then have "\<exists>k. cs = map acp_of (take k (f # fs))" by (rule exI)
      then show ?thesis using IH(1,3,4) eqs by simp blast
    next
      case SetupClosed
      with Cons.prems show ?thesis by (auto intro: exI [of _ 0])
    next
      case SetupElapsed
      with Cons.prems show ?thesis by (auto intro: exI [of _ 0])
    qed
  qed
  then show "map frame_view fs' = map frame_view fs"
    and "\<exists>k. cs = map acp_of (take k fs)"
    and "r = Inr () \<Longrightarrow> cs = map acp_of fs \<and> (\<forall>f\<in>set fs'. rf_last_sent_generation f = gen)"
    and "\<forall>f\<in>set fs'. rf_last_sent_generation f = gen \<or> f \<in> set fs"
    by auto
qed

lemma setup_frames_sent:
  "\<forall>f\<in>set fs. rf_last_sent_generation f \<noteq> gen \<Longrightarrow> setup_frames answers n gen fs = (fs', cs, r) \<Longrightarrow>
     sent_prefix gen fs' \<and> map acp_of fs = cs @ map acp_of (unsent gen fs')"
proof (induction fs arbitrary: n fs' cs r)
  case Nil
  then show ?case by (auto simp: unsent_def)
next
  case (Cons f fs)
  then have ne: "rf_last_sent_generation f \<noteq> gen" by simp
  show ?case
  proof (cases "answers n")
    case SetupSent
    obtain fs1 cs1 r1 where rec: "setup_frames answers (Suc n) gen fs = (fs1, cs1, r1)"
      by (cases "setup_frames answers (Suc n) gen fs") auto
    from Cons.IH [OF _ rec] Cons.prems(1)
    have "sent_prefix gen fs1" "map acp_of fs = cs1 @ map acp_of (unsent gen fs1)" by auto
    with Cons.prems(2) ne SetupSent rec show ?thesis
      by (auto simp: sent_prefix_Cons unsent_def)
  next
    case SetupClosed
    with Cons.prems ne show ?thesis by (auto simp: unsent_def sent_prefix_Cons)
  next
    case SetupElapsed
    with Cons.prems ne show ?thesis by (auto simp: unsent_def sent_prefix_Cons)
  qed
qed

section \<open>The session as an abstract sender\<close>

fun command_envelope :: "transport_command \<Rightarrow> envelope" where
  "command_envelope (CmdEnvelope e) = e"
| "command_envelope (CmdExit e) = e"
| "command_envelope (CmdShutdownComplete e) = e"

definition acp_frame :: "transport_command \<Rightarrow> (u64 \<times> string) option" where
  [simp]: "acp_frame c = env_frame (command_envelope c)"

definition acp_stream :: "u64 \<Rightarrow> (u64 \<times> transport_command) list \<Rightarrow> (u64 \<times> string) list" where
  "acp_stream g cmds = List.map_filter (\<lambda>(h, c). if h = g then acp_frame c else None) cmds"

lemma acp_stream_append [simp]: "acp_stream g (xs @ ys) = acp_stream g xs @ acp_stream g ys"
  by (simp add: acp_stream_def List.map_filter_def)

lemma acp_stream_Nil [simp]: "acp_stream g [] = []"
  by (simp add: acp_stream_def List.map_filter_def)

lemma acp_stream_other [simp]: "acp_frame c = None \<Longrightarrow> acp_stream g [(h, c)] = []"
  by (simp add: acp_stream_def List.map_filter_def)

lemma acp_stream_frames [simp]:
  "acp_stream g (map (\<lambda>c. (h, c)) (map acp_of fs)) = (if h = g then map frame_view fs else [])"
  by (induction fs) (auto simp: acp_stream_def List.map_filter_def acp_of_def frame_view_def)

lemma acp_stream_beyond: "\<forall>x\<in>set cmds. fst x < g \<Longrightarrow> acp_stream g cmds = []"
  by (induction cmds) (auto simp: acp_stream_def List.map_filter_def)

definition first_retained :: "session \<Rightarrow> nat" where
  "first_retained s = next_server_sequence s - length (pending s)"

definition server_sender :: "session \<Rightarrow> sender" where
  "server_sender s =
     \<lparr>sd_payloads = queued s, sd_first = first_retained s, sd_conn = transport s,
      sd_sent = next_server_sequence s - length (unsent (generation s) (pending s)),
      sd_logs = (\<lambda>g. acp_stream g (commands s))\<rparr>"

text \<open>A run of the sender; the commands already accepted stay as they are.\<close>

definition refines_by :: "session \<Rightarrow> sender_act list \<Rightarrow> session \<Rightarrow> bool" where
  "refines_by s acts s' \<longleftrightarrow>
     sender_run acts (server_sender s) = Some (server_sender s') \<and> (\<exists>cs. commands s' = commands s @ cs)"

lemma refines_by_refl:
  "server_sender s' = server_sender s \<Longrightarrow> commands s' = commands s @ cs \<Longrightarrow> refines_by s [] s'"
  by (simp add: refines_by_def)

lemma refines_by_trans: "refines_by s as s1 \<Longrightarrow> refines_by s1 bs s2 \<Longrightarrow> refines_by s (as @ bs) s2"
  unfolding refines_by_def using sender_run_trans by fastforce

section \<open>The invariant\<close>

definition buffer_inv :: "server_config \<Rightarrow> session \<Rightarrow> bool" where
  "buffer_inv config s \<longleftrightarrow>
     retains (queued s) (first_retained s) (map frame_view (pending s)) (pending_bytes s)
       (next_server_sequence s) \<and>
     next_server_sequence s \<le> u64_max \<and>
     length (pending s) \<le> max_replay_frames config \<and> pending_bytes s \<le> max_replay_bytes config"

definition transport_inv :: "session \<Rightarrow> bool" where
  "transport_inv s \<longleftrightarrow>
     1 \<le> generation s \<and> (\<forall>g. transport s = Some g \<longrightarrow> g = generation s) \<and>
     (\<forall>f\<in>set (pending s). rf_last_sent_generation f \<le> generation s) \<and>
     sent_prefix (generation s) (pending s) \<and>
     (\<forall>x\<in>set (commands s). fst x \<le> generation s)"

text \<open>The lines the policy lets through, of the payloads the connector sent.\<close>

definition forwarded :: "session_context \<Rightarrow> string list \<Rightarrow> string list" where
  "forwarded cx ps =
     List.map_filter (\<lambda>p. case policy_apply (cx_env cx) (cx_policy cx) p of
        Inr (Forward line) \<Rightarrow> Some line | _ \<Rightarrow> None) ps"

text \<open>The acknowledgements sent to the connector are of payloads that were processed.\<close>

definition ack_below :: "nat \<Rightarrow> transport_command \<Rightarrow> bool" where
  "ack_below n c \<longleftrightarrow> (\<forall>q. command_envelope c = Ack ClientToServer q \<longrightarrow> q < n)"

definition plain_command :: "nat \<Rightarrow> transport_command \<Rightarrow> bool" where
  "plain_command n c \<longleftrightarrow> acp_frame c = None \<and> ack_below n c"

lemma ack_below_mono: "ack_below m c \<Longrightarrow> m \<le> n \<Longrightarrow> ack_below n c"
  by (auto simp: ack_below_def)

lemma ack_below_acp_of [simp]: "ack_below n (acp_of f)"
  by (simp add: ack_below_def acp_of_def)

definition acks_below :: "nat \<Rightarrow> (u64 \<times> transport_command) list \<Rightarrow> bool" where
  "acks_below n cmds = list_all (\<lambda>x. ack_below n (snd x)) cmds"

lemma acks_below_simps [simp]:
  "acks_below n []" "acks_below n (xs @ ys) \<longleftrightarrow> acks_below n xs \<and> acks_below n ys"
  "acks_below n (map (\<lambda>c. (g, c)) cs) = list_all (ack_below n) cs"
  by (simp_all add: acks_below_def list.pred_map o_def)

lemma acks_below_mono: "acks_below m cmds \<Longrightarrow> m \<le> n \<Longrightarrow> acks_below n cmds"
  unfolding acks_below_def by (erule list.pred_mono_strong) (auto intro: ack_below_mono)

definition client_inv :: "session_context \<Rightarrow> session \<Rightarrow> bool" where
  "client_inv cx s \<longleftrightarrow>
     expected_client_sequence s = Suc (length (consumed s)) \<and>
     expected_client_sequence s \<le> u64_max \<and> agent_stdin s = forwarded cx (consumed s) \<and>
     acks_below (Suc (length (consumed s))) (commands s)"

definition session_inv :: "session_context \<Rightarrow> session \<Rightarrow> bool" where
  "session_inv cx s \<longleftrightarrow> buffer_inv (cx_config cx) s \<and> transport_inv s \<and> client_inv cx s"

text \<open>The limits the configuration is validated for, and that a byte count can reach.\<close>

definition replay_limits :: "server_config \<Rightarrow> bool" where
  "replay_limits config \<longleftrightarrow>
     max_frame_bytes config \<le> max_replay_bytes config \<and> max_replay_bytes config < u64_max"

lemmas session_inv_defs = session_inv_def buffer_inv_def transport_inv_def client_inv_def

text \<open>Operations that leave the buffer, the transport and the client's stream alone.\<close>

definition same_core :: "session \<Rightarrow> session \<Rightarrow> bool" where
  "same_core s s' \<longleftrightarrow>
     pending s' = pending s \<and> pending_bytes s' = pending_bytes s \<and>
     next_server_sequence s' = next_server_sequence s \<and> queued s' = queued s \<and>
     generation s' = generation s \<and> transport s' = transport s \<and>
     expected_client_sequence s' = expected_client_sequence s \<and> consumed s' = consumed s \<and>
     agent_stdin s' = agent_stdin s \<and>
     (\<exists>cs. commands s' = commands s @ cs \<and>
        (\<forall>x\<in>set cs. Some (fst x) = transport s \<and> plain_command (expected_client_sequence s) (snd x)))"

lemma same_core_sender: "same_core s s' \<Longrightarrow> server_sender s' = server_sender s"
proof -
  have silent: "acp_stream g cs = []" if "\<forall>x\<in>set cs. acp_frame (snd x) = None" for g cs
    using that by (induction cs) (auto simp: acp_stream_def List.map_filter_def split: if_splits)
  assume "same_core s s'"
  then show ?thesis
    by (auto simp: same_core_def server_sender_def first_retained_def plain_command_def silent simp del: acp_frame_def)
qed

lemma same_core_inv: "same_core s s' \<Longrightarrow> session_inv cx s \<Longrightarrow> session_inv cx s'"
proof -
  assume same: "same_core s s'" and inv: "session_inv cx s"
  have "buffer_inv (cx_config cx) s'"
    using same inv by (simp add: same_core_def session_inv_def buffer_inv_def first_retained_def)
  moreover have "client_inv cx s'"
  proof -
    from same obtain cs where cs: "commands s' = commands s @ cs"
      "\<forall>x\<in>set cs. plain_command (expected_client_sequence s) (snd x)" by (auto simp: same_core_def)
    then have "acks_below (expected_client_sequence s) cs"
      by (simp add: acks_below_def list_all_iff plain_command_def)
    with cs(1) same inv show ?thesis by (simp add: same_core_def session_inv_def client_inv_def)
  qed
  moreover have "\<forall>x\<in>set (commands s'). fst x \<le> generation s'"
  proof -
    from same obtain cs where "commands s' = commands s @ cs" "\<forall>x\<in>set cs. Some (fst x) = transport s"
      "generation s' = generation s" by (auto simp: same_core_def)
    moreover have "fst x \<le> generation s" if "Some (fst x) = transport s" for x :: "u64 \<times> transport_command"
      using that inv by (metis session_inv_def transport_inv_def order_refl)
    moreover have "\<forall>x\<in>set (commands s). fst x \<le> generation s"
      using inv by (simp add: session_inv_def transport_inv_def)
    ultimately show ?thesis by auto
  qed
  then have "transport_inv s'"
    using same inv by (simp add: same_core_def session_inv_def transport_inv_def)
  ultimately show ?thesis by (simp add: session_inv_def)
qed

end
