(* ===== verification/Acp_Session_Refine.thy ===== *)
theory Acp_Session_Refine
  imports Acp_Session_Inv
begin

text \<open>
  Every turn of the session loop keeps the session invariant and is, for the sequence
  numbers, a run of the abstract sender of \<open>Acp_Link\<close>: one lemma per operation of the
  loop, put together in \<open>iteration_refines\<close>.
\<close>

section \<open>Abstract runs\<close>

lemma sender_run_transmit:
  assumes "sd_conn sd = Some g" and "sd_sent sd + k \<le> Suc (length (sd_payloads sd))"
  shows "sender_run (replicate k Transmit) sd =
    Some (sd\<lparr>sd_logs := (sd_logs sd)(g := sd_logs sd g @ numbered (sd_payloads sd) (sd_sent sd) (sd_sent sd + k)),
             sd_sent := sd_sent sd + k\<rparr>)"
  using assms
proof (induction k arbitrary: sd)
  case 0
  then show ?case by simp
next
  case (Suc k)
  let ?sd = "sd\<lparr>sd_logs := (sd_logs sd)(g := sd_logs sd g @
      [(sd_sent sd, payload_at (sd_payloads sd) (sd_sent sd))]), sd_sent := Suc (sd_sent sd)\<rparr>"
  have "sender_do Transmit sd = Some ?sd" using Suc.prems by simp
  moreover have "sender_run (replicate k Transmit) ?sd =
    Some (?sd\<lparr>sd_logs := (sd_logs ?sd)(g := sd_logs ?sd g @
        numbered (sd_payloads ?sd) (sd_sent ?sd) (sd_sent ?sd + k)), sd_sent := sd_sent ?sd + k\<rparr>)"
    using Suc.prems by (intro Suc.IH) auto
  ultimately show ?case by (simp add: numbered_Cons [of "sd_sent sd"] fun_upd_def cong: if_cong)
qed

section \<open>The frames still to be sent\<close>

lemma length_unsent_drop:
  assumes "sent_prefix gen fs"
  shows "length (unsent gen (drop n fs)) = min (length (unsent gen fs)) (length fs - n)"
proof -
  let ?A = "filter (\<lambda>f. rf_last_sent_generation f = gen) fs" and ?U = "unsent gen fs"
  have split: "fs = ?A @ ?U" using assms by (rule sent_prefix_split)
  have "unsent gen (drop n fs) = unsent gen (drop n ?A) @ unsent gen (drop (n - length ?A) ?U)"
    by (subst split) (simp add: unsent_def)
  also have "unsent gen (drop n ?A) = []"
    by (auto simp: unsent_def filter_empty_conv dest: in_set_dropD)
  also have "unsent gen (drop (n - length ?A) ?U) = drop (n - length ?A) ?U"
    by (auto simp: unsent_def filter_id_conv dest: in_set_dropD)
  finally have "length (unsent gen (drop n fs)) = length ?U - (n - length ?A)" by simp
  moreover have "length fs = length ?A + length ?U" using arg_cong [OF split, of length] by simp
  ultimately show ?thesis by simp
qed

lemma length_unsent_le: "length (unsent gen fs) \<le> length fs"
  by (simp add: unsent_def)

lemma unsent_view:
  assumes "sent_prefix gen fs" and "map frame_view fs = numbered ps a b" and "a \<le> b"
  shows "map frame_view (unsent gen fs) = numbered ps (b - length (unsent gen fs)) b"
proof -
  let ?A = "filter (\<lambda>f. rf_last_sent_generation f = gen) fs" and ?U = "unsent gen fs"
  have split: "fs = ?A @ ?U" using assms(1) by (rule sent_prefix_split)
  have len: "length fs = b - a" using arg_cong [OF assms(2), of length] by simp
  have "length fs = length ?A + length ?U" using arg_cong [OF split, of length] by simp
  then have A: "length ?A = b - length ?U - a" and U: "a \<le> b - length ?U"
    using len assms(3) by auto
  have "map frame_view fs = map frame_view ?A @ map frame_view ?U"
    by (subst split) simp
  then have "map frame_view ?U = drop (length ?A) (map frame_view fs)" by simp
  also have "\<dots> = drop (length ?A) (numbered ps a (b - length ?U) @ numbered ps (b - length ?U) b)"
    using U by (simp add: assms(2) numbered_append [of a "b - length ?U" b])
  also have "\<dots> = numbered ps (b - length ?U) b" using A by simp
  finally show ?thesis .
qed

lemma retained_length:
  assumes "buffer_inv config s"
  shows "first_retained s + length (pending s) = next_server_sequence s"
    and "1 \<le> first_retained s" and "next_server_sequence s = Suc (length (queued s))"
    and "map frame_view (pending s) = numbered (queued s) (first_retained s) (next_server_sequence s)"
proof -
  from assms show view: "map frame_view (pending s)
      = numbered (queued s) (first_retained s) (next_server_sequence s)"
    and le: "1 \<le> first_retained s" and "next_server_sequence s = Suc (length (queued s))"
    by (auto simp: buffer_inv_def retains_def)
  from le show "first_retained s + length (pending s) = next_server_sequence s"
    by (simp add: first_retained_def)
qed

section \<open>Queueing and acknowledging\<close>

lemma queue_server_frame_turn:
  assumes inv: "session_inv cx s" and q: "queue_server_frame payload s = Inr s'"
    and room: "length (pending s) < max_replay_frames (cx_config cx)"
      "pending_bytes s + length payload \<le> max_replay_bytes (cx_config cx)"
    and limits: "replay_limits (cx_config cx)"
  shows "session_inv cx s'" and "refines_by s [Produce payload] s'"
proof -
  from q obtain fs b n where push: "push_frame payload (pending s, pending_bytes s, next_server_sequence s)
      = Some (fs, b, n)"
    and s': "s' = s\<lparr>pending := fs, pending_bytes := b, next_server_sequence := n,
      queued := queued s @ [payload]\<rparr>"
    by (auto simp: queue_server_frame_def split: option.splits)
  from push have fs: "fs = pending s @ [\<lparr>rf_sequence = next_server_sequence s, rf_payload = payload,
      rf_last_sent_generation = 0\<rparr>]" and n: "n = Suc (next_server_sequence s)" "n \<le> u64_max"
    and b: "b = saturating_add (pending_bytes s) (length payload)"
    by (auto simp: push_frame_def checked_add_def split: if_splits)
  have fits: "pending_bytes s + length payload \<le> u64_max"
    using room limits by (simp add: replay_limits_def)
  have "retains (queued s @ [payload]) (first_retained s) (map frame_view fs) b n"
    using inv push fits
    by (intro server_queue.push_retains) (auto simp: session_inv_def buffer_inv_def)
  moreover have "first_retained s' = first_retained s"
    by (simp add: s' fs n first_retained_def)
  ultimately have "buffer_inv (cx_config cx) s'"
    using n room fits by (simp add: s' b fs buffer_inv_def)
  moreover have "transport_inv s'"
    using inv by (auto simp: s' fs session_inv_def transport_inv_def sent_prefix_snoc)
  moreover have "client_inv cx s'"
    using inv by (simp add: s' session_inv_def client_inv_def)
  ultimately show "session_inv cx s'" by (simp add: session_inv_def)
  have "1 \<le> generation s" using inv by (simp add: session_inv_def transport_inv_def)
  then have "length (unsent (generation s) fs) = Suc (length (unsent (generation s) (pending s)))"
    by (simp add: fs unsent_def)
  then show "refines_by s [Produce payload] s'"
    by (simp add: refines_by_def server_sender_def s' n fs first_retained_def)
qed

lemma acknowledge_turn:
  assumes inv: "session_inv cx s" and q: "q < next_server_sequence s"
    and pop: "pop_acknowledged q (pending s, pending_bytes s) = (fs, b)"
  shows "session_inv cx (s\<lparr>pending := fs, pending_bytes := b\<rparr>)"
    and "refines_by s [Acked q] (s\<lparr>pending := fs, pending_bytes := b\<rparr>)"
proof -
  let ?s = "s\<lparr>pending := fs, pending_bytes := b\<rparr>" and ?N = "next_server_sequence s"
  have buf: "buffer_inv (cx_config cx) s" and tr: "transport_inv s"
    using inv by (auto simp: session_inv_def)
  note first = retained_length [OF buf]
  have ret: "retains (queued s) (max (first_retained s) (Suc q)) (map frame_view fs) b ?N"
    using buf q pop by (intro server_queue.pop_retains) (auto simp: buffer_inv_def)
  then have "length (map frame_view fs)
      = length (numbered (queued s) (max (first_retained s) (Suc q)) ?N)"
    by (simp only: retains_def)
  then have len: "length fs = ?N - max (first_retained s) (Suc q)" by simp
  have first': "first_retained ?s = max (first_retained s) (Suc q)"
    using len q first by (simp add: first_retained_def)
  have le: "length fs \<le> length (pending s)" "b \<le> pending_bytes s"
    using server_queue.pop_bounds [OF pop] by auto
  obtain n where n: "fs = drop n (pending s)"
    using pop_acknowledged_suffix [of q "pending s" "pending_bytes s"] pop by auto
  have "buffer_inv (cx_config cx) ?s"
    using ret first' buf le by (simp add: buffer_inv_def)
  moreover have "transport_inv ?s"
    using tr by (auto simp: transport_inv_def n sent_prefix_drop dest: in_set_dropD)
  moreover have "client_inv cx ?s" using inv by (simp add: session_inv_def client_inv_def)
  ultimately show "session_inv cx ?s" by (simp add: session_inv_def)
  let ?u = "length (unsent (generation s) (pending s))"
  have "length (unsent (generation s) fs) = min ?u (length fs)"
    using tr length_unsent_drop [of "generation s" "pending s" n]
    by (simp add: transport_inv_def n)
  moreover have "?u \<le> length (pending s)" by (rule length_unsent_le)
  ultimately have "?N - length (unsent (generation s) fs) = max (?N - ?u) (Suc q)"
    using len first q by (auto simp: min_def max_def split: if_splits)
  then show "refines_by s [Acked q] ?s"
    using first' q first by (simp add: refines_by_def server_sender_def)
qed

section \<open>Sending\<close>

lemma sent_count:
  assumes "map acp_of fs = cs @ map acp_of gs"
  shows "cs = map acp_of (take (length cs) fs)" and "length fs = length cs + length gs"
proof -
  show "length fs = length cs + length gs" using arg_cong [OF assms, of length] by simp
  have "cs = take (length cs) (map acp_of fs)" by (simp add: assms)
  then show "cs = map acp_of (take (length cs) fs)" by (simp add: take_map)
qed

text \<open>
  Some of the frames not yet sent on a connection are sent, in order, and marked: the
  common part of the pump and of the setup of a transport.
\<close>

lemma sending_turn:
  assumes inv: "session_inv cx s"
    and view: "map frame_view fs' = map frame_view (pending s)"
    and gens: "\<forall>f\<in>set fs'. rf_last_sent_generation f = gen \<or> f \<in> set (pending s)"
    and sent: "sent_prefix gen fs'" and gen: "generation s \<le> gen" "1 \<le> gen"
    and cs: "list_all (ack_below (expected_client_sequence s)) cs"
    and tr: "tr = None \<or> tr = Some gen"
  shows "session_inv cx (accept gen cs (s\<lparr>generation := gen, pending := fs', transport := tr\<rparr>))"
proof -
  have "length fs' = length (pending s)" using arg_cong [OF view, of length] by simp
  with inv view have "buffer_inv (cx_config cx) (accept gen cs (s\<lparr>generation := gen, pending := fs', transport := tr\<rparr>))"
    by (simp add: session_inv_def buffer_inv_def accept_def first_retained_def)
  moreover have "transport_inv (accept gen cs (s\<lparr>generation := gen, pending := fs', transport := tr\<rparr>))"
    using inv gens sent gen tr by (fastforce simp: session_inv_def transport_inv_def accept_def)
  moreover have "client_inv cx (accept gen cs (s\<lparr>generation := gen, pending := fs', transport := tr\<rparr>))"
    using inv cs by (auto simp: session_inv_def client_inv_def accept_def)
  ultimately show ?thesis by (simp add: session_inv_def)
qed

lemma detach_turn:
  assumes "session_inv cx s"
  shows "session_inv cx (detach_transport config io s)" and "refines_by s [Detach] (detach_transport config io s)"
  using assms
  by (auto simp: session_inv_defs detach_transport_def first_retained_def refines_by_def server_sender_def)

lemma pump_turn:
  assumes inv: "session_inv cx s" and tr: "transport s = Some gen"
    and pump: "pump_replay answers 0 gen (pending s) = (fs, cs, ok)"
  shows "session_inv cx (accept gen cs (s\<lparr>pending := fs\<rparr>))"
    and "refines_by s (replicate (length cs) Transmit) (accept gen cs (s\<lparr>pending := fs\<rparr>))"
proof -
  let ?s = "accept gen cs (s\<lparr>pending := fs\<rparr>)" and ?U = "unsent gen (pending s)"
  have buf: "buffer_inv (cx_config cx) s" and gen: "gen = generation s" "1 \<le> gen"
    and prefix: "sent_prefix gen (pending s)"
    using inv tr by (auto simp: session_inv_def transport_inv_def)
  note first = retained_length [OF buf]
  note sent = pump_replay_sent [OF prefix pump]
  note count = sent_count [OF sent(2)]
  have acks: "list_all (ack_below (expected_client_sequence s)) cs"
    by (subst count(1)) (simp add: list.pred_map o_def list_all_iff)
  have "session_inv cx (accept gen cs (s\<lparr>generation := gen, pending := fs, transport := Some gen\<rparr>))"
    using inv pump_replay_view [OF pump] pump_replay_generation [OF pump] sent(1) gen acks
    by (intro sending_turn) auto
  moreover have "s\<lparr>generation := gen, pending := fs, transport := Some gen\<rparr> = s\<lparr>pending := fs\<rparr>"
    using gen tr by (cases s) simp
  ultimately show "session_inv cx ?s" by simp
  have "length fs = length (pending s)"
    using arg_cong [OF pump_replay_view [OF pump], of length] by simp
  then have first': "first_retained ?s = first_retained s"
    by (simp add: first_retained_def accept_def)
  let ?b = "next_server_sequence s"
  have U: "map frame_view ?U = numbered (queued s) (?b - length ?U) ?b"
    using first by (intro unsent_view [OF prefix]) auto
  have le: "length ?U \<le> length (pending s)" by (rule length_unsent_le)
  have "take (length cs) (map frame_view ?U) = numbered (queued s) (?b - length ?U) (?b - length ?U + length cs)"
    unfolding U using count(2) le first(1) by (intro take_numbered) simp
  then have stream: "acp_stream g (map (\<lambda>c. (gen, c)) cs) = (if gen = g
      then numbered (queued s) (?b - length ?U) (?b - length ?U + length cs) else [])" for g
    using acp_stream_frames [of g gen "take (length cs) ?U"] count(1) by (auto simp: take_map)
  have "sender_run (replicate (length cs) Transmit) (server_sender s)
    = Some ((server_sender s)\<lparr>sd_logs := (sd_logs (server_sender s))(gen := sd_logs (server_sender s) gen @
        numbered (queued s) (?b - length ?U) (?b - length ?U + length cs)),
      sd_sent := ?b - length ?U + length cs\<rparr>)"
    using sender_run_transmit [of "server_sender s" gen "length cs"] tr count(2) le first gen
    by (simp add: server_sender_def)
  also have "\<dots> = Some (server_sender ?s)"
    using gen(2) first' count(2) le first
    by (auto simp: server_sender_def accept_def stream fun_upd_def simp flip: gen(1))
  finally show "refines_by s (replicate (length cs) Transmit) ?s" by (simp add: refines_by_def accept_def)
qed

section \<open>Attaching a transport\<close>

lemma attach_transport_facts:
  assumes att: "attach_transport answers gen ready client_ack fs = (fs', cs, r)"
    and older: "\<forall>f\<in>set fs. rf_last_sent_generation f < gen"
  obtains hs cs1 where "cs = hs @ cs1" and "set hs \<subseteq> CmdEnvelope ` ({ready} \<union> set_option client_ack)"
    and "map frame_view fs' = map frame_view fs"
    and "\<forall>f\<in>set fs'. rf_last_sent_generation f = gen \<or> f \<in> set fs"
    and "sent_prefix gen fs'" and "map acp_of fs = cs1 @ map acp_of (unsent gen fs')"
    and "r = Inr () \<Longrightarrow> unsent gen fs' = []"
proof -
  have other: "\<forall>f\<in>set fs. rf_last_sent_generation f \<noteq> gen" using older by auto
  then have unsent: "unsent gen fs = fs" by (simp add: unsent_def)
  have prefix: "sent_prefix gen fs" using other by (rule sent_prefix_none)
  consider (early) "fs' = fs" "r \<noteq> Inr ()" "set cs \<subseteq> CmdEnvelope ` ({ready} \<union> set_option client_ack)"
    | (frames) n hs cs1 where "setup_frames answers n gen fs = (fs', cs1, r)" "cs = hs @ cs1"
        "set hs \<subseteq> CmdEnvelope ` ({ready} \<union> set_option client_ack)"
  proof (cases "answers 0")
    case SetupSent
    note sent0 = this
    show ?thesis
    proof (cases client_ack)
      case None
      obtain cs1 where "setup_frames answers 1 gen fs = (fs', cs1, r)" "cs = [CmdEnvelope ready] @ cs1"
        using att None sent0 by (auto simp: attach_transport_def split: prod.splits)
      then show ?thesis by (rule frames) simp
    next
      case (Some ack)
      show ?thesis
      proof (cases "answers 1")
        case SetupSent
        obtain cs1 where "setup_frames answers 2 gen fs = (fs', cs1, r)"
          "cs = [CmdEnvelope ready, CmdEnvelope ack] @ cs1"
          using att Some sent0 SetupSent by (auto simp: attach_transport_def split: prod.splits)
        then show ?thesis by (rule frames) (simp add: Some)
      qed (use att Some sent0 early in \<open>auto simp: attach_transport_def\<close>)
    qed
  qed (use att early in \<open>auto simp: attach_transport_def\<close>)
  then show ?thesis
  proof cases
    case early
    then show ?thesis using unsent prefix by (intro that [of cs "[]"]) auto
  next
    case frames
    have "unsent gen fs' = []" if "r = Inr ()"
      using setup_frames_facts(3) [OF frames(1) that] by (simp add: unsent_def)
    with frames show ?thesis
      using setup_frames_facts(1,4) [OF frames(1)] setup_frames_sent [OF other frames(1)]
      by (intro that [of hs cs1]) auto
  qed
qed

lemma attach_turn:
  assumes inv: "session_inv cx s" and att: "attach_socket cx io s = Inr s'"
  obtains k complete where "session_inv cx s'"
    and "refines_by s [Detach, Attach (Suc (generation s)) k complete] s'"
    and "generation s' = Suc (generation s)"
    and "transport s' = (if complete then Some (generation s') else None)"
proof -
  let ?gen = "Suc (generation s)" and ?N = "next_server_sequence s"
  define ready where "ready = Ready TUNNEL_VERSION (cx_connection_id cx) (Some (cx_resume_token cx)) True"
  define ack where "ack = map_option (Ack ClientToServer) (checked_sub (expected_client_sequence s) 1)"
  obtain fs cs r where tr: "attach_transport (io_setup io) ?gen ready ack (pending s) = (fs, cs, r)"
    by (cases "attach_transport (io_setup io) ?gen ready ack (pending s)") auto
  have buf: "buffer_inv (cx_config cx) s" and gens: "\<forall>f\<in>set (pending s). rf_last_sent_generation f < ?gen"
    and cmds: "\<forall>x\<in>set (commands s). fst x < ?gen"
    using inv by (auto simp: session_inv_def transport_inv_def less_Suc_eq_le)
  note first = retained_length [OF buf]
  obtain hs cs1 where cs: "cs = hs @ cs1" and hs: "set hs \<subseteq> CmdEnvelope ` ({ready} \<union> set_option ack)"
    and view: "map frame_view fs = map frame_view (pending s)"
    and mem: "\<forall>f\<in>set fs. rf_last_sent_generation f = ?gen \<or> f \<in> set (pending s)"
    and prefix: "sent_prefix ?gen fs" and sent: "map acp_of (pending s) = cs1 @ map acp_of (unsent ?gen fs)"
    and whole: "r = Inr () \<Longrightarrow> unsent ?gen fs = []"
    using attach_transport_facts [OF tr gens] by blast
  note count = sent_count [OF sent]
  have acks: "list_all (ack_below (expected_client_sequence s)) cs"
  proof -
    have "list_all (ack_below (expected_client_sequence s)) cs1"
      by (subst count(1)) (simp add: list.pred_map o_def list_all_iff)
    moreover have "list_all (ack_below (expected_client_sequence s)) hs"
      using hs by (auto simp: list_all_iff ack_below_def ready_def ack_def checked_sub_def split: if_splits)
    ultimately show ?thesis by (auto simp: cs)
  qed
  define complete where "complete = is_ok r"
  define core where "core = accept ?gen cs (s\<lparr>generation := ?gen, pending := fs,
      transport := (if complete then Some ?gen else None)\<rparr>)"
  have s': "same_core core s'" and s'_fields: "generation s' = ?gen" "transport s' = transport core"
    "commands s' = commands core"
    using att tr unfolding attach_socket_def core_def complete_def ready_def ack_def
    by (auto simp: checked_add_def same_core_def accept_def Let_def split: if_splits sum.splits)
  have "session_inv cx core"
    unfolding core_def using inv view mem prefix acks by (intro sending_turn) auto
  then have goal1: "session_inv cx s'" by (rule same_core_inv [OF s'])
  have silent: "acp_stream g (map (\<lambda>c. (?gen, c)) hs) = []" for g
    using hs by (induction hs) (auto simp: acp_stream_def List.map_filter_def ready_def ack_def split: if_splits)
  have len: "length fs = length (pending s)" using arg_cong [OF view, of length] by simp
  have stream: "acp_stream g (map (\<lambda>c. (?gen, c)) cs1) = (if ?gen = g
      then numbered (queued s) (first_retained s) (first_retained s + length cs1) else [])" for g
  proof -
    have "take (length cs1) (map frame_view (pending s))
        = numbered (queued s) (first_retained s) (first_retained s + length cs1)"
      unfolding first(4) using count(2) first(1) by (intro take_numbered) simp
    with acp_stream_frames [of g ?gen "take (length cs1) (pending s)"] count(1) show ?thesis
      by (simp add: take_map)
  qed
  have fresh: "acp_stream ?gen (commands s) = []" using cmds by (rule acp_stream_beyond)
  have "refines_by s [Detach, Attach ?gen (length cs1) complete] core"
    using first count(2) whole len fresh
    by (auto simp: refines_by_def server_sender_def core_def complete_def accept_def cs silent stream
      is_ok_unit_iff first_retained_def fun_upd_def)
  then have goal2: "refines_by s [Detach, Attach ?gen (length cs1) complete] s'"
    using same_core_sender [OF s'] s'_fields(3) by (auto simp: refines_by_def)
  show ?thesis
    using goal1 goal2 s'_fields by (intro that) (auto simp: core_def accept_def)
qed

section \<open>The other operations\<close>

named_theorems session_ops \<open>definitions of the operations of the session loop\<close>

declare detach_transport_def [session_ops] send_ignoring_error_def [session_ops]
  send_client_ack_def [session_ops] send_exit_def [session_ops] end_with_def [session_ops]
  count_inbound_def [session_ops] accept_def [session_ops]

lemma same_core_appends: "same_core s s' \<Longrightarrow> (\<And>cs. commands s' = commands s @ cs \<Longrightarrow> P) \<Longrightarrow> P"
  by (auto simp: same_core_def)

lemma same_core_refl [simp]: "same_core s s"
  by (simp add: same_core_def)

lemma same_core_trans: "same_core s s1 \<Longrightarrow> same_core s1 s2 \<Longrightarrow> same_core s s2"
  by (auto simp: same_core_def)

lemma same_core_accept:
  "transport s = Some gen \<Longrightarrow> plain_command (expected_client_sequence s) c \<Longrightarrow> same_core s (accept gen [c] s)"
  by (simp add: same_core_def accept_def)

lemma same_core_send:
  "plain_command (expected_client_sequence s) c \<Longrightarrow> same_core s (send_ignoring_error io c s)"
  by (auto simp: same_core_def send_ignoring_error_def accept_def split: option.splits)

lemma same_core_ack: "n = expected_client_sequence s \<Longrightarrow> same_core s (send_client_ack io n s)"
  by (auto simp: send_client_ack_def plain_command_def ack_below_def checked_sub_def intro!: same_core_send)

lemma plain_commands [simp]:
  "plain_command n (CmdEnvelope (Ping x))" "plain_command n (CmdEnvelope (Pong x))"
  "plain_command n (CmdEnvelope (Stderr x))" "plain_command n (CmdExit (Exit i j))"
  by (simp_all add: plain_command_def ack_below_def)

lemma same_core_end: "same_core s (end_with category s)"
  by (simp add: same_core_def end_with_def)

lemma same_core_count: "same_core s (count_inbound payload s)"
  by (simp add: same_core_def count_inbound_def)

lemma same_core_exit:
  "transport s = Some gen \<Longrightarrow> send_exit io gen status s = (s', ok) \<Longrightarrow> same_core s s'"
  by (auto simp: same_core_def send_exit_def accept_def split: prod.splits if_splits)

lemma same_core_counters: "same_core s (s\<lparr>session_counters := n\<rparr>)"
  by (simp add: same_core_def)

lemma same_core_clock: "same_core s (s\<lparr>last_received := n\<rparr>)"
  by (simp add: same_core_def)

text \<open>
  A turn keeps the invariant and is a run of the abstract sender in which only the
  numbers of a given set are acknowledged.
\<close>

definition turn_to :: "session_context \<Rightarrow> nat set \<Rightarrow> session \<Rightarrow> session \<Rightarrow> bool" where
  "turn_to cx A s s' \<longleftrightarrow> session_inv cx s' \<and> (\<exists>acts. acks_in A acts \<and> refines_by s acts s')"

lemma turn_toI: "session_inv cx s' \<Longrightarrow> acks_in A acts \<Longrightarrow> refines_by s acts s' \<Longrightarrow> turn_to cx A s s'"
  by (auto simp: turn_to_def)

lemma turn_to_inv: "turn_to cx A s s' \<Longrightarrow> session_inv cx s'"
  by (simp add: turn_to_def)

lemma turn_to_same: "same_core s s' \<Longrightarrow> session_inv cx s \<Longrightarrow> turn_to cx A s s'"
  by (rule turn_toI [where acts = "[]"])
     (auto simp: intro: same_core_inv refines_by_refl same_core_sender elim: same_core_appends)

lemma turn_to_trans:
  assumes "turn_to cx A s s1" and "turn_to cx A s1 s2"
  shows "turn_to cx A s s2"
proof -
  from assms obtain as bs where "acks_in A as" "refines_by s as s1" "acks_in A bs" "refines_by s1 bs s2"
    by (auto simp: turn_to_def)
  then have "acks_in A (as @ bs)" "refines_by s (as @ bs) s2"
    by (auto simp: acks_in_def intro: refines_by_trans)
  with turn_to_inv [OF assms(2)] show ?thesis by (rule turn_toI)
qed

lemma turn_to_detach: "session_inv cx s \<Longrightarrow> turn_to cx A s (detach_transport config io s)"
  by (rule turn_toI [where acts = "[Detach]"]) (auto simp: acks_in_def intro: detach_turn)

lemma turn_to_then_detach: "turn_to cx A s s1 \<Longrightarrow> turn_to cx A s (detach_transport config io s1)"
  by (rule turn_to_trans [OF _ turn_to_detach]) (auto intro: turn_to_inv)

lemma turn_to_then_same: "turn_to cx A s s1 \<Longrightarrow> same_core s1 s2 \<Longrightarrow> turn_to cx A s s2"
  by (rule turn_to_trans [OF _ turn_to_same]) (auto intro: turn_to_inv)

lemma turn_to_pump:
  assumes "session_inv cx s"
  shows "turn_to cx A s (pump_transport config io s)"
proof (cases "transport s")
  case None
  with assms show ?thesis by (simp add: pump_transport_def turn_to_same)
next
  case (Some gen)
  obtain fs cs ok where pump: "pump_replay (io_pump io) 0 gen (pending s) = (fs, cs, ok)"
    by (cases "pump_replay (io_pump io) 0 gen (pending s)") auto
  let ?s = "accept gen cs (s\<lparr>pending := fs\<rparr>)"
  have "turn_to cx A s ?s"
    using pump_turn [OF assms Some pump] by (intro turn_toI) (auto simp: acks_in_def list_all_iff)
  then show ?thesis
    using Some pump by (auto simp: pump_transport_def Let_def intro: turn_to_then_detach)
qed

lemma turn_to_notify:
  assumes inv: "session_inv cx s"
  shows "turn_to cx A s (notify_exit config io s)"
proof (cases "\<exists>status gen. child_status s = Some status \<and> transport s = Some gen \<and> all_enqueued gen (pending s)")
  case False
  then show ?thesis
    using inv by (auto simp: notify_exit_def turn_to_same split: option.splits)
next
  case True
  then obtain status gen s1 ok where st: "child_status s = Some status" "transport s = Some gen"
    "all_enqueued gen (pending s)" and ex: "send_exit io gen status s = (s1, ok)"
    by (metis surj_pair)
  have "turn_to cx A s s1" using same_core_exit [OF st(2) ex] inv by (rule turn_to_same)
  moreover have "same_core s1 (end_with ''child_exit'' (s1\<lparr>exit_was_sent := True\<rparr>))"
    by (simp add: same_core_def end_with_def)
  ultimately show ?thesis
    using st ex by (auto simp: notify_exit_def intro: turn_to_then_detach turn_to_then_same)
qed

lemma turn_to_prologue: "session_inv cx s \<Longrightarrow> turn_to cx A s (prologue config io s)"
  unfolding prologue_def
  by (rule turn_to_trans [OF turn_to_pump turn_to_notify]) (auto intro: turn_to_inv turn_to_pump)

section \<open>Envelopes of the connector\<close>

fun acked_by :: "envelope \<Rightarrow> nat set" where
  "acked_by (Ack ServerToClient q) = {q}"
| "acked_by _ = {}"

lemma advance_client_turn:
  assumes "session_inv cx s0" and "advance_client io payload s = Inr s'"
    and "same_core (s0\<lparr>agent_stdin := agent_stdin s\<rparr>) s"
    and "agent_stdin s = forwarded cx (consumed s0 @ [payload])"
  shows "turn_to cx A s0 s'"
proof -
  from assms(2) have bound: "Suc (expected_client_sequence s) \<le> u64_max"
    and s': "same_core (s\<lparr>expected_client_sequence := Suc (expected_client_sequence s),
      consumed := consumed s @ [payload]\<rparr>) s'"
    by (auto simp: advance_client_def checked_add_def same_core_ack split: if_splits)
  let ?s = "s\<lparr>expected_client_sequence := Suc (expected_client_sequence s),
      consumed := consumed s @ [payload]\<rparr>"
  have "session_inv cx (s\<lparr>agent_stdin := agent_stdin s0\<rparr>)"
    using assms(1,3) same_core_inv [of s0 "s\<lparr>agent_stdin := agent_stdin s0\<rparr>" cx] by (simp add: same_core_def)
  then have inv: "session_inv cx ?s"
    using bound assms(3,4) by (auto simp: session_inv_defs same_core_def first_retained_def intro: acks_below_mono)
  have "server_sender ?s = server_sender s" by (simp add: server_sender_def first_retained_def)
  also have "\<dots> = server_sender (s0\<lparr>agent_stdin := agent_stdin s\<rparr>)" using assms(3) by (rule same_core_sender)
  also have "\<dots> = server_sender s0" by (simp add: server_sender_def first_retained_def)
  finally have "refines_by s0 [] ?s"
    using assms(3) by (auto simp: same_core_def intro: refines_by_refl)
  then have "turn_to cx A s0 ?s" using inv by (intro turn_toI [where acts = "[]"]) (auto simp: acks_in_def)
  then show ?thesis using s' by (rule turn_to_then_same)
qed

lemma forwarded_snoc:
  "forwarded cx (ps @ [p]) = forwarded cx ps @
     (case policy_apply (cx_env cx) (cx_policy cx) p of Inr (Forward line) \<Rightarrow> [line] | _ \<Rightarrow> [])"
  by (auto simp: forwarded_def List.map_filter_def split: sum.splits policy_outcome.splits)

lemma deliver_turn:
  assumes inv: "session_inv cx s" and d: "deliver cx io payload s = Inr s'"
    and limits: "replay_limits (cx_config cx)"
  shows "turn_to cx A s s'"
proof -
  from d obtain outcome where out: "policy_apply (cx_env cx) (cx_policy cx) payload = Inr outcome"
    by (auto simp: deliver_def rbind_Inr_iff)
  have stdin: "agent_stdin s = forwarded cx (consumed s)"
    using inv by (simp add: session_inv_def client_inv_def)
  show ?thesis
  proof (cases outcome)
    case (Forward line)
    with d out have "advance_client io payload (s\<lparr>agent_stdin := agent_stdin s @ [line]\<rparr>) = Inr s'"
      by (auto simp: deliver_def split: option.splits)
    then show ?thesis
      by (rule advance_client_turn [OF inv]) (auto simp: Forward out forwarded_snoc stdin)
  next
    case (Reject line)
    show ?thesis
    proof (cases "replay_fits (pending s) (pending_bytes s) line (cx_config cx)")
      case False
      with d out Reject have "same_core s s'" by (auto simp: deliver_def same_core_end)
      then show ?thesis using inv by (rule turn_to_same)
    next
      case True
      with d out Reject obtain s1 where q: "queue_server_frame line s = Inr s1"
        and adv: "advance_client io payload s1 = Inr s'"
        by (auto simp: deliver_def rbind_Inr_iff)
      from True limits have room: "length (pending s) < max_replay_frames (cx_config cx)"
        "pending_bytes s + length line \<le> max_replay_bytes (cx_config cx)"
        by (auto simp: replay_fits_def replay_limits_def saturating_add_le_iff)
      note turn = queue_server_frame_turn [OF inv q room limits]
      have s1: "agent_stdin s1 = agent_stdin s" "consumed s1 = consumed s"
        using q by (auto simp: queue_server_frame_def split: option.splits)
      have "turn_to cx A s s1" using turn by (intro turn_toI) (auto simp: acks_in_def)
      moreover have "turn_to cx A s1 s'"
        using turn(1) adv by (rule advance_client_turn) (auto simp: s1 out Reject forwarded_snoc stdin same_core_def)
      ultimately show ?thesis by (rule turn_to_trans)
    qed
  qed
qed

lemma handle_client_envelope_turn:
  assumes inv: "session_inv cx s" and h: "handle_client_envelope cx io env s = Inr s'"
    and limits: "replay_limits (cx_config cx)"
  shows "turn_to cx (acked_by env) s s'"
proof -
  have same: "turn_to cx B s s1" if "same_core s s1" for B s1
    using that inv by (rule turn_to_same)
  show ?thesis
  proof (cases env)
    case (Acp n payload)
    show ?thesis
    proof (cases n)
      case None
      with h Acp show ?thesis by (auto intro: same same_core_end)
    next
      case (Some sequence)
      let ?s = "count_inbound payload s"
      have c: "same_core s ?s" by (rule same_core_count)
      note inv' = same_core_inv [OF c inv]
      from h Acp Some consider "same_core ?s s'" | "deliver cx io payload ?s = Inr s'"
        by (auto simp: Let_def same_core_end same_core_ack split: if_splits)
      then show ?thesis
      proof cases
        case 1
        with c show ?thesis by (intro same) (rule same_core_trans)
      next
        case 2
        from deliver_turn [OF inv' 2 limits] turn_to_same [OF c inv] show ?thesis
          by (blast intro: turn_to_trans)
      qed
    qed
  next
    case (Ack stream q)
    show ?thesis
    proof (cases "stream = ServerToClient \<and> q < next_server_sequence s")
      case True
      obtain fs b where pop: "pop_acknowledged q (pending s, pending_bytes s) = (fs, b)" by fastforce
      with True h Ack have s': "s' = s\<lparr>pending := fs, pending_bytes := b\<rparr>" by auto
      from True Ack have "acked_by env = {q}" by simp
      then show ?thesis
        using acknowledge_turn [OF inv _ pop] True unfolding s'
        by (intro turn_toI [where acts = "[Acked q]"]) (auto simp: acks_in_def)
    next
      case False
      with h Ack show ?thesis by (cases stream) (auto intro: same same_core_end)
    qed
  next
    case (Shutdown reason)
    with h show ?thesis by (intro same) (auto simp: same_core_def)
  qed (use h inv in \<open>auto intro!: turn_to_same same_core_end same_core_send\<close>)
qed

section \<open>One turn\<close>

lemma turn_to_update:
  "turn_to cx A (s\<lparr>last_received := n\<rparr>) s' \<longleftrightarrow> turn_to cx A s s'"
  by (simp add: turn_to_def refines_by_def server_sender_def first_retained_def)

lemma receive_envelope_turn:
  assumes "session_inv cx s" and r: "receive_envelope cx io env s = Inr s'"
    and "replay_limits (cx_config cx)"
  shows "turn_to cx (acked_by env) s s'"
proof -
  from r obtain s1 where h: "handle_client_envelope cx io env (s\<lparr>last_received := io_now io\<rparr>) = Inr s1"
    and rest: "(if shutdown_reason s1 \<noteq> None
      then Inr (end_with ''client_shutdown'' (s1\<lparr>resumable := False\<rparr>)) else Inr s1) = (Inr s' :: error + session)"
    unfolding receive_envelope_def rbind_Inr_iff by blast
  have s': "same_core s1 s'"
  proof (cases "shutdown_reason s1")
    case None
    with rest show ?thesis by simp
  next
    case (Some reason)
    with rest have "s' = end_with ''client_shutdown'' (s1\<lparr>resumable := False\<rparr>)" by simp
    then show ?thesis by (simp add: same_core_def end_with_def)
  qed
  have "session_inv cx (s\<lparr>last_received := io_now io\<rparr>)"
    using assms(1) by (rule same_core_inv [rotated]) (simp add: same_core_def)
  from handle_client_envelope_turn [OF this h assms(3)] have "turn_to cx (acked_by env) s s1"
    by (simp add: turn_to_update)
  then show ?thesis using s' by (rule turn_to_then_same)
qed

text \<open>
  The envelope that a branch handles: one that comes from the current transport.
\<close>

fun branch_envelope :: "select_event \<Rightarrow> session \<Rightarrow> envelope option" where
  "branch_envelope (TransportRecv (Some event)) s =
     (if transport s = Some (te_generation event)
      then (case te_kind event of EvEnvelope env \<Rightarrow> Some env | _ \<Rightarrow> None)
      else None)"
| "branch_envelope _ s = None"

definition handled_envelope ::
    "session_context \<Rightarrow> session_io \<Rightarrow> select_event \<Rightarrow> session \<Rightarrow> envelope option" where
  "handled_envelope cx io event s =
     (let s1 = prologue (cx_config cx) io s
      in if end_category s1 = None then branch_envelope event s1 else None)"

definition acks_of :: "envelope option \<Rightarrow> nat set" where
  "acks_of handled = (case handled of None \<Rightarrow> {} | Some env \<Rightarrow> acked_by env)"

lemma receive_transport_turn:
  assumes inv: "session_inv cx s" and r: "receive_transport cx io event s = Inr s'"
    and limits: "replay_limits (cx_config cx)"
  shows "turn_to cx (acks_of (branch_envelope (TransportRecv (Some event)) s)) s s'"
proof (cases "transport s = Some (te_generation event)")
  case False
  with r inv show ?thesis by (auto simp: receive_transport_def turn_to_same)
next
  case True
  obtain g kind where e: "event = \<lparr>te_generation = g, te_kind = kind\<rparr>" by (cases event)
  show ?thesis
  proof (cases kind)
    case (EvEnvelope env)
    with r True e have "receive_envelope cx io env s = Inr s'" by (simp add: receive_transport_def)
    from receive_envelope_turn [OF inv this limits] True show ?thesis
      by (simp add: e EvEnvelope acks_of_def)
  qed (use r True e inv in
    \<open>auto simp: receive_transport_def intro!: turn_to_same same_core_end same_core_clock turn_to_detach\<close>)
qed

text \<open>
  The lines of the agent are within the limit: its reader drops to an error on a longer
  line.
\<close>

fun event_ok :: "server_config \<Rightarrow> select_event \<Rightarrow> bool" where
  "event_ok config (AgentRecv (Some (AgentAcp payload))) \<longleftrightarrow> length payload \<le> max_frame_bytes config"
| "event_ok config _ \<longleftrightarrow> True"

lemma agent_line_turn:
  assumes inv: "session_inv cx s" and q: "queue_server_frame payload s = Inr s'"
    and can: "can_read_agent (cx_config cx) s" and len: "length payload \<le> max_frame_bytes (cx_config cx)"
    and limits: "replay_limits (cx_config cx)"
  shows "turn_to cx A s s'"
proof -
  have "length (pending s) < max_replay_frames (cx_config cx)"
    "pending_bytes s + length payload \<le> max_replay_bytes (cx_config cx)"
    using can len limits by (auto simp: can_read_agent_def saturating_sub_def replay_limits_def)
  from queue_server_frame_turn [OF inv q this limits] show ?thesis
    by (intro turn_toI) (auto simp: acks_in_def)
qed

lemma take_branch_turn:
  assumes inv: "session_inv cx s" and t: "take_branch cx io event s = Inr s'"
    and en: "branch_enabled (cx_config cx) s event" and ok: "event_ok (cx_config cx) event"
    and limits: "replay_limits (cx_config cx)"
  shows "turn_to cx (acks_of (branch_envelope event s)) s s'"
proof -
  have same: "turn_to cx B s s1" if "same_core s s1" for B s1
    using that inv by (rule turn_to_same)
  show ?thesis
  proof (cases event)
    case (ChildExited status)
    with t show ?thesis by (auto simp: rbind_Inr_iff same_core_def intro!: same)
  next
    case (Attachment socket)
    show ?thesis
    proof (cases socket)
      case True
      with t Attachment have "attach_socket cx io s = Inr s'" by simp
      from attach_turn [OF inv this] obtain k complete where "session_inv cx s'"
        "refines_by s [Detach, Attach (Suc (generation s)) k complete] s'" by blast
      then show ?thesis by (intro turn_toI) (auto simp: acks_in_def)
    next
      case False
      with t Attachment inv show ?thesis by (auto intro: turn_to_same)
    qed
  next
    case KeepaliveTick
    with t inv show ?thesis
      by (auto simp: keepalive_tick_def intro: turn_to_detach intro!: turn_to_same [OF same_core_accept]
        turn_to_same [OF same_core_refl] split: option.splits)
  next
    case (TransportRecv e)
    show ?thesis
    proof (cases e)
      case None
      with TransportRecv t inv show ?thesis by (auto intro: turn_to_same same_core_end)
    next
      case (Some a)
      with TransportRecv t have "receive_transport cx io a s = Inr s'" by simp
      from receive_transport_turn [OF inv this limits] show ?thesis by (simp only: TransportRecv Some)
    qed
  next
    case (AgentRecv e)
    show ?thesis
    proof (cases "\<exists>payload. e = Some (AgentAcp payload)")
      case True
      with AgentRecv t en ok limits inv show ?thesis by (auto intro: agent_line_turn)
    next
      case False
      with AgentRecv t inv show ?thesis
        by (cases "the e"; cases e) (auto intro: turn_to_same same_core_end)
    qed
  next
    case (DiagnosticRecv e)
    with t inv show ?thesis
      by (cases e) (auto simp: forward_diagnostic_def same_core_counters
        intro!: turn_to_same same_core_accept split: option.splits)
  qed (use t inv in \<open>auto intro: turn_to_same same_core_end\<close>)
qed

lemma iteration_turn:
  assumes "session_inv cx s" and it: "iteration cx io event s = Some (Inr s')"
    and "event_ok (cx_config cx) event" and "replay_limits (cx_config cx)"
  shows "turn_to cx (acks_of (handled_envelope cx io event s)) s s'"
proof -
  let ?s = "prologue (cx_config cx) io s" and ?A = "acks_of (handled_envelope cx io event s)"
  have pro: "turn_to cx ?A s ?s" using assms(1) by (rule turn_to_prologue)
  from it consider "s' = ?s" | "take_branch cx io event ?s = Inr s'" "branch_enabled (cx_config cx) ?s event"
    "end_category ?s = None"
    by (auto simp: iteration_def Let_def split: if_splits)
  then show ?thesis
  proof cases
    case 1
    with pro show ?thesis by simp
  next
    case 2
    then have "handled_envelope cx io event s = branch_envelope event ?s"
      by (simp add: handled_envelope_def)
    then have "turn_to cx ?A ?s s'"
      using take_branch_turn [OF turn_to_inv [OF pro] 2(1,2) assms(3,4)] by simp
    with pro show ?thesis by (rule turn_to_trans)
  qed
qed

section \<open>The receiving side\<close>

text \<open>The number expected next from the connector, and the payloads processed.\<close>

definition taken :: "session \<Rightarrow> nat \<times> string list" where
  "taken s = (expected_client_sequence s, consumed s)"

lemma taken_simps [simp]:
  "taken (end_with category s) = taken s" "taken (count_inbound payload s) = taken s"
  "taken (accept gen cs s) = taken s" "taken (detach_transport config io s) = taken s"
  "taken (s\<lparr>transport := tr\<rparr>) = taken s" "taken (s\<lparr>last_received := n\<rparr>) = taken s"
  "taken (s\<lparr>resumable := b\<rparr>) = taken s" "taken (s\<lparr>agent_stdin := ls\<rparr>) = taken s"
  "taken (s\<lparr>pending := fs\<rparr>) = taken s" "taken (s\<lparr>pending := fs, pending_bytes := n\<rparr>) = taken s"
  "taken (s\<lparr>session_counters := k\<rparr>) = taken s" "taken (s\<lparr>exit_was_sent := b\<rparr>) = taken s"
  "taken (s\<lparr>child_status := st\<rparr>) = taken s" "taken (s\<lparr>shutdown_reason := r\<rparr>) = taken s"
  by (simp_all add: taken_def end_with_def count_inbound_def accept_def detach_transport_def)

lemma end_category_end_with [simp]: "end_category (end_with category s) = Some category"
  by (simp add: end_with_def)

lemma taken_send [simp]: "taken (send_ignoring_error io c s) = taken s"
  by (simp add: send_ignoring_error_def split: option.splits)

lemma taken_ack [simp]: "taken (send_client_ack io n s) = taken s"
  by (simp add: send_client_ack_def split: option.splits)

lemma taken_prologue [simp]: "taken (prologue config io s) = taken s"
  by (auto simp: prologue_def notify_exit_def pump_transport_def send_exit_def Let_def
    split: option.splits prod.splits)

lemma taken_queue: "queue_server_frame line s = Inr s' \<Longrightarrow> taken s' = taken s"
  by (auto simp: queue_server_frame_def taken_def split: option.splits)

lemma taken_advance:
  "advance_client io payload s = Inr s' \<Longrightarrow>
     taken s' = (Suc (expected_client_sequence s), consumed s @ [payload])"
proof -
  assume "advance_client io payload s = Inr s'"
  then have "s' = send_client_ack io (Suc (expected_client_sequence s))
      (s\<lparr>expected_client_sequence := Suc (expected_client_sequence s), consumed := consumed s @ [payload]\<rparr>)"
    by (auto simp: advance_client_def checked_add_def split: if_splits)
  then show ?thesis by (simp only: taken_ack) (simp add: taken_def)
qed

lemma deliver_cases:
  assumes "deliver cx io payload s = Inr s'"
  obtains (forward) line where "advance_client io payload (s\<lparr>agent_stdin := agent_stdin s @ [line]\<rparr>) = Inr s'"
    | (exhausted) "s' = end_with ''replay_buffer_exhausted'' s"
    | (reject) line s1 where "queue_server_frame line s = Inr s1" "advance_client io payload s1 = Inr s'"
proof -
  obtain outcome where out: "policy_apply (cx_env cx) (cx_policy cx) payload = Inr outcome"
    using assms by (auto simp: deliver_def rbind_Inr_iff)
  have "(\<exists>line. advance_client io payload (s\<lparr>agent_stdin := agent_stdin s @ [line]\<rparr>) = Inr s') \<or>
    s' = end_with ''replay_buffer_exhausted'' s \<or>
    (\<exists>line s1. queue_server_frame line s = Inr s1 \<and> advance_client io payload s1 = Inr s')"
    using assms out
    by (cases outcome) (auto simp: deliver_def rbind_Inr_iff split: option.splits if_splits)
  then show ?thesis using that by blast
qed

lemma taken_deliver:
  assumes "deliver cx io payload s = Inr s'"
  shows "taken s' = (Suc (expected_client_sequence s), consumed s @ [payload]) \<or>
    taken s' = taken s \<and> end_category s' \<noteq> None"
  using assms
proof (cases rule: deliver_cases)
  case forward
  from taken_advance [OF this] show ?thesis by simp
next
  case exhausted
  then show ?thesis by simp
next
  case reject
  from taken_queue [OF reject(1)] taken_advance [OF reject(2)] show ?thesis by (simp add: taken_def)
qed

lemma taken_handle:
  assumes "handle_client_envelope cx io env s = Inr s'"
  shows "taken s' = receives env (taken s) \<and> in_order env (expected_client_sequence s) \<or>
    taken s' = taken s \<and> end_category s' \<noteq> None"
proof (cases "\<exists>n p. env = Acp (Some n) p")
  case True
  then obtain n p where env: "env = Acp (Some n) p" by blast
  let ?s = "count_inbound p s"
  have count: "taken ?s = taken s" "expected_client_sequence ?s = expected_client_sequence s"
    "consumed ?s = consumed s" by (simp_all add: count_inbound_def taken_def)
  from assms env consider category where "s' = end_with category ?s"
    | "n < expected_client_sequence s" "s' = send_client_ack io (expected_client_sequence s) ?s"
    | "n = expected_client_sequence s" "deliver cx io p ?s = Inr s'"
    by (auto simp: Let_def count(2) split: if_splits)
  then show ?thesis
  proof cases
    case 3
    from taken_deliver [OF 3(2)] 3(1) env count show ?thesis by (auto simp: taken_def)
  next
    case 1
    then have "taken s' = taken ?s" by simp
    with 1 count(1) show ?thesis by (simp add: end_with_def)
  next
    case 2
    then have "taken s' = taken ?s" by simp
    with 2(1) count(1) show ?thesis by (simp add: env taken_def)
  qed
next
  case False
  with assms show ?thesis
    by (cases "(cx, io, env, s)" rule: handle_client_envelope.cases)
       (auto split: prod.splits if_splits)
qed

lemma taken_receive:
  assumes "receive_envelope cx io env s = Inr s'"
  shows "taken s' = receives env (taken s) \<and> in_order env (expected_client_sequence s) \<or>
    taken s' = taken s \<and> end_category s' \<noteq> None"
proof -
  from assms obtain s1 where h: "handle_client_envelope cx io env (s\<lparr>last_received := io_now io\<rparr>) = Inr s1"
    and s': "s' = s1 \<or> s' = end_with ''client_shutdown'' (s1\<lparr>resumable := False\<rparr>)"
    by (auto simp: receive_envelope_def rbind_Inr_iff split: if_splits)
  from s' have "taken s' = taken s1" "end_category s1 \<noteq> None \<Longrightarrow> end_category s' \<noteq> None" by auto
  with taken_handle [OF h] show ?thesis by auto
qed

lemma taken_attach: "attach_socket cx io s = Inr s' \<Longrightarrow> taken s' = taken s"
  by (auto simp: attach_socket_def Let_def taken_def accept_def split: option.splits prod.splits sum.splits)

lemma taken_branch:
  assumes "take_branch cx io event s = Inr s'"
  shows "case branch_envelope event s of
      None \<Rightarrow> taken s' = taken s
    | Some env \<Rightarrow> taken s' = receives env (taken s) \<and> in_order env (expected_client_sequence s) \<or>
        taken s' = taken s \<and> end_category s' \<noteq> None"
proof (cases "(cx, io, event, s)" rule: take_branch.cases)
  case (6 cx' io' e s1)
  show ?thesis
  proof (cases "branch_envelope event s")
    case (Some env)
    with 6 assms have "receive_envelope cx io env s = Inr s'"
      by (auto simp: receive_transport_def split: if_splits transport_event_kind.splits)
    from taken_receive [OF this] Some show ?thesis by simp
  next
    case None
    with 6 assms show ?thesis
      by (auto simp: receive_transport_def split: if_splits transport_event_kind.splits)
  qed
qed (use assms in \<open>auto simp: rbind_Inr_iff taken_attach taken_queue keepalive_tick_def forward_diagnostic_def
  split: if_splits option.splits\<close>)

text \<open>
  What one turn does to the receiving side: nothing without an envelope from the current
  transport; with one, the payload with the expected number is taken and an older one
  ignored, unless the session ends.
\<close>

lemma iteration_taken:
  assumes "iteration cx io event s = Some (Inr s')"
  shows "case handled_envelope cx io event s of
      None \<Rightarrow> taken s' = taken s
    | Some env \<Rightarrow> taken s' = receives env (taken s) \<and> in_order env (expected_client_sequence s) \<or>
        taken s' = taken s \<and> end_category s' \<noteq> None"
proof -
  let ?s = "prologue (cx_config cx) io s"
  have same: "taken ?s = taken s" by simp
  then have exp: "expected_client_sequence ?s = expected_client_sequence s" by (simp add: taken_def)
  show ?thesis
  proof (cases "end_category ?s")
    case None
    with assms have "take_branch cx io event ?s = Inr s'"
      by (auto simp: iteration_def Let_def split: if_splits)
    from taken_branch [OF this] show ?thesis
      unfolding handled_envelope_def Let_def using None exp by (simp split: option.splits)
  next
    case (Some category)
    with assms have "s' = ?s" by (simp add: iteration_def Let_def)
    then have "taken s' = taken s" by simp
    with Some show ?thesis by (simp add: handled_envelope_def)
  qed
qed

section \<open>Transports\<close>

lemma generation_simps [simp]:
  "generation (end_with category s) = generation s" "generation (count_inbound payload s) = generation s"
  "generation (accept gen cs s) = generation s" "generation (detach_transport config io s) = generation s"
  "transport (end_with category s) = transport s" "transport (count_inbound payload s) = transport s"
  "transport (accept gen cs s) = transport s" "transport (detach_transport config io s) = None"
  by (simp_all add: end_with_def count_inbound_def accept_def detach_transport_def)

lemma generation_send [simp]:
  "generation (send_ignoring_error io c s) = generation s"
  "transport (send_ignoring_error io c s) = transport s"
  by (simp_all add: send_ignoring_error_def split: option.splits)

lemma generation_ack [simp]:
  "generation (send_client_ack io n s) = generation s" "transport (send_client_ack io n s) = transport s"
  by (simp_all add: send_client_ack_def split: option.splits)

lemma generation_prologue [simp]: "generation (prologue config io s) = generation s"
  by (auto simp: prologue_def notify_exit_def pump_transport_def send_exit_def Let_def
    split: option.splits prod.splits)

lemma transport_prologue:
  "transport (prologue config io s) = transport s \<or> transport (prologue config io s) = None"
  by (auto simp: prologue_def notify_exit_def pump_transport_def send_exit_def Let_def
    split: option.splits prod.splits if_splits)

lemma generation_advance:
  "advance_client io payload s = Inr s' \<Longrightarrow> generation s' = generation s \<and> transport s' = transport s"
  by (auto simp: advance_client_def split: option.splits)

lemma generation_queue:
  "queue_server_frame line s = Inr s' \<Longrightarrow> generation s' = generation s \<and> transport s' = transport s"
  by (auto simp: queue_server_frame_def split: option.splits)

lemma generation_deliver:
  assumes "deliver cx io payload s = Inr s'"
  shows "generation s' = generation s \<and> transport s' = transport s"
  using assms by (cases rule: deliver_cases) (auto dest!: generation_advance generation_queue)

lemma generation_handle:
  assumes "handle_client_envelope cx io env s = Inr s'"
  shows "generation s' = generation s \<and> transport s' = transport s"
proof (cases "\<exists>n p. env = Acp (Some n) p")
  case True
  then obtain n p where env: "env = Acp (Some n) p" by blast
  show ?thesis
  proof (cases "deliver cx io p (count_inbound p s) = Inr s'")
    case True
    from generation_deliver [OF this] show ?thesis by simp
  next
    case False
    with assms env show ?thesis by (auto simp: Let_def split: if_splits)
  qed
next
  case False
  with assms show ?thesis
    by (cases "(cx, io, env, s)" rule: handle_client_envelope.cases) (auto split: prod.splits if_splits)
qed

lemma generation_receive:
  "receive_envelope cx io env s = Inr s' \<Longrightarrow> generation s' = generation s \<and> transport s' = transport s"
  by (auto simp: receive_envelope_def rbind_Inr_iff dest: generation_handle split: if_splits)

lemma branch_envelope_Some:
  assumes "branch_envelope event s = Some env"
  obtains e where "event = TransportRecv (Some e)" and "transport s = Some (te_generation e)"
    and "te_kind e = EvEnvelope env"
  using assms
  by (cases "(event, s)" rule: branch_envelope.cases) (auto split: if_splits transport_event_kind.splits)

text \<open>A turn that handles an envelope stays with its transport.\<close>

lemma handled_generation:
  assumes it: "iteration cx io event s = Some (Inr s')" and "handled_envelope cx io event s = Some env"
  shows "generation s' = generation s" and "transport s \<noteq> None" and "transport s' = transport s"
proof -
  let ?s = "prologue (cx_config cx) io s"
  from assms(2) have ended: "end_category ?s = None" and br: "branch_envelope event ?s = Some env"
    by (auto simp: handled_envelope_def Let_def split: if_splits)
  from branch_envelope_Some [OF br] obtain e where e: "event = TransportRecv (Some e)"
    "transport ?s = Some (te_generation e)" "te_kind e = EvEnvelope env" .
  from it ended have "take_branch cx io event ?s = Inr s'"
    by (auto simp: iteration_def Let_def split: if_splits)
  then have "receive_envelope cx io env ?s = Inr s'" using e by (simp add: receive_transport_def)
  from generation_receive [OF this] have "generation s' = generation s" "transport s' = transport ?s"
    by simp_all
  moreover have "transport s = Some (te_generation e)"
    using e(2) transport_prologue [of "cx_config cx" io s] by auto
  ultimately show "generation s' = generation s" "transport s \<noteq> None" "transport s' = transport s"
    using e(2) by simp_all
qed

end
