(* ===== verification/Acp_Session_End.thy ===== *)
theory Acp_Session_End
  imports Acp_Session_Refine
begin

text \<open>
  \<^verbatim>\<open>server.rs\<close>, \<open>run_agent_session\<close> as a whole: the first transport, the loop over the
  turns of \<open>Acp_Session\<close> and what follows the loop (closing the agent's input, reaping
  the process, the last notices to the connector, the result). The loop is given the
  list of the events it meets; it is still running when the list is used up.
\<close>

section \<open>The start\<close>

definition initial_counters :: counters where
  "initial_counters = \<lparr>inbound_frames = 0, inbound_bytes = 0, dropped_stderr_frames = 0\<rparr>"

definition initial_session :: "nat \<Rightarrow> transport_command list \<Rightarrow> session" where
  "initial_session now cs =
     \<lparr>pending = [], pending_bytes = 0, next_server_sequence = 1, expected_client_sequence = 1,
      generation = 1, transport = Some 1, commands = map (\<lambda>c. (1, c)) cs,
      detached_deadline = None, last_received = now, child_status = None, resumed_count = 0,
      exit_was_sent = False, shutdown_reason = None, end_category = None, agent_stdin = [],
      resumable = True, session_counters = initial_counters, queued = [], consumed = []\<rparr>"

definition start_session :: "session_context \<Rightarrow> session_io \<Rightarrow> agent_process \<Rightarrow> error + session" where
  "start_session cx io process =
     rbind (take_stdin process) (\<lambda>p1.
     rbind (take_stdout p1) (\<lambda>p2.
     rbind (take_stderr p2) (\<lambda>_.
       case attach_transport (io_setup io) 1
              (Ready TUNNEL_VERSION (cx_connection_id cx) (Some (cx_resume_token cx)) False) None [] of
         (_, cs, result) \<Rightarrow> rbind result (\<lambda>_. Inr (initial_session (io_now io) cs)))))"

lemma initial_session_inv:
  assumes "\<forall>c\<in>set cs. plain_command 1 c"
  shows "session_inv cx (initial_session now cs)"
    and "server_sender (initial_session now cs)
      = \<lparr>sd_payloads = [], sd_first = 1, sd_conn = Some 1, sd_sent = 1, sd_logs = (\<lambda>_. [])\<rparr>"
proof -
  have "acp_stream g (map (\<lambda>c. (1, c)) cs) = []" for g
    using assms by (induction cs) (auto simp: acp_stream_def List.map_filter_def plain_command_def split: if_splits)
  then show "server_sender (initial_session now cs)
      = \<lparr>sd_payloads = [], sd_first = 1, sd_conn = Some 1, sd_sent = 1, sd_logs = (\<lambda>_. [])\<rparr>"
    by (simp add: server_sender_def initial_session_def first_retained_def unsent_def)
  show "session_inv cx (initial_session now cs)"
    using assms
    by (auto simp: session_inv_defs initial_session_def first_retained_def retains_def forwarded_def
      List.map_filter_def u64_max_def plain_command_def list_all_iff)
qed

lemma start_session_inv:
  assumes "start_session cx io process = Inr s"
  shows "session_inv cx s"
    and "server_sender s = \<lparr>sd_payloads = [], sd_first = 1, sd_conn = Some 1, sd_sent = 1, sd_logs = (\<lambda>_. [])\<rparr>"
proof -
  let ?ready = "Ready TUNNEL_VERSION (cx_connection_id cx) (Some (cx_resume_token cx)) False"
  from assms obtain fs cs where att: "attach_transport (io_setup io) 1 ?ready None [] = (fs, cs, Inr ())"
    and s: "s = initial_session (io_now io) cs"
    by (auto simp: start_session_def rbind_Inr_iff split: prod.splits)
  from att have "cs = [CmdEnvelope ?ready]"
    by (auto simp: attach_transport_def split: setup_answer.splits)
  then have silent: "\<forall>c\<in>set cs. plain_command 1 c" by (simp add: plain_command_def ack_below_def)
  show "session_inv cx s" unfolding s using silent by (rule initial_session_inv)
  show "server_sender s = \<lparr>sd_payloads = [], sd_first = 1, sd_conn = Some 1, sd_sent = 1, sd_logs = (\<lambda>_. [])\<rparr>"
    unfolding s using silent by (rule initial_session_inv)
qed

lemma start_session_ready:
  assumes "start_session cx io process = Inr s"
  shows "commands s = [(1, CmdEnvelope (Ready TUNNEL_VERSION (cx_connection_id cx) (Some (cx_resume_token cx)) False))]"
    and "generation s = 1" and "transport s = Some 1" and "expected_client_sequence s = 1" and "consumed s = []"
  using assms
  by (auto simp: start_session_def rbind_Inr_iff attach_transport_def initial_session_def
    split: prod.splits setup_answer.splits)

section \<open>The loop\<close>

fun session_loop ::
    "session_context \<Rightarrow> (session_io \<times> select_event) list \<Rightarrow> session \<Rightarrow> (error + session) option" where
  "session_loop cx [] s = (if end_category s = None then None else Some (Inr s))"
| "session_loop cx ((io, event) # inputs) s =
     (if end_category s \<noteq> None then Some (Inr s)
      else case iteration cx io event s of
             None \<Rightarrow> None
           | Some (Inl e) \<Rightarrow> Some (Inl e)
           | Some (Inr s') \<Rightarrow> session_loop cx inputs s')"

lemma session_loop_inv:
  assumes "session_loop cx inputs s = Some (Inr s')" and "session_inv cx s"
    and "replay_limits (cx_config cx)" and "\<forall>(io, event)\<in>set inputs. event_ok (cx_config cx) event"
  shows "session_inv cx s' \<and> end_category s' \<noteq> None"
  using assms
proof (induction cx inputs s rule: session_loop.induct)
  case (1 cx s)
  then show ?case by (auto split: if_splits)
next
  case (2 cx io event inputs s)
  show ?case
  proof (cases "end_category s = None")
    case True
    with 2(2) obtain s1 where it: "iteration cx io event s = Some (Inr s1)"
      and rest: "session_loop cx inputs s1 = Some (Inr s')"
      by (auto split: option.splits sum.splits)
    have "session_inv cx s1"
      using iteration_turn [OF 2(3) it _ 2(4)] 2(5) by (auto dest: turn_to_inv)
    with 2 it rest True show ?thesis by auto
  next
    case False
    with 2(2,3) show ?thesis by auto
  qed
qed

section \<open>After the loop\<close>

datatype end_action = CloseStdin | Reap os_action

record end_io =
  en_os :: os_answers
  en_pid :: nat
  en_send_error :: bool     \<comment> \<open>the error envelope is accepted\<close>
  en_notice :: session_io

definition client_shutdown :: "session \<Rightarrow> bool" where
  "client_shutdown s \<longleftrightarrow> end_category s = Some ''client_shutdown''"

definition reap_agent :: "session_context \<Rightarrow> end_io \<Rightarrow> session \<Rightarrow> exit_status os" where
  "reap_agent cx en s =
     (case child_status s of
        Some status \<Rightarrow> os_return (Inr status)
      | None \<Rightarrow>
          if client_shutdown s
          then graceful_shutdown_and_reap (en_os en) (en_pid en)
                 (shutdown_timeout (cx_config cx)) (shutdown_timeout (cx_config cx))
          else terminate_and_reap (en_os en) (en_pid en) (shutdown_timeout (cx_config cx)))"

definition category_of :: "session \<Rightarrow> string" where
  "category_of s = (case end_category s of None \<Rightarrow> ''unknown'' | Some c \<Rightarrow> c)"

definition last_notices :: "end_io \<Rightarrow> exit_status \<Rightarrow> session \<Rightarrow> session" where
  "last_notices en status s =
     (case transport s of
        None \<Rightarrow> s
      | Some gen \<Rightarrow>
          if category_of s = ''client_shutdown''
          then fst (send_shutdown_complete (en_notice en) gen status s)
          else if \<not> exit_was_sent s \<and> category_of s \<noteq> ''client_close'' \<and> category_of s \<noteq> ''reconnect_timeout''
          then let s1 = (if en_send_error en
                         then accept gen [CmdEnvelope (ErrorEnvelope (category_of s)
                                (''tunnel ended: '' @ category_of s))] s
                         else s)
               in fst (send_exit (en_notice en) gen status s1)
          else s)"

definition session_result :: "exit_status \<Rightarrow> session \<Rightarrow> error + unit" where
  "session_result status s =
     (let c = category_of s
      in if (c = ''child_exit'' \<and> success status) \<or> c = ''client_shutdown'' then Inr ()
         else if c = ''server_shutdown'' then Inl (Network [Lit ''server is shutting down''])
         else if c = ''reconnect_timeout'' then Inl (Timeout ''waiting for client reconnect'')
         else Inl (Network [Lit ''tunnel ended: '', Disp c]))"

definition finish_session ::
    "session_context \<Rightarrow> end_io \<Rightarrow> session \<Rightarrow> session \<times> end_action list \<times> (error + unit) option" where
  "finish_session cx en s =
     (let closed = (if client_shutdown s then [CloseStdin] else [])
      in case reap_agent cx en s of
           (t, None) \<Rightarrow> (s, closed @ map Reap t, None)
         | (t, Some (Inl e)) \<Rightarrow> (s, closed @ map Reap t, Some (Inl e))
         | (t, Some (Inr status)) \<Rightarrow>
             let s1 = (last_notices en status (s\<lparr>child_status := Some status\<rparr>))\<lparr>transport := None\<rparr>
             in (s1, closed @ map Reap t, Some (session_result status s1)))"

text \<open>
  The whole session. An error inside the loop (\<open>?\<close>) returns at once: nothing after the
  loop runs.
\<close>

definition run_agent_session ::
    "session_context \<Rightarrow> session_io \<Rightarrow> agent_process \<Rightarrow> (session_io \<times> select_event) list \<Rightarrow> end_io
      \<Rightarrow> end_action list \<times> (error + unit) option" where
  "run_agent_session cx io process inputs en =
     (case start_session cx io process of
        Inl e \<Rightarrow> ([], Some (Inl e))
      | Inr s0 \<Rightarrow>
          (case session_loop cx inputs s0 of
             None \<Rightarrow> ([], None)
           | Some (Inl e) \<Rightarrow> ([], Some (Inl e))
           | Some (Inr s) \<Rightarrow> (case finish_session cx en s of (_, t, r) \<Rightarrow> (t, r))))"

section \<open>The states of a run\<close>

inductive session_reach :: "session_context \<Rightarrow> session \<Rightarrow> bool" for cx where
  session_started: "start_session cx io process = Inr s \<Longrightarrow> session_reach cx s"
| session_next: "session_reach cx s \<Longrightarrow> end_category s = None \<Longrightarrow> event_ok (cx_config cx) event \<Longrightarrow>
    iteration cx io event s = Some (Inr s') \<Longrightarrow> session_reach cx s'"

definition start_sender :: sender where
  "start_sender = \<lparr>sd_payloads = [], sd_first = 1, sd_conn = Some 1, sd_sent = 1, sd_logs = (\<lambda>_. [])\<rparr>"

lemma start_sender_wf: "sender_wf start_sender"
  by (simp add: sender_wf_def start_sender_def genuine_def numbers_below_def)

lemma session_reach_facts:
  assumes "session_reach cx s" and "replay_limits (cx_config cx)"
  shows "session_inv cx s \<and> (\<exists>acts. sender_run acts start_sender = Some (server_sender s))"
  using assms
proof (induction rule: session_reach.induct)
  case (session_started io process s)
  from start_session_inv [OF this(1)] have "session_inv cx s" "sender_run [] start_sender = Some (server_sender s)"
    by (simp_all add: start_sender_def)
  then show ?case by blast
next
  case (session_next s event io s')
  from session_next.IH [OF session_next.prems] obtain as where inv: "session_inv cx s"
    and as: "sender_run as start_sender = Some (server_sender s)" by blast
  from iteration_turn [OF inv session_next.hyps(4,3) session_next.prems] obtain bs where
    "session_inv cx s'" "sender_run bs (server_sender s) = Some (server_sender s')"
    by (auto simp: turn_to_def refines_by_def)
  with as sender_run_trans show ?case by blast
qed

text \<open>A concrete session: an agent with pipes, a transport that takes everything.\<close>

definition example_cx :: session_context where
  "example_cx = \<lparr>cx_config = example_config, cx_policy = example_policy Deny, cx_env = example_policy_env JNull,
     cx_connection_id = ''c1'', cx_resume_token = ''r1''\<rparr>"

definition example_io :: session_io where
  "example_io = \<lparr>io_now = 0, io_pump = (\<lambda>_. TrySent), io_try_send = TrySent, io_send = True, io_stdin = None,
     io_notice_accepted = True, io_notice = NoticeSent, io_setup = (\<lambda>_. SetupSent), io_nonce = ''n''\<rparr>"

definition example_process :: agent_process where
  "example_process = \<lparr>ap_pid = 42, ap_stdin = True, ap_stdout = True, ap_stderr = True\<rparr>"

definition example_session :: session where
  "example_session = initial_session 0 [CmdEnvelope (Ready TUNNEL_VERSION ''c1'' (Some ''r1'') False)]"

lemmas example_defs =
  example_cx_def example_io_def example_config_def default_config_def DEFAULT_MAX_FRAME_BYTES_def u64_max_def
  example_serde_def example_policy_env_def

lemmas session_defs =
  iteration_def prologue_def pump_transport_def notify_exit_def queue_server_frame_def push_frame_def
  checked_add_def saturating_add_def can_read_agent_def saturating_sub_def accept_def acp_of_def
  receive_transport_def receive_envelope_def count_inbound_def deliver_def advance_client_def
  send_client_ack_def send_ignoring_error_def checked_sub_def policy_apply_def sniff_method_def fetch_add_def

lemma example_started: "start_session example_cx example_io example_process = Inr example_session"
  by (simp add: start_session_def example_process_def take_stdin_def take_stdout_def take_stderr_def
    attach_transport_def example_io_def example_cx_def example_session_def)

lemma example_limits: "replay_limits (cx_config example_cx)"
  by (simp add: replay_limits_def example_defs)

lemma example_session_reach:
  obtains s where "session_reach example_cx s" and "queued s = [''hi'']" and "length (pending s) = 1"
    and "transport s = Some 1"
proof -
  let ?event = "AgentRecv (Some (AgentAcp ''hi''))"
  obtain s where s: "iteration example_cx example_io ?event example_session = Some (Inr s)"
    "queued s = [''hi'']" "length (pending s) = 1" "transport s = Some 1"
    by (simp add: session_defs example_defs example_session_def initial_session_def)
  have "session_reach example_cx s"
    by (rule session_next [OF session_started [OF example_started] _ _ s(1)])
       (simp_all add: example_session_def initial_session_def example_defs)
  with s that show ?thesis by blast
qed

section \<open>Transport, deadline and exit status\<close>

text \<open>The part of a session that a delivery of lines does not touch.\<close>

definition outer :: "session \<Rightarrow> nat option \<times> nat option \<times> exit_status option \<times> string option" where
  "outer s = (transport s, detached_deadline s, child_status s, end_category s)"

lemma outer_simps [simp]:
  "outer (accept gen cs s) = outer s"
  "outer (send_ignoring_error io c s) = outer s"
  "outer (send_client_ack io n s) = outer s"
  "outer (count_inbound payload s) = outer s"
  by (simp_all add: outer_def accept_def send_ignoring_error_def send_client_ack_def count_inbound_def
    split: option.splits)

lemma outer_queue: "queue_server_frame payload s = Inr s' \<Longrightarrow> outer s' = outer s"
  by (auto simp: queue_server_frame_def outer_def split: option.splits)

lemma outer_advance: "advance_client io payload s = Inr s' \<Longrightarrow> outer s' = outer s"
  by (auto simp: advance_client_def split: option.splits) (simp add: outer_def)

lemma outer_deliver:
  assumes "deliver cx io payload s = Inr s'"
  shows "outer s' = outer s \<or> s' = end_with ''replay_buffer_exhausted'' s"
proof -
  from assms obtain outcome where pol: "policy_apply (cx_env cx) (cx_policy cx) payload = Inr outcome"
    by (auto simp: deliver_def rbind_Inr_iff)
  show ?thesis
  proof (cases outcome)
    case (Forward line)
    with assms pol have "advance_client io payload (s\<lparr>agent_stdin := agent_stdin s @ [line]\<rparr>) = Inr s'"
      by (simp add: deliver_def split: option.splits)
    from outer_advance [OF this] show ?thesis by (simp add: outer_def)
  next
    case (Reject line)
    with assms pol consider "s' = end_with ''replay_buffer_exhausted'' s"
      | s1 where "queue_server_frame line s = Inr s1" "advance_client io payload s1 = Inr s'"
      by (auto simp: deliver_def rbind_Inr_iff split: if_splits)
    then show ?thesis by cases (auto dest!: outer_advance outer_queue)
  qed
qed

text \<open>
  A session with a transport has no deadline, and its exit was notified only with a known status.
\<close>

definition tidy :: "session \<Rightarrow> bool" where
  "tidy s \<longleftrightarrow> (transport s = None \<or> detached_deadline s = None) \<and>
     (end_category s = Some ''child_exit'' \<longrightarrow> child_status s \<noteq> None)"

lemma tidy_outer: "outer s' = outer s \<Longrightarrow> tidy s' = tidy s"
  by (simp add: tidy_def outer_def)

lemma tidy_end: "tidy s \<Longrightarrow> category \<noteq> ''child_exit'' \<Longrightarrow> tidy (end_with category s)"
  by (simp add: tidy_def end_with_def)

lemma tidy_detach [simp]: "tidy s \<Longrightarrow> tidy (detach_transport config io s)"
  by (simp add: tidy_def detach_transport_def)

lemma tidy_prologue: "tidy s \<Longrightarrow> tidy (prologue config io s)"
proof -
  assume tidy: "tidy s"
  have pump: "tidy (pump_transport config io s)"
    using tidy tidy_outer [of "accept gen cs (s\<lparr>pending := fs\<rparr>)" s for gen cs fs]
    by (auto simp: pump_transport_def Let_def outer_def [of "s\<lparr>pending := _\<rparr>"] outer_def [of s]
      split: option.splits prod.splits)
  show ?thesis
    using pump tidy_outer [of "accept gen cs (pump_transport config io s)" "pump_transport config io s" for gen cs]
    by (auto simp: prologue_def notify_exit_def send_exit_def end_with_def tidy_def accept_def detach_transport_def
      split: option.splits prod.splits if_splits)
qed

lemma tidy_handle:
  assumes "handle_client_envelope cx io env s = Inr s'" and "tidy s"
  shows "tidy s'"
proof (cases env)
  case (Acp sequence payload)
  show ?thesis
  proof (cases sequence)
    case None
    with assms Acp show ?thesis by (auto intro: tidy_end)
  next
    case (Some n)
    define c where "c = count_inbound payload s"
    have counted: "tidy c" using assms(2) tidy_outer [of c s] by (simp add: c_def)
    have "handle_client_envelope cx io (Acp (Some n) payload) s =
      (if max_frame_bytes (cx_config cx) < length payload then Inr (end_with ''oversized_acp_line'' c)
       else if expected_client_sequence c < n then Inr (end_with ''client_sequence_gap'' c)
       else if n < expected_client_sequence c then Inr (send_client_ack io (expected_client_sequence c) c)
       else deliver cx io payload c)"
      by (simp add: c_def Let_def)
    with assms(1) Acp Some have "s' = end_with ''oversized_acp_line'' c \<or> s' = end_with ''client_sequence_gap'' c \<or>
        outer s' = outer c \<or> deliver cx io payload c = Inr s'"
      by (auto split: if_splits)
    moreover have "outer s' = outer c \<or> s' = end_with ''replay_buffer_exhausted'' c" if "deliver cx io payload c = Inr s'"
      using that by (rule outer_deliver)
    ultimately show ?thesis using counted tidy_outer [of s' c] tidy_end [OF counted] by auto
  qed
next
  case (Ack stream q)
  with assms show ?thesis
    by (cases stream) (auto simp: tidy_def end_with_def split: if_splits prod.splits)
next
  case (Ping nonce)
  with assms show ?thesis using tidy_outer [of s' s] by auto
qed (use assms in \<open>auto simp: tidy_def end_with_def split: if_splits\<close>)

lemma tidy_take_branch:
  assumes "take_branch cx io event s = Inr s'" and "tidy s"
  shows "tidy s'"
proof (cases event)
  case (ChildExited status)
  with assms show ?thesis by (auto simp: rbind_Inr_iff tidy_def)
next
  case (Attachment socket)
  with assms show ?thesis
    by (auto simp: attach_socket_def Let_def tidy_def accept_def split: if_splits option.splits prod.splits sum.splits)
next
  case KeepaliveTick
  with assms show ?thesis using tidy_outer [of s' s] by (auto simp: keepalive_tick_def split: option.splits if_splits)
next
  case (TransportRecv e)
  show ?thesis
  proof (cases e)
    case None
    with assms TransportRecv show ?thesis by (auto intro: tidy_end)
  next
    case (Some event)
    with assms(1) TransportRecv have r: "receive_transport cx io event s = Inr s'" by simp
    have clock: "tidy (s\<lparr>last_received := now\<rparr>)" for now using assms(2) by (simp add: tidy_def)
    show ?thesis
    proof (cases "transport s = Some (te_generation event)")
      case False
      with r assms(2) show ?thesis by (simp add: receive_transport_def)
    next
      case True
      show ?thesis
      proof (cases "te_kind event")
        case (EvEnvelope env)
        with r True obtain s1 where h: "handle_client_envelope cx io env (s\<lparr>last_received := io_now io\<rparr>) = Inr s1"
          and s': "s' = s1 \<or> s' = end_with ''client_shutdown'' (s1\<lparr>resumable := False\<rparr>)"
          by (auto simp: receive_transport_def receive_envelope_def rbind_Inr_iff split: if_splits)
        from tidy_handle [OF h clock] s' show ?thesis by (auto simp: tidy_def end_with_def)
      qed (use r True assms(2) clock in \<open>auto simp: receive_transport_def intro: tidy_end tidy_detach\<close>)
    qed
  qed
next
  case (AgentRecv e)
  show ?thesis
  proof (cases e)
    case None
    with assms AgentRecv show ?thesis by simp
  next
    case (Some event)
    then show ?thesis
    proof (cases event)
      case (AgentAcp payload)
      with assms(1) AgentRecv Some have "queue_server_frame payload s = Inr s'" by simp
      from tidy_outer [OF outer_queue [OF this]] assms(2) show ?thesis by simp
    qed (use assms AgentRecv Some in \<open>auto intro: tidy_end\<close>)
  qed
next
  case (DiagnosticRecv e)
  have "tidy (forward_diagnostic io payload s)" for payload
    using assms(2) by (auto simp: forward_diagnostic_def tidy_def accept_def split: option.split)
  with assms DiagnosticRecv show ?thesis by (cases e) auto
qed (use assms in \<open>auto intro: tidy_end\<close>)

lemma session_reach_tidy: "session_reach cx s \<Longrightarrow> tidy s"
proof (induction rule: session_reach.induct)
  case (session_started io process s)
  then show ?case
    by (auto simp: start_session_def rbind_Inr_iff tidy_def initial_session_def split: prod.splits)
next
  case (session_next s event io s')
  from tidy_prologue [OF session_next.IH] session_next.hyps(4) show ?case
    by (auto simp: iteration_def Let_def dest: tidy_take_branch split: if_splits)
qed

text \<open>A state that is reached is reached by the loop.\<close>

lemma session_reach_loop:
  assumes "session_reach cx s"
  obtains io process inputs s0 where "start_session cx io process = Inr s0"
    and "\<And>more. session_loop cx (inputs @ more) s0 = session_loop cx more s"
proof -
  have "\<exists>io process inputs s0. start_session cx io process = Inr s0 \<and>
      (\<forall>more. session_loop cx (inputs @ more) s0 = session_loop cx more s)"
    using assms
  proof (induction rule: session_reach.induct)
    case (session_started io process s)
    then show ?case by (intro exI [of _ io] exI [of _ process] exI [of _ "[]"] exI [of _ s]) simp
  next
    case (session_next s event io s')
    then obtain io0 process inputs s0 where "start_session cx io0 process = Inr s0"
      and run: "\<forall>more. session_loop cx (inputs @ more) s0 = session_loop cx more s" by blast
    moreover have "session_loop cx ((inputs @ [(io, event)]) @ more) s0 = session_loop cx more s'" for more
      using run session_next.hyps(2,4) by simp
    ultimately show ?case by blast
  qed
  with that show thesis by blast
qed

section \<open>Properties\<close>

text \<open>
  C9. In every state of a session the replay buffer keeps within the configured numbers of frames
  and bytes, its byte count is the exact sum of its payloads, and its sequence numbers are
  consecutive up to the last one given out.
\<close>

theorem session_buffer_bounded:
  assumes "session_reach cx s" and "replay_limits (cx_config cx)"
  shows "length (pending s) \<le> max_replay_frames (cx_config cx) \<and>
    pending_bytes s \<le> max_replay_bytes (cx_config cx) \<and>
    pending_bytes s = sum_list (map (length \<circ> rf_payload) (pending s)) \<and>
    map rf_sequence (pending s) = [next_server_sequence s - length (pending s)..<next_server_sequence s]"
proof -
  from session_reach_facts [OF assms] have inv: "buffer_inv (cx_config cx) s" by (simp add: session_inv_def)
  have "map frame_view (pending s) = numbered (queued s) (first_retained s) (next_server_sequence s)"
    using inv by (rule retained_length)
  then have "map fst (map frame_view (pending s)) = [first_retained s..<next_server_sequence s]"
    by (simp only: map_fst_numbered)
  moreover have "fst \<circ> frame_view = rf_sequence" "length \<circ> snd \<circ> frame_view = length \<circ> rf_payload"
    by (auto simp: frame_view_def)
  ultimately have "map rf_sequence (pending s) = [first_retained s..<next_server_sequence s]"
    "payload_bytes (map frame_view (pending s)) = sum_list (map (length \<circ> rf_payload) (pending s))"
    by (simp_all only: map_map payload_bytes_def o_assoc)
  then show ?thesis
    using inv by (simp add: buffer_inv_def retains_def first_retained_def)
qed

theorem session_buffer_bounded_witness:
  "\<exists>s. session_reach example_cx s \<and> length (pending s) = 1 \<and>
     map rf_sequence (pending s) = [next_server_sequence s - 1..<next_server_sequence s]"
proof -
  obtain s where s: "session_reach example_cx s" "length (pending s) = 1" by (rule example_session_reach)
  with session_buffer_bounded [OF s(1) example_limits] show ?thesis by auto
qed

text \<open>
  C6. A session is, for the lines of its agent, the abstract sender: whatever the connector sends
  and however transports come and go, its run is a run of the specification, in which a line is
  numbered once, kept until it is acknowledged, and sent again from the first kept line when a
  transport is attached.
\<close>

theorem session_refines_sender:
  assumes "session_reach cx s" and "replay_limits (cx_config cx)"
  shows "\<exists>acts. sender_run acts start_sender = Some (server_sender s)"
  using session_reach_facts [OF assms] by blast

theorem session_refines_sender_witness:
  "\<exists>s. session_reach example_cx s \<and> queued s = [''hi''] \<and>
     (\<exists>acts. sender_run acts start_sender = Some (server_sender s))"
proof -
  obtain s where s: "session_reach example_cx s" "queued s = [''hi'']" by (rule example_session_reach)
  with session_refines_sender [OF s(1) example_limits] show ?thesis by blast
qed

text \<open>
  C8. Even with a connector that does not follow the protocol, the frames sent on each transport
  have strictly increasing numbers, and every one carries the line of the agent with its number.
\<close>

theorem transport_streams_genuine:
  assumes "session_reach cx s" and "replay_limits (cx_config cx)"
  shows "sorted_wrt (<) (map fst (acp_stream g (commands s))) \<and>
    (\<forall>n p. (n, p) \<in> set (acp_stream g (commands s)) \<longrightarrow>
       1 \<le> n \<and> n \<le> length (queued s) \<and> p = queued s ! (n - 1))"
proof -
  from session_reach_facts [OF assms] obtain acts where
    "sender_run acts start_sender = Some (server_sender s)" by blast
  from sender_run_wf [OF start_sender_wf this] have "genuine (queued s) (acp_stream g (commands s))"
    by (simp add: sender_wf_def server_sender_def)
  then show ?thesis by (auto simp: genuine_def payload_at_def)
qed

theorem transport_streams_genuine_witness:
  "\<exists>s. session_reach example_cx s \<and> queued s = [''hi''] \<and>
     sorted_wrt (<) (map fst (acp_stream 1 (commands s)))"
proof -
  obtain s where s: "session_reach example_cx s" "queued s = [''hi'']" by (rule example_session_reach)
  with transport_streams_genuine [OF s(1) example_limits] show ?thesis by blast
qed

text \<open>
  A transport that disconnects or closes leaves the session waiting with a deadline, one grace
  period away unless one was already set; when the deadline passes first, the loop ends with the
  category \<open>reconnect_timeout\<close>.
\<close>

theorem disconnect_arms_deadline:
  assumes "transport s = Some g" and "kind \<in> {EvDisconnected, EvClosed}"
  shows "\<exists>s'. take_branch cx io (TransportRecv (Some \<lparr>te_generation = g, te_kind = kind\<rparr>)) s = Inr s' \<and>
    transport s' = None \<and> pending s' = pending s \<and>
    detached_deadline s' = (if detached_deadline s = None
      then Some (io_now io + reconnect_grace (cx_config cx)) else detached_deadline s) \<and>
    branch_enabled (cx_config cx) s' DeadlineElapsed \<and>
    (\<exists>s''. take_branch cx io' DeadlineElapsed s' = Inr s'' \<and> end_category s'' = Some ''reconnect_timeout'')"
  using assms
  by (auto simp: receive_transport_def detach_transport_def split: option.splits)

theorem disconnect_arms_deadline_witness:
  "\<exists>s'. take_branch example_cx example_io
      (TransportRecv (Some \<lparr>te_generation = 1, te_kind = EvDisconnected\<rparr>)) example_session = Inr s' \<and>
    transport s' = None \<and> detached_deadline s' = Some (reconnect_grace example_config)"
proof -
  have tr: "transport example_session = Some 1" and none: "detached_deadline example_session = None"
    by (simp_all add: example_session_def initial_session_def)
  have "EvDisconnected \<in> {EvDisconnected, EvClosed}" by simp
  from disconnect_arms_deadline [OF tr this, of example_cx example_io example_io] none show ?thesis
    by (auto simp: example_cx_def example_io_def)
qed

definition orphaned :: "session \<Rightarrow> bool" where
  "orphaned s \<longleftrightarrow> transport s = None \<and> detached_deadline s = None \<and> end_category s = None"

lemma orphaned_prologue: "orphaned s \<Longrightarrow> prologue config io s = s"
  by (simp add: orphaned_def prologue_def pump_transport_def notify_exit_def split: option.splits)

lemma orphaned_branch:
  assumes "orphaned s" and "take_branch cx io event s = Inr s'" and "branch_enabled config s event"
    and "event \<notin> {Attachment True, ServerShutdown, TransportRecv None, AgentRecv (Some StdoutError)}"
  shows "orphaned s'"
proof -
  have s: "transport s = None" "detached_deadline s = None" "end_category s = None"
    using assms(1) by (simp_all add: orphaned_def)
  show ?thesis
  proof (cases event)
    case (ChildExited status)
    with assms(2) s show ?thesis by (auto simp: rbind_Inr_iff orphaned_def)
  next
    case (TransportRecv e)
    with assms(2,4) s have "s' = s" by (cases e) (simp_all add: receive_transport_def)
    with assms(1) show ?thesis by simp
  next
    case (AgentRecv e)
    with assms(2,4) have "s' = s \<or> (\<exists>payload. queue_server_frame payload s = Inr s')"
      by (cases "the e"; cases e) auto
    then show ?thesis
      using s by (auto simp: orphaned_def queue_server_frame_def split: option.splits)
  next
    case (DiagnosticRecv e)
    with assms(2) s have "s' = s" by (cases e) (simp_all add: forward_diagnostic_def)
    with assms(1) show ?thesis by simp
  qed (use assms s in \<open>simp_all add: keepalive_tick_def\<close>)
qed

lemma orphaned_iteration:
  assumes "orphaned s" and "iteration cx io event s = Some (Inr s')"
    and "event \<notin> {Attachment True, ServerShutdown, TransportRecv None, AgentRecv (Some StdoutError)}"
  shows "orphaned s'"
proof -
  have "end_category s = None" using assms(1) by (simp add: orphaned_def)
  with assms(2) have "take_branch cx io event s = Inr s'" "branch_enabled (cx_config cx) s event"
    by (auto simp: iteration_def Let_def orphaned_prologue [OF assms(1)] split: if_splits)
  from orphaned_branch [OF assms(1) this assms(3)] show ?thesis .
qed

lemma orphaned_loop:
  assumes "orphaned s"
    and "\<forall>(io, event)\<in>set inputs. event \<notin> {Attachment True, ServerShutdown, TransportRecv None, AgentRecv (Some StdoutError)}"
  shows "session_loop cx inputs s \<noteq> Some (Inr s')"
  using assms
proof (induction cx inputs s rule: session_loop.induct)
  case (1 cx s)
  then show ?case by (simp add: orphaned_def)
next
  case (2 cx io event inputs s)
  have none: "end_category s = None" using 2(2) by (simp add: orphaned_def)
  show ?case
  proof (cases "iteration cx io event s")
    case None
    with none show ?thesis by simp
  next
    case (Some r)
    show ?thesis
    proof (cases r)
      case (Inl e)
      with Some none show ?thesis by simp
    next
      case (Inr s1)
      have "orphaned s1" using orphaned_iteration [OF 2(2)] Some Inr 2(3) by simp
      with 2(1) none Some Inr 2(3) show ?thesis by simp
    qed
  qed
qed

text \<open>
  C24. What a resumption that fails in the setup of its transport does to the deadline: it leaves it as it is. In a
  session that had lost its connection the deadline is set and stays, and ends the session with
  \<open>reconnect_timeout\<close>. But when the resumption replaces a transport that was still attached, which is dropped
  first, there is no deadline and none is set: from then on no turn ends the loop in order, except a new attachment,
  the shutdown of the server, the end of the transport channel or an unreadable line of the agent.
\<close>

theorem failed_attach_waits_forever:
  assumes "session_reach cx s" and "iteration cx io (Attachment True) s = Some (Inr s')"
    and "end_category s' = None" and "transport s' = None"
  shows "detached_deadline s' = detached_deadline (prologue (cx_config cx) io s) \<and>
    (detached_deadline s' \<noteq> None \<longrightarrow>
       branch_enabled (cx_config cx) s' DeadlineElapsed \<and>
       (\<exists>s''. iteration cx io' DeadlineElapsed s' = Some (Inr s'') \<and> end_category s'' = Some ''reconnect_timeout'')) \<and>
    (transport (prologue (cx_config cx) io s) \<noteq> None \<longrightarrow>
       detached_deadline s' = None \<and>
       (\<forall>inputs s''. (\<forall>(io1, event)\<in>set inputs.
            event \<notin> {Attachment True, ServerShutdown, TransportRecv None, AgentRecv (Some StdoutError)}) \<longrightarrow>
          session_loop cx inputs s' \<noteq> Some (Inr s'')))"
proof -
  let ?s = "prologue (cx_config cx) io s"
  have "end_category ?s = None"
  proof (rule ccontr)
    assume "end_category ?s \<noteq> None"
    with assms(2) have "s' = ?s" by (simp add: iteration_def)
    with \<open>end_category ?s \<noteq> None\<close> assms(3) show False by simp
  qed
  with assms(2) have attach: "attach_socket cx io ?s = Inr s'" by (simp add: iteration_def)
  with assms(4) have deadline: "detached_deadline s' = detached_deadline ?s"
    by (auto simp: attach_socket_def Let_def accept_def split: option.splits prod.splits sum.splits)
  have idle: "prologue config io1 s' = s'" for config io1
    using assms(4) by (simp add: prologue_def pump_transport_def notify_exit_def split: option.splits)
  have armed: "branch_enabled (cx_config cx) s' DeadlineElapsed \<and>
      (\<exists>s''. iteration cx io' DeadlineElapsed s' = Some (Inr s'') \<and> end_category s'' = Some ''reconnect_timeout'')"
    if "detached_deadline s' \<noteq> None"
    using that assms(3) by (simp add: iteration_def idle end_with_def)
  have "orphaned s'" if "transport ?s \<noteq> None"
    using tidy_prologue [OF session_reach_tidy [OF assms(1)], of "cx_config cx" io] that deadline assms(3,4)
    by (simp add: tidy_def orphaned_def)
  then show ?thesis using deadline armed orphaned_loop [of s'] by (simp add: orphaned_def)
qed

theorem failed_attach_waits_forever_witness:
  "\<exists>s'. iteration example_cx (example_io\<lparr>io_setup := (\<lambda>_. SetupClosed)\<rparr>) (Attachment True) example_session = Some (Inr s') \<and>
     detached_deadline s' = None \<and>
     (\<forall>s''. session_loop example_cx [(example_io, KeepaliveTick), (example_io, ChildExited (Inr
        \<lparr>es_code = Some 0, es_signal = None\<rparr>)), (example_io, KeepaliveTick)] s' \<noteq> Some (Inr s''))"
proof -
  let ?io = "example_io\<lparr>io_setup := (\<lambda>_. SetupClosed)\<rparr>"
  let ?inputs = "[(example_io, KeepaliveTick), (example_io, ChildExited (Inr \<lparr>es_code = Some 0, es_signal = None\<rparr>)),
    (example_io, KeepaliveTick)]"
  obtain s' where s': "iteration example_cx ?io (Attachment True) example_session = Some (Inr s')"
    "end_category s' = None" "transport s' = None"
    by (simp add: iteration_def prologue_def pump_transport_def notify_exit_def attach_socket_def attach_transport_def
      checked_add_def u64_max_def accept_def Let_def example_session_def initial_session_def)
  have tr: "transport (prologue (cx_config example_cx) ?io example_session) \<noteq> None"
    by (simp add: prologue_def pump_transport_def notify_exit_def accept_def example_session_def initial_session_def)
  have "\<forall>(io1, event)\<in>set ?inputs.
      event \<notin> {Attachment True, ServerShutdown, TransportRecv None, AgentRecv (Some StdoutError)}" by simp
  with failed_attach_waits_forever [OF session_started [OF example_started] s', of example_io] tr s'(1)
  show ?thesis by blast
qed

text \<open>
  C26. A session whose agent no longer takes its input ends without reaping it. From every state of the loop with an
  attached transport and a running agent: if the next thing that happens is the expected line of the connector and
  writing it to the agent fails, the whole session returns that error with no action on the process and no
  message to the connector, whereas an envelope that cannot be read, in the same state, has the agent terminated and
  reaped.
\<close>

theorem loop_error_skips_reaping:
  assumes "session_reach cx s" and "end_category s = None" and "child_status s = None"
    and "transport (pump_transport (cx_config cx) io s) = Some g"
    and "length payload \<le> max_frame_bytes (cx_config cx)"
    and "policy_apply (cx_env cx) (cx_policy cx) payload = Inr (Forward line)" and "io_stdin io = Some e"
  shows "\<exists>io0 process inputs s0. start_session cx io0 process = Inr s0 \<and>
    (\<forall>more. session_loop cx (inputs @ more) s0 = session_loop cx more s) \<and>
    (\<forall>en. run_agent_session cx io0 process (inputs @ [(io, TransportRecv (Some \<lparr>te_generation = g,
         te_kind = EvEnvelope (Acp (Some (expected_client_sequence s)) payload)\<rparr>))]) en = ([], Some (Inl (Io e)))) \<and>
    (\<forall>en. fst (run_agent_session cx io0 process (inputs @ [(io, TransportRecv (Some \<lparr>te_generation = g,
         te_kind = EvInvalidEnvelope\<rparr>))]) en)
       = map Reap (fst (terminate_and_reap (en_os en) (en_pid en) (shutdown_timeout (cx_config cx)))))"
proof -
  let ?s = "prologue (cx_config cx) io s"
  let ?line = "TransportRecv (Some \<lparr>te_generation = g, te_kind = EvEnvelope (Acp (Some (expected_client_sequence s)) payload)\<rparr>)"
  let ?bad = "TransportRecv (Some \<lparr>te_generation = g, te_kind = EvInvalidEnvelope\<rparr>)"
  obtain io0 process inputs s0 where start: "start_session cx io0 process = Inr s0"
    and run: "\<And>more. session_loop cx (inputs @ more) s0 = session_loop cx more s"
    using assms(1) by (rule session_reach_loop) blast
  have pro: "transport ?s = Some g" "end_category ?s = None" "child_status ?s = None"
    "expected_client_sequence ?s = expected_client_sequence s"
    using assms(2-4)
    by (auto simp: prologue_def notify_exit_def pump_transport_def accept_def detach_transport_def Let_def
      split: option.splits prod.splits)
  have "take_branch cx io ?line ?s = Inl (Io e)"
    using pro assms(5-7) by (simp add: receive_transport_def receive_envelope_def deliver_def count_inbound_def Let_def)
  then have "session_loop cx [(io, ?line)] s = Some (Inl (Io e))"
    using assms(2) pro by (simp add: iteration_def)
  then have failed: "run_agent_session cx io0 process (inputs @ [(io, ?line)]) en = ([], Some (Inl (Io e)))" for en
    using start run by (simp add: run_agent_session_def)
  have "session_loop cx [(io, ?bad)] s = Some (Inr (end_with ''invalid_envelope'' ?s))"
    using assms(2) pro by (simp add: iteration_def receive_transport_def end_with_def)
  moreover have "reap_agent cx en (end_with ''invalid_envelope'' ?s)
      = terminate_and_reap (en_os en) (en_pid en) (shutdown_timeout (cx_config cx))" for en
    using pro by (simp add: reap_agent_def client_shutdown_def end_with_def)
  ultimately have "fst (run_agent_session cx io0 process (inputs @ [(io, ?bad)]) en)
      = map Reap (fst (terminate_and_reap (en_os en) (en_pid en) (shutdown_timeout (cx_config cx))))" for en
    using start run
    by (simp add: run_agent_session_def finish_session_def Let_def client_shutdown_def end_with_def
      split: prod.splits option.splits sum.splits)
  with start run failed show ?thesis by blast
qed

definition example_end_io :: end_io where
  "example_end_io = \<lparr>en_os = example_os, en_pid = 42, en_send_error = True, en_notice = example_io\<rparr>"

theorem loop_error_skips_reaping_witness:
  "\<exists>io0 process inputs.
     run_agent_session example_cx io0 process (inputs @ [(example_io\<lparr>io_stdin := Some ''broken pipe''\<rparr>,
       TransportRecv (Some \<lparr>te_generation = 1, te_kind = EvEnvelope (Acp (Some 1) ''yo'')\<rparr>))]) example_end_io
     = ([], Some (Inl (Io ''broken pipe'')))"
proof -
  let ?io = "example_io\<lparr>io_stdin := Some ''broken pipe''\<rparr>"
  have policy: "policy_apply (cx_env example_cx) (cx_policy example_cx) ''yo'' = Inr (Forward ''yo'')"
    by (simp add: session_defs example_defs)
  have pump: "transport (pump_transport (cx_config example_cx) ?io example_session) = Some 1"
    by (simp add: pump_transport_def accept_def example_session_def initial_session_def)
  have s: "end_category example_session = None" "child_status example_session = None"
    by (simp_all add: example_session_def initial_session_def)
  have expected: "expected_client_sequence example_session = 1"
    by (simp add: example_session_def initial_session_def)
  have fits: "length ''yo'' \<le> max_frame_bytes (cx_config example_cx)" by (simp add: example_defs)
  have stdin: "io_stdin ?io = Some ''broken pipe''" by simp
  show ?thesis
    using loop_error_skips_reaping [OF session_started [OF example_started] s pump fits policy stdin]
    unfolding expected by blast
qed

lemma last_notices_end [simp]: "end_category (last_notices en status s) = end_category s"
  by (auto simp: last_notices_def send_shutdown_complete_def send_exit_def accept_def Let_def
    split: option.splits prod.splits)

lemma last_notices_status [simp]: "child_status (last_notices en status s) = child_status s"
  by (auto simp: last_notices_def send_shutdown_complete_def send_exit_def accept_def Let_def
    split: option.splits prod.splits)

text \<open>The exit status the loop knows was reported by the system.\<close>

lemma prologue_status [simp]: "child_status (prologue config io s) = child_status s"
  by (auto simp: prologue_def notify_exit_def pump_transport_def send_exit_def accept_def detach_transport_def end_with_def
    Let_def split: option.splits prod.splits)











end
