(* ===== verification/Acp_Auth.thy ===== *)
theory Acp_Auth
  imports Acp_Errors "HOL-Library.Word"
begin

text \<open>
  \<^verbatim>\<open>auth.rs\<close> and the token type of \<^verbatim>\<open>credentials.rs\<close>: the bearer header parser and
  the constant-time comparison of the static authenticator, byte by byte over the
  longer of the two strings. The trait \<open>Authenticator\<close> is the locale \<open>authenticator\<close>;
  the static authenticator interprets it.
\<close>

unbundle bit_operations_syntax

section \<open>Secret tokens\<close>

datatype secret_token = SecretToken string

fun expose :: "secret_token \<Rightarrow> string" where
  "expose (SecretToken s) = s"

definition secret_token_new :: "string \<Rightarrow> error + secret_token" where
  "secret_token_new value =
     (if value = [] then Inl (Config [Lit ''tunnel credential must not be empty''])
      else Inr (SecretToken value))"

lemma secret_token_new_Inr_iff:
  "secret_token_new s = Inr t \<longleftrightarrow> s \<noteq> [] \<and> t = SecretToken s"
  by (auto simp: secret_token_new_def)

section \<open>The static authenticator\<close>

definition byte_at :: "string \<Rightarrow> nat \<Rightarrow> 8 word" where
  "byte_at bytes index = (if index < length bytes then of_char (bytes ! index) else 0)"

fun accumulate_difference :: "string \<Rightarrow> string \<Rightarrow> nat list \<Rightarrow> 8 word \<Rightarrow> 8 word" where
  "accumulate_difference supplied expected [] difference = difference"
| "accumulate_difference supplied expected (index # indices) difference =
     accumulate_difference supplied expected indices
       (difference OR (byte_at supplied index XOR byte_at expected index))"

definition authenticate :: "secret_token \<Rightarrow> string \<Rightarrow> bool" where
  "authenticate token supplied =
     (let expected = expose token;
          same_length = (length supplied = length expected);
          maximum = max (length supplied) (length expected);
          difference = accumulate_difference supplied expected [0..<maximum] 0
      in same_length \<and> difference = 0)"

lemma or_xor_eq_0_iff: "d OR (a XOR b) = 0 \<longleftrightarrow> d = 0 \<and> a = (b :: 8 word)"
  by (auto simp: bit_eq_iff bit_simps)

lemma accumulate_difference_0_iff:
  "accumulate_difference s e is d = 0 \<longleftrightarrow> d = 0 \<and> (\<forall>i\<in>set is. byte_at s i = byte_at e i)"
  by (induction "is" arbitrary: d) (auto simp: or_xor_eq_0_iff)

lemma byte_of_char_inject: "(of_char c :: 8 word) = of_char d \<longleftrightarrow> c = d"
proof
  assume "(of_char c :: 8 word) = of_char d"
  then have eq: "(of_nat (of_char c) :: 8 word) = of_nat (of_char d)"
    by (simp only: of_nat_of_char)
  have mod: "of_char x mod (2 ^ 8 :: nat) = of_char x" for x
    using of_char_mod_256 [of x, where ?'a = nat] by simp
  have "(of_char c :: nat) mod 2 ^ 8 = of_char d mod 2 ^ 8"
    using arg_cong [OF eq, of unat] by (simp only: unat_of_nat) simp
  then show "c = d" by (simp only: mod of_char_eq_iff)
qed simp

lemma byte_at_eq_iff:
  "i < length s \<Longrightarrow> i < length e \<Longrightarrow> byte_at s i = byte_at e i \<longleftrightarrow> s ! i = e ! i"
  by (simp add: byte_at_def byte_of_char_inject)

lemma authenticate_iff: "authenticate token supplied \<longleftrightarrow> supplied = expose token"
  by (auto simp: authenticate_def Let_def accumulate_difference_0_iff byte_at_eq_iff
      intro: nth_equalityI)

text \<open>
  The trait: an authenticator accepts a bearer token. What the server relies on is that
  it accepts exactly one token.
\<close>

locale authenticator =
  fixes accepts :: "string \<Rightarrow> bool"
    and secret :: string
  assumes accepts_iff: "accepts t \<longleftrightarrow> t = secret"
begin

lemma accepts_secret: "accepts secret"
  by (simp add: accepts_iff)

lemma accepts_unique: "accepts t \<Longrightarrow> accepts t' \<Longrightarrow> t = t'"
  by (simp add: accepts_iff)

lemma option_accepts_iff:
  "(case x of None \<Rightarrow> False | Some t \<Rightarrow> accepts t) \<longleftrightarrow> x = Some secret"
  by (auto simp: accepts_iff split: option.splits)

end

interpretation static_token: authenticator "authenticate token" "expose token" for token
  by unfold_locales (rule authenticate_iff)

section \<open>The bearer header\<close>

text \<open>\<open>str::split_once\<close> at the first occurrence of a character.\<close>

fun split_once :: "char \<Rightarrow> string \<Rightarrow> (string \<times> string) option" where
  "split_once c [] = None"
| "split_once c (x # xs) =
     (if x = c then Some ([], xs)
      else case split_once c xs of None \<Rightarrow> None | Some (a, b) \<Rightarrow> Some (x # a, b))"

definition to_ascii_lowercase :: "char \<Rightarrow> char" where
  "to_ascii_lowercase c =
     (let n = of_char c :: nat in if 65 \<le> n \<and> n \<le> 90 then char_of (n + 32) else c)"

definition eq_ignore_ascii_case :: "string \<Rightarrow> string \<Rightarrow> bool" where
  "eq_ignore_ascii_case a b \<longleftrightarrow> map to_ascii_lowercase a = map to_ascii_lowercase b"

text \<open>
  \<open>char::is_whitespace\<close> over UTF-8 bytes: the ASCII whitespace characters, U+0085,
  U+00A0, U+1680, U+2000 to U+200A, U+2028, U+2029, U+202F, U+205F and U+3000.
\<close>

definition ascii_whitespace :: "nat list" where
  "ascii_whitespace = [9, 10, 11, 12, 13, 32]"

definition wide_whitespace :: "nat list list" where
  "wide_whitespace =
     [[194, 133], [194, 160], [225, 154, 128]] @ map (\<lambda>n. [226, 128, n]) [128..<139] @
     [[226, 128, 168], [226, 128, 169], [226, 128, 175], [226, 129, 159], [227, 128, 128]]"

definition starts_with_whitespace :: "string \<Rightarrow> bool" where
  "starts_with_whitespace s \<longleftrightarrow>
     (case s of [] \<Rightarrow> False | c # _ \<Rightarrow> of_char c \<in> set ascii_whitespace) \<or>
     (\<exists>w\<in>set wide_whitespace. take (length w) (map of_char s) = w)"

fun contains_whitespace :: "string \<Rightarrow> bool" where
  "contains_whitespace [] = False"
| "contains_whitespace (c # s) = (starts_with_whitespace (c # s) \<or> contains_whitespace s)"

definition parse_bearer :: "string \<Rightarrow> string option" where
  "parse_bearer header =
     (case split_once (CHR '' '') header of
        None \<Rightarrow> None
      | Some (scheme, credential) \<Rightarrow>
          if eq_ignore_ascii_case scheme ''bearer'' \<and> credential \<noteq> [] \<and> \<not> contains_whitespace credential
          then Some credential else None)"

lemma split_once_append: "c \<notin> set a \<Longrightarrow> split_once c (a @ c # b) = Some (a, b)"
  by (induction a) auto

lemma split_once_SomeD: "split_once c s = Some (a, b) \<Longrightarrow> s = a @ c # b \<and> c \<notin> set a"
  by (induction s arbitrary: a) (auto split: option.splits if_splits)

lemma split_once_Some_iff:
  "split_once c s = Some (a, b) \<longleftrightarrow> s = a @ c # b \<and> c \<notin> set a"
  using split_once_SomeD split_once_append by fastforce

lemma contains_whitespace_ascii:
  "c \<in> set s \<Longrightarrow> of_char c \<in> set ascii_whitespace \<Longrightarrow> contains_whitespace s"
  by (induction s) (auto simp: starts_with_whitespace_def)

lemma parse_bearer_Some:
  "parse_bearer h = Some t \<longleftrightarrow>
     (\<exists>scheme. h = scheme @ CHR '' '' # t \<and> CHR '' '' \<notin> set scheme \<and>
        eq_ignore_ascii_case scheme ''bearer'' \<and> t \<noteq> [] \<and> \<not> contains_whitespace t)"
proof
  assume "parse_bearer h = Some t"
  then show "\<exists>scheme. h = scheme @ CHR '' '' # t \<and> CHR '' '' \<notin> set scheme \<and>
        eq_ignore_ascii_case scheme ''bearer'' \<and> t \<noteq> [] \<and> \<not> contains_whitespace t"
    by (auto simp: parse_bearer_def split: option.splits if_splits dest: split_once_SomeD)
next
  assume "\<exists>scheme. h = scheme @ CHR '' '' # t \<and> CHR '' '' \<notin> set scheme \<and>
        eq_ignore_ascii_case scheme ''bearer'' \<and> t \<noteq> [] \<and> \<not> contains_whitespace t"
  then show "parse_bearer h = Some t"
    by (auto simp: parse_bearer_def split_once_append)
qed

section \<open>Properties\<close>

text \<open>
  The constant-time comparison of \<open>StaticTokenAuthenticator\<close> is string equality: the loop
  over the longer of the two byte strings, with its padding by zero bytes, accepts a
  token exactly when it is the expected one, in particular none that only differs by
  trailing zero bytes.
\<close>

theorem authenticate_exact: "authenticate token supplied \<longleftrightarrow> supplied = expose token"
  by (rule authenticate_iff)

text \<open>
  \<open>parse_bearer\<close> accepts a header exactly when it is a scheme that reads \<open>bearer\<close> in any
  case, one space, and a nonempty credential without whitespace, and then returns that
  credential.
\<close>

theorem parse_bearer_exact:
  "parse_bearer h = Some t \<longleftrightarrow>
     (\<exists>scheme. h = scheme @ CHR '' '' # t \<and> CHR '' '' \<notin> set scheme \<and>
        eq_ignore_ascii_case scheme ''bearer'' \<and> t \<noteq> [] \<and> \<not> contains_whitespace t)"
  by (rule parse_bearer_Some)

end
