(* ===== verification/Acp_Transport.thy ===== *)
theory Acp_Transport
  imports Acp_Session
begin

text \<open>
  \<^verbatim>\<open>server.rs\<close>, the tasks around a session: the transport task, which owns a WebSocket
  and turns commands into messages and messages into events, and the readers of the
  agent's standard output and standard error. One step of a task is one branch of its
  \<open>select!\<close>; the environment says whether a write succeeds.
\<close>

section \<open>The transport task\<close>

datatype ws_message = WsText string | WsBinary string | WsPing string | WsPong string | WsClose

record task_step =
  ts_written :: "ws_message list"
  ts_notice :: "sent_notice option"             \<comment> \<open>what the waiting \<open>oneshot\<close> sees\<close>
  ts_event :: "transport_event_kind option"
  ts_running :: bool

text \<open>A command; \<open>None\<close> when the session has dropped its end of the channel.\<close>

fun run_command :: "serde_json \<Rightarrow> bool \<Rightarrow> transport_command option \<Rightarrow> task_step" where
  "run_command sj written None =
     \<lparr>ts_written = (if written then [WsClose] else []), ts_notice = None, ts_event = None,
      ts_running = False\<rparr>"
| "run_command sj written (Some (CmdEnvelope envelope)) =
     (if written
      then \<lparr>ts_written = [WsText (to_text sj envelope)], ts_notice = None, ts_event = Some EvWritable,
            ts_running = True\<rparr>
      else \<lparr>ts_written = [], ts_notice = None, ts_event = Some EvDisconnected, ts_running = False\<rparr>)"
| "run_command sj written (Some (CmdExit envelope)) =
     (if written
      then \<lparr>ts_written = [WsText (to_text sj envelope)], ts_notice = Some NoticeSent,
            ts_event = Some EvWritable, ts_running = True\<rparr>
      else \<lparr>ts_written = [], ts_notice = Some NoticeDropped, ts_event = Some EvDisconnected,
            ts_running = False\<rparr>)"
| "run_command sj written (Some (CmdShutdownComplete envelope)) =
     (if written
      then \<lparr>ts_written = [WsText (to_text sj envelope), WsClose], ts_notice = Some NoticeSent,
            ts_event = None, ts_running = False\<rparr>
      else \<lparr>ts_written = [], ts_notice = Some NoticeDropped, ts_event = None, ts_running = False\<rparr>)"

text \<open>A message; \<open>None\<close> for a read error or the end of the stream.\<close>

fun message_kind ::
    "serde_json \<Rightarrow> (json list \<Rightarrow> json_error + envelope) \<Rightarrow> bool \<Rightarrow> ws_message option
      \<Rightarrow> transport_event_kind" where
  "message_kind sj seq pong_written None = EvDisconnected"
| "message_kind sj seq pong_written (Some (WsText text)) =
     (case from_text sj seq text of Inr envelope \<Rightarrow> EvEnvelope envelope | Inl _ \<Rightarrow> EvInvalidEnvelope)"
| "message_kind sj seq pong_written (Some (WsPing payload)) =
     (if pong_written then EvActivity else EvDisconnected)"
| "message_kind sj seq pong_written (Some (WsPong _)) = EvActivity"
| "message_kind sj seq pong_written (Some WsClose) = EvClosed"
| "message_kind sj seq pong_written (Some (WsBinary _)) = EvInvalidEnvelope"

fun terminal_kind :: "transport_event_kind \<Rightarrow> bool" where
  "terminal_kind EvDisconnected = True"
| "terminal_kind EvClosed = True"
| "terminal_kind EvInvalidEnvelope = True"
| "terminal_kind _ = False"

definition run_message ::
    "serde_json \<Rightarrow> (json list \<Rightarrow> json_error + envelope) \<Rightarrow> bool \<Rightarrow> bool \<Rightarrow> ws_message option
      \<Rightarrow> task_step" where
  "run_message sj seq pong_written event_accepted message =
     (let kind = message_kind sj seq pong_written message
      in \<lparr>ts_written = (case message of
             Some (WsPing payload) \<Rightarrow> if pong_written then [WsPong payload] else [] | _ \<Rightarrow> []),
          ts_notice = None,
          ts_event = (if event_accepted then Some kind else None),
          ts_running = event_accepted \<and> \<not> terminal_kind kind\<rparr>)"

text \<open>
  A notice is given exactly for the two commands that ask for one, and it says that the
  message went out exactly when it did.
\<close>

lemma run_command_notice:
  "ts_notice (run_command sj written c) \<noteq> None \<longleftrightarrow>
     (\<exists>e. c = Some (CmdExit e) \<or> c = Some (CmdShutdownComplete e))"
  "ts_notice (run_command sj written c) = Some NoticeSent \<longrightarrow> ts_written (run_command sj written c) \<noteq> []"
  by (cases "(sj, written, c)" rule: run_command.cases; simp)+

text \<open>An event of the connector is a text message that decodes; every other message ends the task or is silent.\<close>

lemma run_message_envelope:
  "ts_event (run_message sj seq pw ea m) = Some (EvEnvelope env) \<longleftrightarrow>
     ea \<and> (\<exists>text. m = Some (WsText text) \<and> from_text sj seq text = Inr env)"
  by (cases "(sj, seq, pw, m)" rule: message_kind.cases) (auto simp: run_message_def Let_def split: sum.splits)

section \<open>The agent's output\<close>

text \<open>
  The readers take their lines from \<open>LinesCodec\<close>: a line, or an error for a line that is
  too long or not UTF-8.
\<close>

fun agent_stdout_events :: "(string + string) list \<Rightarrow> agent_event list" where
  "agent_stdout_events [] = [StdoutClosed]"
| "agent_stdout_events (Inr payload # items) = AgentAcp payload # agent_stdout_events items"
| "agent_stdout_events (Inl _ # items) = [StdoutError]"

fun count_outbound :: "(string + string) list \<Rightarrow> u64 \<times> u64 \<Rightarrow> u64 \<times> u64" where
  "count_outbound (Inr payload # items) (frames, bytes) =
     count_outbound items (fetch_add frames 1, fetch_add bytes (min u64_max (length payload)))"
| "count_outbound _ counts = counts"

text \<open>Standard error: every line the bounded channel refuses and every bad line is counted as dropped.\<close>

fun stderr_lines :: "((string + string) \<times> bool) list \<Rightarrow> u64 \<Rightarrow> string list \<times> u64" where
  "stderr_lines [] dropped = ([], dropped)"
| "stderr_lines ((Inr payload, accepted) # items) dropped =
     (if accepted
      then (case stderr_lines items dropped of (ls, d) \<Rightarrow> (payload # ls, d))
      else stderr_lines items (fetch_add dropped 1))"
| "stderr_lines ((Inl _, accepted) # items) dropped = stderr_lines items (fetch_add dropped 1)"

lemma agent_stdout_lines:
  "AgentAcp p \<in> set (agent_stdout_events items) \<Longrightarrow> Inr p \<in> set items"
  by (induction items rule: agent_stdout_events.induct) auto

lemma stderr_accounting:
  assumes "dropped + length items \<le> u64_max"
  shows "length (fst (stderr_lines items dropped)) + snd (stderr_lines items dropped)
    = dropped + length items"
  using assms
  by (induction items dropped rule: stderr_lines.induct)
     (auto simp: fetch_add_def split: prod.splits)

end
