(* ===== verification/Acp_Server.thy ===== *)
theory Acp_Server
  imports Acp_Session_End Acp_Auth Acp_Transport
begin

text \<open>
  \<^verbatim>\<open>server.rs\<close>, everything before and around a session: the HTTP routes with the
  bearer token and origin checks, the opening envelope, the start of an agent, the
  resumption of a session with its credentials, the table of resumable sessions and the
  guard on plaintext listeners.
\<close>

section \<open>HTTP\<close>

text \<open>
  \<open>HeaderValue::to_str\<close> accepts visible ASCII, the space and the horizontal tab; header
  names are lower case and \<open>get\<close> finds the first value.
\<close>

type_synonym header_map = "(string \<times> string) list"

definition header_to_str :: "string \<Rightarrow> string option" where
  "header_to_str v =
     (if list_all (\<lambda>c. let n = of_char c :: nat in n = 9 \<or> (32 \<le> n \<and> n \<le> 126)) v then Some v else None)"

record resume_entry =
  re_resume_token :: string
  re_agent :: string
  re_workspace :: string

record server_state =
  st_config :: server_config
  st_token :: secret_token
  st_ready :: bool
  st_sessions :: "string \<Rightarrow> resume_entry option"

datatype response = Response nat string | Upgrade nat

definition authorized :: "server_state \<Rightarrow> header_map \<Rightarrow> bool" where
  "authorized state headers =
     (case map_of headers ''authorization'' of
        None \<Rightarrow> False
      | Some v \<Rightarrow>
          (case header_to_str v of
             None \<Rightarrow> False
           | Some h \<Rightarrow>
               (case parse_bearer h of
                  None \<Rightarrow> False
                | Some token \<Rightarrow> authenticate (st_token state) token)))"

definition origin_allowed :: "server_config \<Rightarrow> header_map \<Rightarrow> bool" where
  "origin_allowed config headers =
     (case map_of headers ''origin'' of
        None \<Rightarrow> True
      | Some v \<Rightarrow>
          (case header_to_str v of
             None \<Rightarrow> False
           | Some origin \<Rightarrow> origin \<in> set (allowed_origins config)))"

definition health :: response where
  "health = Response 200 (''ok'' @ [CHR 0x0A])"

definition ready :: "server_state \<Rightarrow> response" where
  "ready state =
     (if st_ready state then Response 200 (''ready'' @ [CHR 0x0A])
      else Response 503 (''not ready'' @ [CHR 0x0A]))"

text \<open>
  A \<open>GET\<close> request. The handshake of the WebSocket is checked by the library: \<open>rq_handshake\<close> is the rejection
  (status and body) of its extractor \<open>WebSocketUpgrade\<close> for this request, such as 400 for a missing header
  or 426 for a connection that cannot be upgraded, and \<open>None\<close> when it accepts. A rejection is the
  response of the route; the handler runs only after it.
\<close>

record http_request =
  rq_path :: string
  rq_headers :: header_map
  rq_handshake :: "(nat \<times> string) option"

definition upgrade_tunnel :: "server_state \<Rightarrow> http_request \<Rightarrow> response" where
  "upgrade_tunnel state rq =
     (case rq_handshake rq of
        Some (status, body) \<Rightarrow> Response status body
      | None \<Rightarrow> Upgrade (max_frame_bytes (st_config state)))"

definition enforce_upgrade_security :: "server_state \<Rightarrow> http_request \<Rightarrow> response" where
  "enforce_upgrade_security state rq =
     (if \<not> authorized state (rq_headers rq) then Response 401 (''unauthorized'' @ [CHR 0x0A])
      else if \<not> origin_allowed (st_config state) (rq_headers rq) then Response 403 (''forbidden'' @ [CHR 0x0A])
      else upgrade_tunnel state rq)"

text \<open>The router.\<close>

definition router :: "server_state \<Rightarrow> http_request \<Rightarrow> response" where
  "router state rq =
     (if rq_path rq = ''/healthz'' then health
      else if rq_path rq = ''/readyz'' then ready state
      else if rq_path rq = ''/v1/tunnel'' then enforce_upgrade_security state rq
      else Response 404 [])"

definition server_state_new :: "server_config \<Rightarrow> secret_token \<Rightarrow> server_state" where
  "server_state_new config token =
     \<lparr>st_config = config, st_token = token, st_ready = True, st_sessions = (\<lambda>_. None)\<rparr>"

text \<open>
  The guard of \<open>serve\<close>; what follows it is the library's listener. \<open>display\<close> prints a
  socket address.
\<close>

definition serve_guard :: "(socket_addr \<Rightarrow> string) \<Rightarrow> server_config \<Rightarrow> bool \<Rightarrow> error + unit" where
  "serve_guard display config insecure_listen =
     (if tls config = None \<and> \<not> is_loopback (sa_ip (listen config)) \<and> \<not> insecure_listen
      then Inl (Config [Lit ''refusing plaintext non-loopback listener '', Disp (display (listen config)),
                        Lit ''; configure TLS or pass --insecure-listen''])
      else Inr ())"

text \<open>
  The whole of \<open>serve\<close>, with the answers of the libraries it calls: the errors of reading the TLS files,
  of binding, and of serving until cancellation.
\<close>

record listener_answers =
  la_load_tls :: "string option"
  la_bind :: "string option"
  la_serve :: "string option"

definition failing :: "(string \<Rightarrow> error) \<Rightarrow> string option \<Rightarrow> error + unit" where
  "failing f answer = (case answer of Some e \<Rightarrow> Inl (f e) | None \<Rightarrow> Inr ())"

definition serve :: "(socket_addr \<Rightarrow> string) \<Rightarrow> listener_answers \<Rightarrow> server_state \<Rightarrow> bool \<Rightarrow> error + unit" where
  "serve display la state insecure_listen =
     rbind (serve_guard display (st_config state) insecure_listen) (\<lambda>_.
       case tls (st_config state) of
         Some _ \<Rightarrow>
           rbind (failing (\<lambda>e. Config [Lit ''cannot load TLS configuration: '', Disp e]) (la_load_tls la)) (\<lambda>_.
             failing (\<lambda>e. Network [Lit ''TLS server failed: '', Disp e]) (la_serve la))
       | None \<Rightarrow>
           rbind (failing (\<lambda>e. Network [Lit ''cannot bind '', Disp (display (listen (st_config state))),
                                         Lit '': '', Disp e]) (la_bind la)) (\<lambda>_.
             failing (\<lambda>e. Network [Lit ''HTTP server failed: '', Disp e]) (la_serve la)))"

section \<open>The opening envelope\<close>

datatype open_recv = RecvMessage ws_message | RecvError string | RecvClosed | RecvElapsed

datatype socket_out = OutEnvelope envelope | OutClose

record server_env =
  sv_serde :: serde_json
  sv_seq :: "json list \<Rightarrow> json_error + envelope"  \<comment> \<open>serde's tagged enum from an array\<close>
  sv_format :: text_format
  sv_host :: host_env
  sv_spawn :: "spawn_command \<Rightarrow> string + spawned"
  sv_lossy :: "string \<Rightarrow> string"                  \<comment> \<open>\<open>Path::to_string_lossy\<close>\<close>

definition fail_socket :: "server_env \<Rightarrow> string \<Rightarrow> error \<Rightarrow> socket_out list" where
  "fail_socket se code e =
     [OutEnvelope (ErrorEnvelope code (render (sv_format se) (error_to_string e))), OutClose]"

definition read_open :: "server_env \<Rightarrow> open_recv \<Rightarrow> socket_out list \<times> (error + open_request)" where
  "read_open se recv =
     (case recv of
        RecvError source \<Rightarrow>
          (let e = Network [Lit ''cannot read open envelope: '', Disp source]
           in (fail_socket se ''invalid_open'' e, Inl e))
      | RecvClosed \<Rightarrow> ([], Inl (Protocol [Lit ''connection closed before open envelope'']))
      | RecvElapsed \<Rightarrow>
          (let e = Timeout ''waiting for open envelope'' in (fail_socket se ''open_timeout'' e, Inl e))
      | RecvMessage (WsText text) \<Rightarrow>
          (case rbind (from_text (sv_serde se) (sv_seq se) text) into_open of
             Inr req \<Rightarrow> ([], Inr req)
           | Inl e \<Rightarrow>
               (fail_socket se
                  (if str_contains ''unsupported tunnel version'' (render (sv_format se) (error_to_string e))
                   then ''unsupported_tunnel_version'' else ''invalid_open'') e,
                Inl e))
      | RecvMessage _ \<Rightarrow>
          (let e = Protocol [Lit ''opening message must be WebSocket text'']
           in (fail_socket se ''invalid_open'' e, Inl e)))"

section \<open>Starting an agent\<close>

definition policy_new ::
    "string \<Rightarrow> bool \<Rightarrow> mcp_policy \<Rightarrow> mcp_server_config btree \<Rightarrow> acp_policy" where
  "policy_new workspace_path rewrite mcp servers =
     \<lparr>pol_workspace_path = workspace_path, pol_rewrite_cwd = rewrite, pol_mcp_policy = mcp,
      pol_mcp_servers = servers\<rparr>"

definition prepare_agent ::
    "server_env \<Rightarrow> server_config \<Rightarrow> open_request
      \<Rightarrow> socket_out list \<times> (error + agent_process \<times> acp_policy)" where
  "prepare_agent se config req =
     (case map_of (agents config) (or_agent req) of
        None \<Rightarrow>
          (let e = Protocol [Lit ''unknown agent '', Dbg (or_agent req)]
           in (fail_socket se ''unknown_agent'' e, Inl e))
      | Some agent \<Rightarrow>
          if or_workspace req \<notin> set (ag_workspaces agent)
          then (let e = Protocol [Lit ''workspace '', Dbg (or_workspace req),
                                  Lit '' is not allowed for agent '', Dbg (or_agent req)]
                in (fail_socket se ''unknown_workspace'' e, Inl e))
          else (case map_of (workspaces config) (or_workspace req) of
                  None \<Rightarrow>
                    (let e = Protocol [Lit ''unknown workspace '', Dbg (or_workspace req)]
                     in (fail_socket se ''unknown_workspace'' e, Inl e))
                | Some workspace \<Rightarrow>
                    (case spawn (sv_spawn se) (sv_host se) agent (ws_path workspace)
                            (or_client_environment req) of
                       Inl e \<Rightarrow>
                         (fail_socket se
                            (case e of Protocol _ \<Rightarrow> ''client_environment_rejected''
                             | _ \<Rightarrow> ''agent_start_failed'') e,
                          Inl e)
                     | Inr process \<Rightarrow>
                         ([], Inr (process, policy_new (sv_lossy se (ws_path workspace))
                                (rewrite_cwd config) (ag_mcp_policy agent) (mcp_servers config))))))"

section \<open>Resuming a session\<close>

definition resume_rejected :: error where
  "resume_rejected = Protocol [Lit ''resume request was rejected'']"

text \<open>
  The result carries the session the socket was handed to. The send into the session's
  channel is awaited under a timeout; its answer is that of the setup of a transport.
\<close>

definition resume_tunnel ::
    "server_env \<Rightarrow> server_state \<Rightarrow> setup_answer \<Rightarrow> open_request \<Rightarrow> socket_out list \<times> (error + string)" where
  "resume_tunnel se state answer req =
     (let reject = (fail_socket se ''resume_rejected'' resume_rejected, Inl resume_rejected)
      in if or_client_environment req \<noteq> [] then reject
         else case or_resume req of
                None \<Rightarrow> ([], Inl (Protocol [Lit ''resume credentials are missing'']))
              | Some resume \<Rightarrow>
                  (case st_sessions state (connection_id resume) of
                     None \<Rightarrow> reject
                   | Some entry \<Rightarrow>
                       (case secret_token_new (re_resume_token entry) of
                          Inl e \<Rightarrow> ([], Inl e)
                        | Inr token \<Rightarrow>
                            if re_agent entry \<noteq> or_agent req \<or> re_workspace entry \<noteq> or_workspace req \<or>
                               \<not> authenticate token (resume_token resume)
                            then reject
                            else ([], case answer of
                                   SetupSent \<Rightarrow> Inr (connection_id resume)
                                 | SetupElapsed \<Rightarrow> Inl (Timeout ''attaching resumed WebSocket'')
                                 | SetupClosed \<Rightarrow> Inl (Protocol [Lit ''resume session is no longer available''])))))"

section \<open>A tunnel\<close>

datatype tunnel =
    TunnelFailed error
  | TunnelResumed string
  | TunnelStarted agent_process acp_policy open_request

text \<open>
  \<open>run_tunnel\<close> up to the session: \<open>fresh_id\<close> and \<open>token\<close> are the random identifiers it draws. The
  session's entry is in the table while the session runs.
\<close>

definition run_tunnel ::
    "server_env \<Rightarrow> string \<Rightarrow> string \<Rightarrow> open_recv \<Rightarrow> setup_answer \<Rightarrow> server_state
      \<Rightarrow> server_state \<times> socket_out list \<times> tunnel" where
  "run_tunnel se fresh_id token recv answer state =
     (case read_open se recv of
        (out, Inl e) \<Rightarrow> (state, out, TunnelFailed e)
      | (out, Inr req) \<Rightarrow>
          if or_resume req \<noteq> None
          then (case resume_tunnel se state answer req of
                  (out', Inl e) \<Rightarrow> (state, out @ out', TunnelFailed e)
                | (out', Inr connection) \<Rightarrow> (state, out @ out', TunnelResumed connection))
          else (case prepare_agent se (st_config state) req of
                  (out', Inl e) \<Rightarrow> (state, out @ out', TunnelFailed e)
                | (out', Inr (process, policy)) \<Rightarrow>
                    (state\<lparr>st_sessions := (st_sessions state)(fresh_id \<mapsto>
                       \<lparr>re_resume_token = token, re_agent = or_agent req, re_workspace = or_workspace req\<rparr>)\<rparr>,
                     out @ out',
                     TunnelStarted process policy (req\<lparr>or_client_environment := []\<rparr>))))"

definition remove_session :: "string \<Rightarrow> server_state \<Rightarrow> server_state" where
  "remove_session connection state = state\<lparr>st_sessions := (st_sessions state)(connection := None)\<rparr>"

lemma resume_tunnel_Inr:
  assumes "or_resume req = Some resume"
  shows "snd (resume_tunnel se state answer req) = Inr connection \<longleftrightarrow>
    connection = connection_id resume \<and> answer = SetupSent \<and> or_client_environment req = [] \<and>
    (\<exists>entry. st_sessions state connection = Some entry \<and> re_agent entry = or_agent req \<and>
       re_workspace entry = or_workspace req \<and> re_resume_token entry = resume_token resume \<and>
       is_ok (secret_token_new (re_resume_token entry)))"
  using assms
  by (auto simp: resume_tunnel_def Let_def secret_token_new_def authenticate_iff
    split: option.splits sum.splits if_splits setup_answer.splits)

section \<open>Properties\<close>

lemma authorized_iff:
  "authorized state headers \<longleftrightarrow>
     (\<exists>scheme. map_of headers ''authorization'' = Some (scheme @ CHR '' '' # expose (st_token state)) \<and>
        header_to_str (scheme @ CHR '' '' # expose (st_token state)) \<noteq> None \<and>
        CHR '' '' \<notin> set scheme \<and> eq_ignore_ascii_case scheme ''bearer'' \<and>
        expose (st_token state) \<noteq> [] \<and> \<not> contains_whitespace (expose (st_token state)))"
proof -
  have "authorized state headers \<longleftrightarrow> (\<exists>v. map_of headers ''authorization'' = Some v \<and>
      header_to_str v \<noteq> None \<and> parse_bearer v = Some (expose (st_token state)))"
    by (auto simp: authorized_def authenticate_iff header_to_str_def split: option.splits)
  then show ?thesis by (simp only: parse_bearer_Some) auto
qed

text \<open>
  C11. A WebSocket is opened exactly for a request to the tunnel's path that carries the bearer token of the server,
  has no origin or one on the list, and is a handshake the WebSocket library accepts; every message on it is
  then limited to the configured frame size. A request without the token is answered 401 and one with a foreign
  origin 403, whatever its handshake, and an authorised one that is no handshake gets the library's rejection.
\<close>

theorem tunnel_upgrade_exact:
  "(router state rq = Upgrade n \<longleftrightarrow>
     rq_path rq = ''/v1/tunnel'' \<and> rq_handshake rq = None \<and> n = max_frame_bytes (st_config state) \<and>
     (\<exists>scheme. map_of (rq_headers rq) ''authorization'' = Some (scheme @ CHR '' '' # expose (st_token state)) \<and>
        header_to_str (scheme @ CHR '' '' # expose (st_token state)) \<noteq> None \<and>
        CHR '' '' \<notin> set scheme \<and> eq_ignore_ascii_case scheme ''bearer'' \<and>
        expose (st_token state) \<noteq> [] \<and> \<not> contains_whitespace (expose (st_token state))) \<and>
     (map_of (rq_headers rq) ''origin'' = None \<or>
        (\<exists>origin. map_of (rq_headers rq) ''origin'' = Some origin \<and> header_to_str origin = Some origin \<and>
           origin \<in> set (allowed_origins (st_config state))))) \<and>
   router state (rq\<lparr>rq_path := ''/v1/tunnel'', rq_handshake := Some (status, body)\<rparr>) =
     (case router state (rq\<lparr>rq_path := ''/v1/tunnel'', rq_handshake := None\<rparr>) of
        Upgrade _ \<Rightarrow> Response status body
      | Response refused text \<Rightarrow> Response refused text)"
proof -
  have "origin_allowed (st_config state) headers \<longleftrightarrow> map_of headers ''origin'' = None \<or>
      (\<exists>origin. map_of headers ''origin'' = Some origin \<and> header_to_str origin = Some origin \<and>
         origin \<in> set (allowed_origins (st_config state)))" for headers
    by (auto simp: origin_allowed_def header_to_str_def split: option.splits if_splits)
  note origin = this [of "rq_headers rq", symmetric]
  show ?thesis
    unfolding authorized_iff [symmetric] origin
    by (auto simp: router_def health_def ready_def enforce_upgrade_security_def upgrade_tunnel_def split: option.splits)
qed

text \<open>
  C17. An agent is started only from the configuration: for an opening request that asks for no
  resumption, a tunnel starts exactly when the agent is configured, the workspace is one of the
  agent's and exists, and the process could be spawned, with the agent's own command and the
  workspace's path.
\<close>

theorem tunnel_started_exact:
  assumes "read_open se recv = (out, Inr req)" and "or_resume req = None"
  shows "(\<exists>state' out'. run_tunnel se fresh_id token recv answer state
      = (state', out', TunnelStarted process policy req')) \<longleftrightarrow>
    (\<exists>agent workspace. map_of (agents (st_config state)) (or_agent req) = Some agent \<and>
       or_workspace req \<in> set (ag_workspaces agent) \<and>
       map_of (workspaces (st_config state)) (or_workspace req) = Some workspace \<and>
       spawn (sv_spawn se) (sv_host se) agent (ws_path workspace) (or_client_environment req) = Inr process \<and>
       policy = policy_new (sv_lossy se (ws_path workspace)) (rewrite_cwd (st_config state))
         (ag_mcp_policy agent) (mcp_servers (st_config state)) \<and>
       req' = req\<lparr>or_client_environment := []\<rparr>)"
  using assms
  by (auto simp: run_tunnel_def prepare_agent_def Let_def split: option.splits sum.splits prod.splits if_splits)

definition example_server_env :: server_env where
  "example_server_env = \<lparr>sv_serde = example_serde (envelope_to_value (Open 3 ''dev'' ''main''
       \<lparr>ci_name = ''c'', ci_version = ''0''\<rparr> [] None)),
     sv_seq = (\<lambda>_. Inl InvalidType), sv_format = \<lparr>fmt_debug = id, fmt_debug_code = (\<lambda>_. []), fmt_json = (\<lambda>_. [])\<rparr>,
     sv_host = (\<lambda>_. None), sv_spawn = example_spawn, sv_lossy = id\<rparr>"

definition example_open :: open_request where
  "example_open = \<lparr>or_tunnel_version = 3, or_agent = ''dev'', or_workspace = ''main'',
     or_client_info = \<lparr>ci_name = ''c'', ci_version = ''0''\<rparr>, or_client_environment = [], or_resume = None\<rparr>"

definition example_state :: server_state where
  "example_state = server_state_new example_config (SecretToken ''secret'')"

lemma example_read_open: "read_open example_server_env (RecvMessage (WsText ''text'')) = ([], Inr example_open)"
  by (simp add: read_open_def example_server_env_def from_text_def example_serde_def envelope_from_to_value
    example_open_def TUNNEL_VERSION_def u32_max_def)

theorem tunnel_started_exact_witness:
  "\<exists>state' out'. run_tunnel example_server_env ''c1'' ''r1'' (RecvMessage (WsText ''text'')) SetupSent example_state
    = (state', out', TunnelStarted \<lparr>ap_pid = 42, ap_stdin = True, ap_stdout = True, ap_stderr = True\<rparr>
        (policy_new ''/srv/main'' True Allowlisted []) (example_open\<lparr>or_client_environment := []\<rparr>))"
proof -
  have "or_resume example_open = None" by (simp add: example_open_def)
  note exact = tunnel_started_exact [OF example_read_open this]
  show ?thesis
    unfolding exact
    by (simp add: example_open_def example_state_def server_state_new_def example_config_def default_config_def
      example_server_env_def example_agent_def spawn_def agent_command_def merge_agent_environment_def example_spawn_def)
qed

definition resumes :: "server_env \<Rightarrow> server_state \<Rightarrow> open_request \<Rightarrow> string \<Rightarrow> bool" where
  "resumes se state req connection \<longleftrightarrow> snd (resume_tunnel se state SetupSent req) = Inr connection"

lemma resumes_iff:
  "resumes se state req connection \<longleftrightarrow>
     (\<exists>entry. st_sessions state connection = Some entry \<and> is_ok (secret_token_new (re_resume_token entry)) \<and>
        or_resume req = Some \<lparr>connection_id = connection, resume_token = re_resume_token entry\<rparr> \<and>
        or_agent req = re_agent entry \<and> or_workspace req = re_workspace entry \<and>
        or_client_environment req = [])"
proof (cases "or_resume req")
  case None
  then show ?thesis by (simp add: resumes_def resume_tunnel_def Let_def)
next
  case (Some resume)
  have "resume = \<lparr>connection_id = connection, resume_token = tok\<rparr> \<longleftrightarrow>
      connection_id resume = connection \<and> resume_token resume = tok" for tok
    by (cases resume) auto
  then show ?thesis
    unfolding resumes_def resume_tunnel_Inr [OF Some] using Some by auto
qed

text \<open>
  C12. A session can be resumed with the credentials it was given, and with no others: after a
  tunnel was started under a fresh identifier, a request is attached to that session exactly when
  it names the identifier, the token, the agent and the workspace, and offers no environment
  variables; once the session's entry is removed, none is.
\<close>

theorem resume_credentials_exact:
  assumes "run_tunnel se fresh_id token recv answer state = (state', out, TunnelStarted process policy req)"
    and "is_ok (secret_token_new token)"
  shows "(resumes se state' req' fresh_id \<longleftrightarrow>
      or_resume req' = Some \<lparr>connection_id = fresh_id, resume_token = token\<rparr> \<and>
      or_agent req' = or_agent req \<and> or_workspace req' = or_workspace req \<and> or_client_environment req' = []) \<and>
    \<not> resumes se (remove_session fresh_id state') req' fresh_id"
proof -
  from assms(1) have "st_sessions state' = (st_sessions state)(fresh_id \<mapsto>
      \<lparr>re_resume_token = token, re_agent = or_agent req, re_workspace = or_workspace req\<rparr>)"
    by (auto simp: run_tunnel_def split: prod.splits sum.splits if_splits)
  with assms(2) show ?thesis by (auto simp: resumes_iff remove_session_def)
qed

theorem resume_credentials_exact_witness:
  "\<exists>state'. resumes example_server_env state'
     (example_open\<lparr>or_resume := Some \<lparr>connection_id = ''c1'', resume_token = ''r1''\<rparr>\<rparr>) ''c1''"
proof -
  obtain state' out process policy where run: "run_tunnel example_server_env ''c1'' ''r1''
      (RecvMessage (WsText ''text'')) SetupSent example_state = (state', out, TunnelStarted process policy example_open)"
    by (simp add: run_tunnel_def example_read_open)
       (simp add: example_open_def prepare_agent_def example_state_def server_state_new_def example_config_def
         default_config_def example_server_env_def example_agent_def spawn_def agent_command_def
         merge_agent_environment_def example_spawn_def)
  have "is_ok (secret_token_new ''r1'')" by (simp add: secret_token_new_def)
  from conjunct1 [OF resume_credentials_exact [OF run this,
      of "example_open\<lparr>or_resume := Some \<lparr>connection_id = ''c1'', resume_token = ''r1''\<rparr>\<rparr>"]]
  show ?thesis by (auto simp: example_open_def)
qed

text \<open>
  C21. A refused resumption says nothing about why: an unknown session, a wrong token, a wrong agent or
  workspace and offered variables all give the same messages on the socket and the same error.
\<close>

theorem resume_refusal_uniform:
  assumes "or_resume req = Some resume" and "\<not> resumes se state req (connection_id resume)"
    and "\<forall>entry. st_sessions state (connection_id resume) = Some entry \<longrightarrow>
      is_ok (secret_token_new (re_resume_token entry))"
  shows "resume_tunnel se state answer req
    = (fail_socket se ''resume_rejected'' resume_rejected, Inl resume_rejected)"
proof -
  from assms(2) have "or_client_environment req \<noteq> [] \<or> st_sessions state (connection_id resume) = None \<or>
    (\<exists>entry. st_sessions state (connection_id resume) = Some entry \<and>
       (re_agent entry \<noteq> or_agent req \<or> re_workspace entry \<noteq> or_workspace req \<or>
        re_resume_token entry \<noteq> resume_token resume))"
    using assms(3) unfolding resumes_def resume_tunnel_Inr [OF assms(1)]
    by (cases "st_sessions state (connection_id resume)") auto
  with assms(1,3) show ?thesis
    by (auto simp: resume_tunnel_def Let_def secret_token_new_def authenticate_iff
      split: option.splits sum.splits if_splits)
qed

theorem resume_refusal_uniform_witness:
  "resume_tunnel example_server_env example_state SetupSent
     (example_open\<lparr>or_resume := Some \<lparr>connection_id = ''x'', resume_token = ''y''\<rparr>\<rparr>)
   = (fail_socket example_server_env ''resume_rejected'' resume_rejected, Inl resume_rejected)"
  by (rule resume_refusal_uniform [where resume = "\<lparr>connection_id = ''x'', resume_token = ''y''\<rparr>"])
     (simp_all add: resumes_iff example_state_def server_state_new_def)

text \<open>
  C25. An exit notice that never reached the socket can count as sent: when the transport task fails to
  write it and drops the waiting channel, the session takes the answer for a success, marks the exit
  as sent and ends.
\<close>

theorem lost_exit_notice_counts_as_sent:
  assumes "child_status s = Some status" and "transport s = Some gen" and "all_enqueued gen (pending s)"
    and "io_notice_accepted io"
    and "ts_notice (run_command sj False (Some (CmdExit envelope))) = Some (io_notice io)"
  shows "ts_written (run_command sj False (Some (CmdExit envelope))) = [] \<and>
    exit_was_sent (notify_exit config io s) \<and> end_category (notify_exit config io s) = Some ''child_exit''"
  using assms
  by (auto simp: notify_exit_def send_exit_def notice_result_def end_with_def split: prod.splits)

theorem lost_exit_notice_counts_as_sent_witness:
  "let s = example_session\<lparr>child_status := Some \<lparr>es_code = Some 0, es_signal = None\<rparr>\<rparr>
   in exit_was_sent (notify_exit example_config (example_io\<lparr>io_notice := NoticeDropped\<rparr>) s)"
proof -
  let ?s = "example_session\<lparr>child_status := Some \<lparr>es_code = Some 0, es_signal = None\<rparr>\<rparr>"
  have "child_status ?s = Some \<lparr>es_code = Some 0, es_signal = None\<rparr>" "transport ?s = Some 1"
    "all_enqueued 1 (pending ?s)" "io_notice_accepted (example_io\<lparr>io_notice := NoticeDropped\<rparr>)"
    "ts_notice (run_command (example_serde JNull) False (Some (CmdExit (Exit (Some 0) None))))
      = Some (io_notice (example_io\<lparr>io_notice := NoticeDropped\<rparr>))"
    by (simp_all add: example_session_def initial_session_def all_enqueued_def example_io_def)
  from lost_exit_notice_counts_as_sent [OF this] show ?thesis unfolding Let_def by blast
qed

end
