(* ===== verification/Acp_Client_Options.thy ===== *)
theory Acp_Client_Options
  imports Acp_Config Acp_Protocol Acp_Auth
begin

text \<open>
  \<^verbatim>\<open>client.rs\<close>, the settings of the connector: the URL rule (plaintext only to a
  loopback host), the checks of the options and the environment variables it offers.
  The address resolution and the host environment are arguments.
\<close>

section \<open>URLs\<close>

datatype url_host = HostIp ip_addr | HostDomain string

record url =
  url_scheme :: string
  url_host :: "url_host option"
  url_port :: "nat option"          \<comment> \<open>\<open>port_or_known_default\<close>\<close>

type_synonym resolver = "string \<Rightarrow> nat \<Rightarrow> string + ip_addr list"

text \<open>The loop over the resolved addresses: \<open>any\<close> says that one was seen.\<close>

fun all_loopback :: "bool \<Rightarrow> ip_addr list \<Rightarrow> bool" where
  "all_loopback any [] = any"
| "all_loopback any (address # addresses) =
     (if \<not> is_loopback address then False else all_loopback True addresses)"

definition host_is_loopback :: "resolver \<Rightarrow> url \<Rightarrow> error + bool" where
  "host_is_loopback resolve u =
     (case url_host u of
        Some (HostIp address) \<Rightarrow> Inr (is_loopback address)
      | Some (HostDomain name) \<Rightarrow>
          if eq_ignore_ascii_case name ''localhost'' then Inr True
          else (let port = (case url_port u of Some p \<Rightarrow> p | None \<Rightarrow> 80)
                in rbind (map_err (\<lambda>e. Network [Lit ''cannot resolve WebSocket host '', Dbg name,
                                                Lit '': '', Disp e]) (resolve name port))
                     (\<lambda>addresses. Inr (all_loopback False addresses)))
      | None \<Rightarrow> Inl (Config [Lit ''WebSocket URL has no host'']))"

definition validate_connect_url :: "resolver \<Rightarrow> url \<Rightarrow> error + unit" where
  "validate_connect_url resolve u =
     (if url_scheme u = ''wss'' then Inr ()
      else if url_scheme u = ''ws''
      then rbind (host_is_loopback resolve u) (\<lambda>loopback.
             if loopback then Inr ()
             else Inl (Config [Lit ''ws:// is allowed only for loopback destinations; use wss://'']))
      else Inl (Config [Lit ''unsupported URL scheme '', Dbg (url_scheme u),
                        Lit ''; expected wss:// or loopback ws://'']))"

lemma all_loopback_iff: "all_loopback any addresses \<longleftrightarrow> (any \<or> addresses \<noteq> []) \<and> list_all is_loopback addresses"
  by (induction addresses arbitrary: any) auto

text \<open>The destinations that plaintext is allowed to.\<close>

definition loopback_destination :: "resolver \<Rightarrow> url \<Rightarrow> bool" where
  "loopback_destination resolve u \<longleftrightarrow>
     (\<exists>address. url_host u = Some (HostIp address) \<and> is_loopback address) \<or>
     (\<exists>name. url_host u = Some (HostDomain name) \<and>
        (eq_ignore_ascii_case name ''localhost'' \<or>
         (\<exists>addresses. resolve name (case url_port u of Some p \<Rightarrow> p | None \<Rightarrow> 80) = Inr addresses \<and>
            addresses \<noteq> [] \<and> list_all is_loopback addresses)))"

lemma host_is_loopback_iff: "host_is_loopback resolve u = Inr True \<longleftrightarrow> loopback_destination resolve u"
  by (auto simp: host_is_loopback_def loopback_destination_def all_loopback_iff rbind_Inr_iff Let_def
    split: option.splits url_host.splits)

section \<open>Options\<close>

record connect_options =
  co_url :: url
  co_agent :: string
  co_workspace :: string
  co_token :: secret_token
  co_client_environment :: client_environment
  co_max_frame_bytes :: usize
  co_max_replay_frames :: usize
  co_max_replay_bytes :: usize
  co_connection_timeout :: nat
  co_keepalive_timeout :: nat
  co_reconnect_timeout :: nat
  co_shutdown_timeout :: nat

text \<open>One variable; the names seen so far are the accumulator.\<close>

definition validate_client_variable ::
    "string set \<Rightarrow> client_environment_variable \<Rightarrow> error + string set" where
  "validate_client_variable seen variable =
     rbind (validate_environment_name ''connector'' ''client environment'' (var_name variable)) (\<lambda>_.
       if var_name variable \<in> seen
       then Inl (Config [Lit ''client environment variable '', Dbg (var_name variable),
                         Lit '' was selected more than once''])
       else if CHR 0x00 \<in> set (var_value variable)
       then Inl (Config [Lit ''client environment contains an invalid variable value''])
       else Inr (insert (var_name variable) seen))"

definition validate_client_environment :: "client_environment \<Rightarrow> error + unit" where
  "validate_client_environment environment =
     rbind (try_fold validate_client_variable {} environment) (\<lambda>_. Inr ())"

definition validate_options :: "resolver \<Rightarrow> connect_options \<Rightarrow> error + unit" where
  "validate_options resolve options =
     rbind (validate_id ''agent'' (co_agent options)) (\<lambda>_.
     rbind (validate_id ''workspace'' (co_workspace options)) (\<lambda>_.
     rbind (validate_connect_url resolve (co_url options)) (\<lambda>_.
     rbind (validate_client_environment (co_client_environment options)) (\<lambda>_.
       if co_max_frame_bytes options = 0 \<or> co_max_replay_frames options = 0 \<or>
          co_max_replay_bytes options < co_max_frame_bytes options \<or>
          co_connection_timeout options = 0 \<or> co_keepalive_timeout options = 0 \<or>
          co_reconnect_timeout options = 0 \<or> co_shutdown_timeout options = 0
       then Inl (Config [Lit ''client frame, replay, and timeout settings are invalid''])
       else Inr ()))))"

text \<open>\<open>std::env::var\<close>: the value, or the reason there is none.\<close>

datatype var_error = NotPresent | NotUnicode

definition select_variable ::
    "(string \<Rightarrow> var_error + string) \<Rightarrow> client_environment \<times> string set \<Rightarrow> string
      \<Rightarrow> error + client_environment \<times> string set" where
  "select_variable host acc name =
     (case acc of (selected, seen) \<Rightarrow>
        rbind (validate_environment_name ''connector'' ''client environment'' name) (\<lambda>_.
          if name \<in> seen
          then Inl (Config [Lit ''client environment variable '', Dbg name,
                            Lit '' was selected more than once''])
          else (case host name of
                  Inl NotPresent \<Rightarrow>
                    Inl (Config [Lit ''selected client environment variable '', Dbg name, Lit '' is not set''])
                | Inl NotUnicode \<Rightarrow>
                    Inl (Config [Lit ''selected client environment variable '', Dbg name,
                                 Lit '' is not valid UTF-8''])
                | Inr value \<Rightarrow>
                    Inr (selected @ [\<lparr>var_name = name, var_value = value\<rparr>], insert name seen))))"

definition select_client_environment ::
    "(string \<Rightarrow> var_error + string) \<Rightarrow> string list \<Rightarrow> error + client_environment" where
  "select_client_environment host names =
     rbind (try_fold (select_variable host) ([], {}) names) (\<lambda>(selected, _). Inr selected)"

section \<open>What the checks guarantee\<close>

lemma validate_client_variables_iff:
  "is_ok (try_fold validate_client_variable seen env) \<longleftrightarrow>
     distinct (map var_name env) \<and> set (map var_name env) \<inter> seen = {} \<and>
     (\<forall>v\<in>set env. env_name_ok (var_name v) \<and> CHR 0x00 \<notin> set (var_value v))"
proof (induction env arbitrary: seen)
  case Nil
  show ?case by simp
next
  case (Cons v env)
  show ?case
  proof (cases "validate_client_variable seen v")
    case (Inl e)
    then show ?thesis
      by (auto simp: validate_client_variable_def rbind_Inl_iff validate_environment_name_def
        env_name_ok_def split: if_splits)
  next
    case (Inr seen')
    then have "env_name_ok (var_name v)" "var_name v \<notin> seen" "CHR 0x00 \<notin> set (var_value v)"
      "seen' = insert (var_name v) seen"
      by (auto simp: validate_client_variable_def rbind_Inr_iff split: if_splits)
    with Cons.IH Inr show ?thesis by auto
  qed
qed

lemma select_variable_Inr_iff:
  "select_variable host (acc, seen) name = Inr r \<longleftrightarrow>
     env_name_ok name \<and> name \<notin> seen \<and>
     (\<exists>v. host name = Inr v \<and> r = (acc @ [\<lparr>var_name = name, var_value = v\<rparr>], insert name seen))"
  by (auto simp: select_variable_def rbind_Inr_iff split: sum.splits var_error.splits)

lemma select_variables_values:
  assumes "try_fold (select_variable host) (acc, seen) names = Inr (selected, seen')"
  shows "map var_name selected = map var_name acc @ names \<and> distinct names \<and> set names \<inter> seen = {} \<and>
    (\<forall>v\<in>set selected. v \<in> set acc \<or> (host (var_name v) = Inr (var_value v) \<and> env_name_ok (var_name v)))"
  using assms
proof (induction names arbitrary: acc seen)
  case Nil
  then show ?case by simp
next
  case (Cons name names)
  then obtain value0 where v: "env_name_ok name" "name \<notin> seen" "host name = Inr value0"
    and rest: "try_fold (select_variable host)
      (acc @ [\<lparr>var_name = name, var_value = value0\<rparr>], insert name seen) names = Inr (selected, seen')"
    by (auto simp: rbind_Inr_iff select_variable_Inr_iff)
  from Cons.IH [OF rest] v show ?case by auto
qed

section \<open>Properties\<close>

text \<open>
  C30. The connector talks plaintext only to the loopback interface: a URL is accepted exactly when it
  is \<open>wss\<close>, or \<open>ws\<close> to a loopback address, to \<open>localhost\<close>, or to a name all of whose addresses, and
  at least one, are loopback.
\<close>

theorem connect_url_rule:
  "validate_connect_url resolve u = Inr () \<longleftrightarrow>
     url_scheme u = ''wss'' \<or> url_scheme u = ''ws'' \<and> loopback_destination resolve u"
  by (auto simp: validate_connect_url_def rbind_Inr_iff host_is_loopback_iff [symmetric])

end
