(* ===== verification/Acp_Client.thy ===== *)
theory Acp_Client
  imports Acp_Client_Options Acp_Replay Acp_Transport
begin

text \<open>
  \<^verbatim>\<open>client.rs\<close>, the connector: the opening handshake, the replay queue, the
  reconnection loop and the four branches of the main loop. Connections are numbered;
  the messages written on each are recorded with its number. The environment answers
  every write, read and clock query; a write that fails may or may not have reached the
  peer. The shutdown exchange is in \<open>Acp_Client_Shutdown\<close>.
\<close>

section \<open>Effects\<close>

datatype connector_effect =
    Wrote nat envelope            \<comment> \<open>a message that reached, or may have reached, the peer\<close>
  | Opened nat envelope           \<comment> \<open>the same for the opening envelope of a new connection\<close>
  | Received nat ws_message       \<comment> \<open>a message read while waiting for the end of a shutdown\<close>
  | Stdout string
  | StderrLine string
  | Diagnostic message
  | PongFrame nat string
  | CloseFrame nat

datatype write_answer = WriteOk | WriteFailed bool

definition wrote :: "write_answer \<Rightarrow> nat \<Rightarrow> envelope \<Rightarrow> connector_effect list" where
  "wrote answer socket envelope =
     (case answer of WriteOk \<Rightarrow> [Wrote socket envelope]
      | WriteFailed arrived \<Rightarrow> if arrived then [Wrote socket envelope] else [])"

section \<open>The handshake\<close>

type_synonym resume_credentials = resume_request

record client_env =
  ce_serde :: serde_json
  ce_seq :: "json list \<Rightarrow> json_error + envelope"
  ce_version :: string                            \<comment> \<open>\<open>CARGO_PKG_VERSION\<close>\<close>
  ce_format :: text_format

datatype connect_answer = ConnectElapsed | ConnectFailed string | Connected

record handshake =
  hk_request :: "string + unit"                   \<comment> \<open>building the request from the URL\<close>
  hk_connect :: connect_answer
  hk_send :: "string option"
  hk_arrived :: bool                              \<comment> \<open>a write that failed reached the peer\<close>
  hk_recv :: "(string + ws_message option) option" \<comment> \<open>\<open>None\<close> when the timeout elapses\<close>

text \<open>\<open>HeaderValue::from_str\<close>: visible ASCII, space and horizontal tab.\<close>

definition header_from_str :: "string \<Rightarrow> bool" where
  "header_from_str s = list_all (\<lambda>c. let n = of_char c :: nat in n = 9 \<or> (32 \<le> n \<and> n \<le> 126)) s"

definition open_envelope :: "client_env \<Rightarrow> connect_options \<Rightarrow> resume_credentials option \<Rightarrow> envelope" where
  "open_envelope ce options resume =
     Open TUNNEL_VERSION (co_agent options) (co_workspace options)
       \<lparr>ci_name = ''acp-tunnel'', ci_version = ce_version ce\<rparr>
       (if resume = None then co_client_environment options else [])
       resume"

definition accept_ready :: "client_env \<Rightarrow> bool \<Rightarrow> string \<Rightarrow> error + resume_credentials" where
  "accept_ready ce resuming text =
     rbind (from_text (ce_serde ce) (ce_seq ce) text) (\<lambda>envelope.
       case envelope of
         Ready version connection token resumed \<Rightarrow>
           (case token of
              Some t \<Rightarrow>
                if version = TUNNEL_VERSION \<and> resumed = resuming
                then Inr \<lparr>connection_id = connection, resume_token = t\<rparr>
                else Inl (Protocol [Lit ''expected tunnel v3 ready response''])
            | None \<Rightarrow> Inl (Protocol [Lit ''expected tunnel v3 ready response'']))
       | ErrorEnvelope code message \<Rightarrow> Inl (Protocol [Disp code, Lit '': '', Disp message])
       | _ \<Rightarrow> Inl (Protocol [Lit ''expected tunnel v3 ready response'']))"

text \<open>
  The opening of a connection, which gets the number \<open>socket\<close>: the opening envelope if it was written, and the
  credentials.
\<close>

definition opened :: "bool \<Rightarrow> nat \<Rightarrow> envelope \<Rightarrow> connector_effect list" where
  "opened arrived socket envelope = (if arrived then [Opened socket envelope] else [])"

definition open_socket ::
    "client_env \<Rightarrow> connect_options \<Rightarrow> resume_credentials option \<Rightarrow> nat \<Rightarrow> handshake
      \<Rightarrow> connector_effect list \<times> (error + resume_credentials)" where
  "open_socket ce options resume socket hk =
     (if \<not> header_from_str (''Bearer '' @ expose (co_token options))
      then ([], Inl (Config [Lit ''token cannot be represented as an HTTP header'']))
      else case hk_request hk of
             Inl e \<Rightarrow> ([], Inl (Network [Lit ''cannot build WebSocket request: '', Disp e]))
           | Inr _ \<Rightarrow>
               if \<not> header_from_str (''acp-tunnel/'' @ ce_version ce)
               then ([], Inl (Config [Lit ''invalid client version header'']))
               else (case hk_connect hk of
                       ConnectElapsed \<Rightarrow> ([], Inl (Timeout ''connecting to tunnel server''))
                     | ConnectFailed e \<Rightarrow> ([], Inl (WebSocket e))
                     | Connected \<Rightarrow>
                         (case hk_send hk of
                            Some e \<Rightarrow>
                              (opened (hk_arrived hk) socket (open_envelope ce options resume), Inl (WebSocket e))
                          | None \<Rightarrow>
                              (opened True socket (open_envelope ce options resume),
                               case hk_recv hk of
                                 None \<Rightarrow> Inl (Timeout ''waiting for tunnel ready response'')
                               | Some (Inl e) \<Rightarrow> Inl (WebSocket e)
                               | Some (Inr None) \<Rightarrow> Inl (Network [Lit ''server closed before ready response''])
                               | Some (Inr (Some (WsText text))) \<Rightarrow> accept_ready ce (resume \<noteq> None) text
                               | Some (Inr (Some _)) \<Rightarrow> Inl (Protocol [Lit ''expected text ready response''])))))"

lemma open_socket_effects:
  assumes "open_socket ce options resume socket hk = (es, r)"
  shows "es = [] \<or> es = [Opened socket (open_envelope ce options resume)]"
    and "r = Inr credentials \<Longrightarrow> es = [Opened socket (open_envelope ce options resume)]"
  using assms
  by (auto simp: open_socket_def opened_def split: if_splits sum.splits connect_answer.splits option.splits)

section \<open>The replay queue\<close>

record pending_frame =
  pf_sequence :: u64
  pf_payload :: string

definition push_line ::
    "string \<Rightarrow> pending_frame list \<times> usize \<times> u64 \<Rightarrow> (pending_frame list \<times> usize \<times> u64) option" where
  "push_line line q =
     (case q of (fs, bytes, next) \<Rightarrow>
        (case checked_add next 1 of
           None \<Rightarrow> None
         | Some next' \<Rightarrow>
             Some (fs @ [\<lparr>pf_sequence = next, pf_payload = line\<rparr>], saturating_add bytes (length line), next')))"

fun pop_pending :: "u64 \<Rightarrow> pending_frame list \<times> usize \<Rightarrow> pending_frame list \<times> usize" where
  "pop_pending sequence ([], bytes) = ([], bytes)"
| "pop_pending sequence (frame # fs, bytes) =
     (if pf_sequence frame \<le> sequence
      then pop_pending sequence (fs, saturating_sub bytes (length (pf_payload frame)))
      else (frame # fs, bytes))"

definition pending_view :: "pending_frame \<Rightarrow> u64 \<times> string" where
  "pending_view f = (pf_sequence f, pf_payload f)"

lemma pop_pending_view:
  "map pending_view (fst (pop_pending q (fs, b))) = dropWhile (\<lambda>f. fst f \<le> q) (map pending_view fs)"
  by (induction fs arbitrary: b) (auto simp: pending_view_def)

lemma pop_pending_bytes:
  "snd (pop_pending q (fs, b))
   = b - payload_bytes (takeWhile (\<lambda>f. fst f \<le> q) (map pending_view fs))"
  by (induction fs arbitrary: b) (auto simp: pending_view_def saturating_sub_def)

interpretation client_queue: replay_queue pending_view push_line pop_pending
  by unfold_locales
     (auto simp: push_line_def pending_view_def checked_add_def pop_pending_view
       pop_pending_bytes split: option.splits if_splits)

definition acp_envelope :: "pending_frame \<Rightarrow> envelope" where
  "acp_envelope frame = Acp (Some (pf_sequence frame)) (pf_payload frame)"

section \<open>Reconnecting\<close>

text \<open>
  The answer to one attempt: a shutdown request or the end of the remaining time drops the opening where it is,
  before or after its envelope was written.
\<close>

datatype attempt_answer = AttemptShutdown shutdown_reason bool | AttemptElapsed bool | AttemptOpened handshake

record attempt =
  at_try_receive :: "shutdown_reason option"
  at_now :: nat                            \<comment> \<open>the clock when the attempt starts\<close>
  at_answer :: attempt_answer
  at_socket :: nat                         \<comment> \<open>the number of the new connection\<close>
  at_replay :: "nat \<Rightarrow> write_answer"
  at_after :: nat                          \<comment> \<open>the clock after the attempt\<close>
  at_sleep :: "shutdown_reason option"     \<comment> \<open>a shutdown request during the pause\<close>

datatype reconnect_result =
    Reconnected nat
  | ReconnectShutdown shutdown_reason
  | ReconnectFailed error

text \<open>The replay on a new connection: the frames written, and whether all were.\<close>

fun replay_pending ::
    "(nat \<Rightarrow> write_answer) \<Rightarrow> nat \<Rightarrow> nat \<Rightarrow> pending_frame list \<Rightarrow> connector_effect list \<times> bool" where
  "replay_pending answers n socket [] = ([], True)"
| "replay_pending answers n socket (frame # fs) =
     (case answers n of
        WriteOk \<Rightarrow>
          (case replay_pending answers (Suc n) socket fs of (es, ok) \<Rightarrow>
             (Wrote socket (acp_envelope frame) # es, ok))
      | WriteFailed arrived \<Rightarrow> (wrote (answers n) socket (acp_envelope frame), False))"

text \<open>What one attempt comes to: a result, or nothing yet.\<close>

definition run_attempt ::
    "client_env \<Rightarrow> connect_options \<Rightarrow> resume_credentials \<Rightarrow> pending_frame list \<Rightarrow> attempt
      \<Rightarrow> connector_effect list \<times> reconnect_result option" where
  "run_attempt ce options credentials fs a =
     (case at_answer a of
        AttemptShutdown reason arrived \<Rightarrow>
          (opened arrived (at_socket a) (open_envelope ce options (Some credentials)),
           Some (ReconnectShutdown reason))
      | AttemptElapsed arrived \<Rightarrow>
          (opened arrived (at_socket a) (open_envelope ce options (Some credentials)) @
             [Diagnostic (Lit ''reconnect attempt failed: '' #
                error_to_string (Timeout ''reconnecting detached tunnel''))], None)
      | AttemptOpened hk \<Rightarrow>
          (case open_socket ce options (Some credentials) (at_socket a) hk of
             (opening, Inl e) \<Rightarrow>
               (opening @ [Diagnostic (Lit ''reconnect attempt failed: '' # error_to_string e)], None)
           | (opening, Inr returned) \<Rightarrow>
               if connection_id returned = connection_id credentials \<and>
                  resume_token returned = resume_token credentials
               then (case replay_pending (at_replay a) 0 (at_socket a) fs of (es, ok) \<Rightarrow>
                       if ok
                       then (opening @ es @ [Diagnostic [Lit ''reconnected to remote ACP agent'']],
                             Some (Reconnected (at_socket a)))
                       else (opening @ es, None))
               else (opening, Some (ReconnectFailed (Protocol
                       [Lit ''server changed resume credentials during reconnect''])))))"

definition next_delay :: "nat \<Rightarrow> nat" where
  "next_delay delay = min (2 * delay) 5000"

text \<open>
  The clock, in milliseconds, does not go back. Before the loop it is \<open>earliest\<close>; an opening that runs out of its
  time ends at the deadline at the earliest; and the pause after a failed attempt lasts \<open>delay\<close>, or the time that
  remains if that is less.
\<close>

definition attempt_start :: "nat \<Rightarrow> attempt \<Rightarrow> nat" where
  "attempt_start earliest a = max earliest (at_now a)"

definition attempt_end :: "nat \<Rightarrow> nat \<Rightarrow> attempt \<Rightarrow> nat" where
  "attempt_end deadline earliest a =
     (case at_answer a of
        AttemptElapsed _ \<Rightarrow> max deadline (at_after a)
      | _ \<Rightarrow> max (attempt_start earliest a) (at_after a))"

definition slept :: "nat \<Rightarrow> nat \<Rightarrow> nat \<Rightarrow> nat" where
  "slept deadline delay now = now + min delay (deadline - now)"

text \<open>The loop; the last component is \<open>None\<close> when the attempts given are used up.\<close>

fun reconnect_loop ::
    "client_env \<Rightarrow> connect_options \<Rightarrow> resume_credentials \<Rightarrow> pending_frame list \<Rightarrow> nat \<Rightarrow> nat \<Rightarrow> nat
      \<Rightarrow> attempt list \<Rightarrow> connector_effect list \<times> reconnect_result option" where
  "reconnect_loop ce options credentials fs deadline delay earliest [] = ([], None)"
| "reconnect_loop ce options credentials fs deadline delay earliest (a # attempts) =
     (case at_try_receive a of
        Some reason \<Rightarrow> ([], Some (ReconnectShutdown reason))
      | None \<Rightarrow>
          if deadline \<le> attempt_start earliest a
          then ([], Some (ReconnectFailed (Timeout ''reconnecting detached tunnel'')))
          else (case run_attempt ce options credentials fs a of
                  (es, Some r) \<Rightarrow> (es, Some r)
                | (es, None) \<Rightarrow>
                    if deadline \<le> attempt_end deadline earliest a
                    then (es, Some (ReconnectFailed (Timeout ''reconnecting detached tunnel'')))
                    else (case at_sleep a of
                            Some reason \<Rightarrow> (es, Some (ReconnectShutdown reason))
                          | None \<Rightarrow>
                              (case reconnect_loop ce options credentials fs deadline (next_delay delay)
                                      (slept deadline delay (attempt_end deadline earliest a)) attempts of
                                 (es', r) \<Rightarrow> (es @ es', r)))))"

definition reconnect_and_replay ::
    "client_env \<Rightarrow> connect_options \<Rightarrow> resume_credentials \<Rightarrow> pending_frame list \<Rightarrow> nat \<Rightarrow> attempt list
      \<Rightarrow> connector_effect list \<times> reconnect_result option" where
  "reconnect_and_replay ce options credentials fs now attempts =
     reconnect_loop ce options credentials fs (now + co_reconnect_timeout options) 200 now attempts"

section \<open>The main loop\<close>

record connector =
  cn_pending :: "pending_frame list"
  cn_pending_bytes :: usize
  cn_next_sequence :: u64
  cn_expected :: u64
  cn_last_received :: nat
  cn_socket :: nat
  cn_effects :: "connector_effect list"
  cn_lines :: "string list"        \<comment> \<open>history: every line given a sequence number\<close>

record connector_io =
  ki_now :: nat
  ki_write :: write_answer
  ki_stdout :: "string option"
  ki_stderr :: "string option"
  ki_attempts :: "attempt list"
  ki_reconnected_at :: nat

datatype connector_event =
    StdinLine string
  | StdinError string
  | StdinClosed
  | SocketMessage ws_message
  | SocketLost
  | KeepaliveElapsed
  | ShutdownRequested shutdown_reason

datatype step_result =
    Continue connector
  | Return connector "error + unit"
  | GracefulShutdown connector "nat option" shutdown_reason
  | StillReconnecting connector

record connector_context =
  cc_env :: client_env
  cc_options :: connect_options
  cc_credentials :: resume_credentials

definition emit :: "connector_effect list \<Rightarrow> connector \<Rightarrow> connector" where
  "emit es c = c\<lparr>cn_effects := cn_effects c @ es\<rparr>"

definition reconnect :: "connector_context \<Rightarrow> connector_io \<Rightarrow> connector \<Rightarrow> step_result" where
  "reconnect cc io c =
     (case reconnect_and_replay (cc_env cc) (cc_options cc) (cc_credentials cc) (cn_pending c)
             (ki_now io) (ki_attempts io) of
        (es, None) \<Rightarrow> StillReconnecting (emit es c)
      | (es, Some (Reconnected socket)) \<Rightarrow>
          Continue ((emit es c)\<lparr>cn_socket := socket, cn_last_received := ki_reconnected_at io\<rparr>)
      | (es, Some (ReconnectShutdown reason)) \<Rightarrow> GracefulShutdown (emit es c) None reason
      | (es, Some (ReconnectFailed e)) \<Rightarrow> Return (emit es c) (Inl e))"

text \<open>A write on the current connection; a failure reconnects.\<close>

definition send_or_reconnect ::
    "connector_context \<Rightarrow> connector_io \<Rightarrow> envelope \<Rightarrow> connector \<Rightarrow> step_result" where
  "send_or_reconnect cc io envelope c =
     (let c1 = emit (wrote (ki_write io) (cn_socket c) envelope) c
      in case ki_write io of WriteOk \<Rightarrow> Continue c1 | WriteFailed _ \<Rightarrow> reconnect cc io c1)"

definition can_read_stdin :: "connect_options \<Rightarrow> connector \<Rightarrow> bool" where
  "can_read_stdin options c \<longleftrightarrow>
     length (cn_pending c) < co_max_replay_frames options \<and>
     cn_pending_bytes c \<le> saturating_sub (co_max_replay_bytes options) (co_max_frame_bytes options)"

definition stdin_line ::
    "connector_context \<Rightarrow> connector_io \<Rightarrow> string \<Rightarrow> connector \<Rightarrow> step_result" where
  "stdin_line cc io line c =
     (let options = cc_options cc
      in if co_max_frame_bytes options < length line
         then Return c (Inl (Protocol [Lit ''local ACP line exceeds '', Num (co_max_frame_bytes options),
                                       Lit '' bytes'']))
         else if co_max_replay_bytes options < saturating_add (cn_pending_bytes c) (length line)
         then Return c (Inl (Protocol [Lit ''local replay byte limit is smaller than one ACP frame'']))
         else case push_line line (cn_pending c, cn_pending_bytes c, cn_next_sequence c) of
                None \<Rightarrow> Return c (Inl (Protocol [Lit ''client ACP sequence exhausted'']))
              | Some (fs, bytes, next) \<Rightarrow>
                  send_or_reconnect cc io (Acp (Some (cn_next_sequence c)) line)
                    (c\<lparr>cn_pending := fs, cn_pending_bytes := bytes, cn_next_sequence := next,
                       cn_lines := cn_lines c @ [line]\<rparr>))"

definition acknowledge :: "connector_context \<Rightarrow> connector_io \<Rightarrow> connector \<Rightarrow> step_result" where
  "acknowledge cc io c =
     send_or_reconnect cc io (Ack ServerToClient (saturating_sub (cn_expected c) 1)) c"

definition server_frame ::
    "connector_context \<Rightarrow> connector_io \<Rightarrow> u64 \<Rightarrow> string \<Rightarrow> connector \<Rightarrow> step_result" where
  "server_frame cc io sequence payload c =
     (if co_max_frame_bytes (cc_options cc) < length payload
      then Return c (Inl (Protocol [Lit ''remote ACP line exceeds configured limit'']))
      else if sequence = cn_expected c
      then (case ki_stdout io of
              Some e \<Rightarrow> Return c (Inl (Io e))
            | None \<Rightarrow>
                let c1 = emit [Stdout payload] c
                in case checked_add (cn_expected c) 1 of
                     None \<Rightarrow> Return c1 (Inl (Protocol [Lit ''server ACP sequence exhausted'']))
                   | Some expected \<Rightarrow> acknowledge cc io (c1\<lparr>cn_expected := expected\<rparr>))
      else if cn_expected c < sequence
      then Return c (Inl (Protocol [Lit ''server ACP sequence gap: expected '', Num (cn_expected c),
                                    Lit '', received '', Num sequence]))
      else acknowledge cc io c)"

fun handle_server_envelope ::
    "connector_context \<Rightarrow> connector_io \<Rightarrow> envelope \<Rightarrow> connector \<Rightarrow> step_result" where
  "handle_server_envelope cc io (Acp (Some sequence) payload) c = server_frame cc io sequence payload c"
| "handle_server_envelope cc io (Acp None payload) c =
     Return c (Inl (Protocol [Lit ''tunnel v3 ACP frame is missing a sequence number'']))"
| "handle_server_envelope cc io (Ack ClientToServer sequence) c =
     (if cn_next_sequence c \<le> sequence
      then Return c (Inl (Protocol [Lit ''server acknowledged unsent client sequence '', Num sequence]))
      else case pop_pending sequence (cn_pending c, cn_pending_bytes c) of
             (fs, bytes) \<Rightarrow> Continue (c\<lparr>cn_pending := fs, cn_pending_bytes := bytes\<rparr>))"
| "handle_server_envelope cc io (Ack ServerToClient sequence) c =
     Return c (Inl (Protocol [Lit ''server sent an acknowledgement for the wrong stream'']))"
| "handle_server_envelope cc io (Stderr payload) c =
     (case ki_stderr io of
        Some e \<Rightarrow> Return c (Inl (Io e))
      | None \<Rightarrow> Continue (emit [StderrLine payload] c))"
| "handle_server_envelope cc io (Ping nonce) c = send_or_reconnect cc io (Pong nonce) c"
| "handle_server_envelope cc io (Pong nonce) c = Continue c"
| "handle_server_envelope cc io (Exit code signal) c =
     Return c (if code = Some 0 then Inr ()
               else Inl (Process [Lit ''remote agent exited with code '', DbgCode code,
                                  Lit '', signal '', DbgCode signal]))"
| "handle_server_envelope cc io (ErrorEnvelope code message) c =
     Return c (Inl (Protocol [Disp code, Lit '': '', Disp message]))"
| "handle_server_envelope cc io (Open _ _ _ _ _ _) c =
     Return c (Inl (Protocol [Lit ''unexpected handshake envelope'']))"
| "handle_server_envelope cc io (Ready _ _ _ _) c =
     Return c (Inl (Protocol [Lit ''unexpected handshake envelope'']))"
| "handle_server_envelope cc io (Shutdown _) c =
     Return c (Inl (Protocol [Lit ''unexpected shutdown envelope'']))"
| "handle_server_envelope cc io (ShutdownComplete _ _) c =
     Return c (Inl (Protocol [Lit ''unexpected shutdown envelope'']))"

fun socket_message ::
    "connector_context \<Rightarrow> connector_io \<Rightarrow> ws_message \<Rightarrow> connector \<Rightarrow> step_result" where
  "socket_message cc io (WsText text) c =
     (case from_text (ce_serde (cc_env cc)) (ce_seq (cc_env cc)) text of
        Inl e \<Rightarrow> Return c (Inl e)
      | Inr envelope \<Rightarrow> handle_server_envelope cc io envelope c)"
| "socket_message cc io (WsPing payload) c =
     (case ki_write io of
        WriteOk \<Rightarrow> Continue (emit [PongFrame (cn_socket c) payload] c)
      | WriteFailed _ \<Rightarrow> reconnect cc io c)"
| "socket_message cc io (WsPong _) c = Continue c"
| "socket_message cc io WsClose c = reconnect cc io c"
| "socket_message cc io (WsBinary _) c =
     Return c (Inl (Protocol [Lit ''binary WebSocket messages are not supported'']))"

fun connector_step ::
    "connector_context \<Rightarrow> connector_io \<Rightarrow> connector_event \<Rightarrow> connector \<Rightarrow> step_result" where
  "connector_step cc io (StdinLine line) c = stdin_line cc io line c"
| "connector_step cc io (StdinError e) c = Return c (Inl (Io e))"
| "connector_step cc io StdinClosed c = GracefulShutdown c (Some (cn_socket c)) StdinEof"
| "connector_step cc io (SocketMessage message) c =
     socket_message cc io message (c\<lparr>cn_last_received := ki_now io\<rparr>)"
| "connector_step cc io SocketLost c = reconnect cc io c"
| "connector_step cc io KeepaliveElapsed c = reconnect cc io (emit [CloseFrame (cn_socket c)] c)"
| "connector_step cc io (ShutdownRequested reason) c =
     GracefulShutdown c (Some (cn_socket c)) reason"

text \<open>The guards of the \<open>select!\<close>: standard input only with room in the replay queue.\<close>

fun connector_enabled :: "connector_context \<Rightarrow> connector_io \<Rightarrow> connector_event \<Rightarrow> connector \<Rightarrow> bool" where
  "connector_enabled cc io (StdinLine _) c \<longleftrightarrow> can_read_stdin (cc_options cc) c"
| "connector_enabled cc io (StdinError _) c \<longleftrightarrow> can_read_stdin (cc_options cc) c"
| "connector_enabled cc io StdinClosed c \<longleftrightarrow> can_read_stdin (cc_options cc) c"
| "connector_enabled cc io KeepaliveElapsed c \<longleftrightarrow>
     cn_last_received c + co_keepalive_timeout (cc_options cc) \<le> ki_now io"
| "connector_enabled cc io _ c \<longleftrightarrow> True"

definition initial_connector :: "nat \<Rightarrow> nat \<Rightarrow> connector" where
  "initial_connector now socket =
     \<lparr>cn_pending = [], cn_pending_bytes = 0, cn_next_sequence = 1, cn_expected = 1,
      cn_last_received = now, cn_socket = socket, cn_effects = [], cn_lines = []\<rparr>"

fun connector_loop ::
    "connector_context \<Rightarrow> (connector_io \<times> connector_event) list \<Rightarrow> connector \<Rightarrow> step_result" where
  "connector_loop cc [] c = Continue c"
| "connector_loop cc ((io, event) # inputs) c =
     (if \<not> connector_enabled cc io event c then Continue c
      else case connector_step cc io event c of
             Continue c' \<Rightarrow> connector_loop cc inputs c'
           | r \<Rightarrow> r)"

text \<open>
  \<open>connect_with_shutdown\<close> up to the loop: the options are checked before anything is
  opened, and the client environment is dropped after the first handshake.
\<close>

definition connect_start ::
    "client_env \<Rightarrow> resolver \<Rightarrow> connect_options \<Rightarrow> handshake \<Rightarrow> nat \<Rightarrow> nat
      \<Rightarrow> connector_effect list \<times> (error + connector_context \<times> connector)" where
  "connect_start ce resolve options hk now socket =
     (case validate_options resolve options of
        Inl e \<Rightarrow> ([], Inl e)
      | Inr _ \<Rightarrow>
          (case open_socket ce options None socket hk of
             (es, Inl e) \<Rightarrow> (es, Inl e)
           | (es, Inr credentials) \<Rightarrow>
               (es, Inr (\<lparr>cc_env = ce, cc_options = options\<lparr>co_client_environment := []\<rparr>,
                          cc_credentials = credentials\<rparr>,
                         initial_connector now socket))))"

section \<open>Properties\<close>

text \<open>
  The client's environment variables are offered once: the opening envelope written on the first connection carries
  exactly the validated ones, with distinct names, and after it no envelope the connector opens a connection
  with carries any, whether it resumes or not.
\<close>

theorem client_environment_sent_once:
  assumes "connect_start ce resolve options hk now socket = (es, Inr (cc, c))"
  shows "(\<exists>info. es = [Opened socket (Open TUNNEL_VERSION (co_agent options) (co_workspace options)
      info (co_client_environment options) None)]) \<and>
    distinct (map var_name (co_client_environment options)) \<and>
    (\<forall>resume. \<exists>info. open_envelope ce (cc_options cc) resume
      = Open TUNNEL_VERSION (co_agent options) (co_workspace options) info [] resume)"
proof -
  obtain credentials where run: "open_socket ce options None socket hk = (es, Inr credentials)"
    using assms by (auto simp: connect_start_def split: sum.splits prod.splits)
  from assms have "cc_options cc = options\<lparr>co_client_environment := []\<rparr>"
    and "validate_options resolve options = Inr ()"
    by (auto simp: connect_start_def split: sum.splits prod.splits)
  moreover from this(2) have "is_ok (try_fold validate_client_variable {} (co_client_environment options))"
    by (auto simp: validate_options_def validate_client_environment_def rbind_Inr_iff is_ok_def)
  ultimately show ?thesis
    unfolding validate_client_variables_iff using open_socket_effects(2) [OF run refl]
    by (simp add: open_envelope_def)
qed

end
