(* ===== verification/Acp_Client_Refine.thy ===== *)
theory Acp_Client_Refine
  imports Acp_Client Acp_Link
begin

text \<open>
  Every step of the connector's loop keeps its invariant and is, for the lines of its
  standard input, a run of the abstract sender: lines are numbered, sent once on the
  connection they are read on, kept until acknowledged and repeated on every new
  connection.
\<close>

section \<open>The messages on a connection\<close>

fun effect_frame :: "nat \<Rightarrow> connector_effect \<Rightarrow> (u64 \<times> string) option" where
  "effect_frame g (Wrote h env) = (if h = g then env_frame env else None)"
| "effect_frame g _ = None"

definition written_stream :: "nat \<Rightarrow> connector_effect list \<Rightarrow> (u64 \<times> string) list" where
  "written_stream g es = List.map_filter (effect_frame g) es"

lemma written_stream_simps [simp]:
  "written_stream g [] = []"
  "written_stream g (es @ es') = written_stream g es @ written_stream g es'"
  "written_stream g (e # es) = (case effect_frame g e of None \<Rightarrow> [] | Some f \<Rightarrow> [f]) @ written_stream g es"
  by (simp_all add: written_stream_def List.map_filter_def split: option.splits)

fun effect_stdout :: "connector_effect \<Rightarrow> string option" where
  "effect_stdout (Stdout p) = Some p"
| "effect_stdout _ = None"

definition stdout_lines :: "connector_effect list \<Rightarrow> string list" where
  "stdout_lines es = List.map_filter effect_stdout es"

lemma stdout_lines_simps [simp]:
  "stdout_lines [] = []"
  "stdout_lines (es @ es') = stdout_lines es @ stdout_lines es'"
  "stdout_lines (e # es) = (case effect_stdout e of None \<Rightarrow> [] | Some f \<Rightarrow> [f]) @ stdout_lines es"
  by (simp_all add: stdout_lines_def List.map_filter_def split: option.splits)

lemma stdout_lines_wrote [simp]: "stdout_lines (wrote a g env) = []"
  by (auto simp: wrote_def split: write_answer.splits)

lemma written_stream_wrote [simp]:
  "written_stream g (wrote a s (Acp (Some n) p)) =
     (if g = s \<and> a \<noteq> WriteFailed False then [(n, p)] else [])"
  by (auto simp: wrote_def split: write_answer.splits)

text \<open>The acknowledgements written are of lines that went to standard output.\<close>

fun effect_ack_below :: "nat \<Rightarrow> connector_effect \<Rightarrow> bool" where
  "effect_ack_below n (Wrote g (Ack ServerToClient q)) \<longleftrightarrow> q < n"
| "effect_ack_below n _ \<longleftrightarrow> True"

definition effects_below :: "nat \<Rightarrow> connector_effect list \<Rightarrow> bool" where
  "effects_below n es = list_all (effect_ack_below n) es"

lemma effects_below_simps [simp]:
  "effects_below n []" "effects_below n (es @ es') \<longleftrightarrow> effects_below n es \<and> effects_below n es'"
  "effects_below n (e # es) \<longleftrightarrow> effect_ack_below n e \<and> effects_below n es"
  by (simp_all add: effects_below_def)

lemma effects_below_mono:
  assumes "effects_below m es" and "m \<le> n"
  shows "effects_below n es"
proof -
  have "effect_ack_below n e" if "effect_ack_below m e" for e
    using that assms(2) by (induction m e rule: effect_ack_below.induct) auto
  with assms(1) show ?thesis by (auto simp: effects_below_def list_all_iff)
qed

lemma effects_below_wrote [simp]: "effects_below m (wrote a g (Acp n p))"
  by (auto simp: wrote_def split: write_answer.splits)

section \<open>Replay on a new connection\<close>

lemma replay_pending_stream:
  assumes "replay_pending answers n socket fs = (es, ok)"
  shows "\<exists>k\<le>length fs. (ok \<longrightarrow> k = length fs) \<and>
    (\<forall>h. written_stream h es = (if h = socket then map pending_view (take k fs) else []))"
    and "stdout_lines es = []" and "effects_below m es"
proof -
  have "(\<exists>k\<le>length fs. (ok \<longrightarrow> k = length fs) \<and>
    (\<forall>h. written_stream h es = (if h = socket then map pending_view (take k fs) else []))) \<and>
    stdout_lines es = [] \<and> effects_below m es"
    using assms
  proof (induction fs arbitrary: n es)
    case Nil
    then show ?case by auto
  next
    case (Cons f fs)
    show ?case
    proof (cases "answers n")
      case WriteOk
      with Cons.prems obtain es1 where rec: "replay_pending answers (Suc n) socket fs = (es1, ok)"
        and es: "es = Wrote socket (acp_envelope f) # es1"
        by (auto split: prod.splits)
      from Cons.IH [OF rec] obtain k where k: "k \<le> length fs" "ok \<longrightarrow> k = length fs"
        "\<forall>h. written_stream h es1 = (if h = socket then map pending_view (take k fs) else [])"
        "stdout_lines es1 = []" "effects_below m es1" by auto
      have "\<forall>h. written_stream h es = (if h = socket then map pending_view (take (Suc k) (f # fs)) else [])"
        using k(3) by (simp add: es acp_envelope_def pending_view_def)
      with k es show ?thesis by (intro conjI exI [of _ "Suc k"]) (auto simp: acp_envelope_def)
    next
      case (WriteFailed arrived)
      with Cons.prems show ?thesis
        by (intro conjI exI [of _ "if arrived then 1 else 0"])
           (auto simp: wrote_def acp_envelope_def pending_view_def)
    qed
  qed
  then show "\<exists>k\<le>length fs. (ok \<longrightarrow> k = length fs) \<and>
    (\<forall>h. written_stream h es = (if h = socket then map pending_view (take k fs) else []))"
    and "stdout_lines es = []" and "effects_below m es" by auto
qed

text \<open>One attempt: nothing is sent, or a part of the queue is, or all of it and the loop ends.\<close>

definition attempt_sends ::
    "attempt \<Rightarrow> pending_frame list \<Rightarrow> connector_effect list \<Rightarrow> reconnect_result option \<Rightarrow> nat \<Rightarrow> bool" where
  "attempt_sends a fs es r k \<longleftrightarrow>
     k \<le> length fs \<and> stdout_lines es = [] \<and> (\<forall>m. effects_below m es) \<and>
     (\<forall>h. written_stream h es = (if h = at_socket a then map pending_view (take k fs) else [])) \<and>
     (\<forall>g. r = Some (Reconnected g) \<longrightarrow> g = at_socket a \<and> k = length fs)"

lemma attempt_sends_nothing:
  "(\<forall>h. written_stream h es = []) \<Longrightarrow> stdout_lines es = [] \<Longrightarrow> (\<forall>m. effects_below m es) \<Longrightarrow> (\<forall>g. r \<noteq> Some (Reconnected g)) \<Longrightarrow>
     attempt_sends a fs es r 0"
  by (simp add: attempt_sends_def)

text \<open>The opening envelope carries no frame.\<close>

definition opens_only :: "connector_effect list \<Rightarrow> bool" where
  "opens_only es \<longleftrightarrow> (\<forall>e\<in>set es. \<exists>g env. e = Opened g env)"

lemma opens_only_silent:
  assumes "opens_only es"
  shows "written_stream h es = []" and "stdout_lines es = []" and "effects_below m es"
proof -
  from assms have "written_stream h es = [] \<and> stdout_lines es = [] \<and> effects_below m es"
    by (induction es) (auto simp: opens_only_def)
  then show "written_stream h es = []" and "stdout_lines es = []" and "effects_below m es" by auto
qed

lemma opens_only_opened [simp]: "opens_only (opened arrived g env)"
  by (simp add: opened_def opens_only_def)

lemma opens_only_open_socket: "open_socket ce options resume socket hk = (es, r) \<Longrightarrow> opens_only es"
  using open_socket_effects(1) by (fastforce simp: opens_only_def)

lemma run_attempt_opened:
  assumes "(case replay_pending (at_replay a) 0 (at_socket a) fs of (es, ok) \<Rightarrow>
      if ok then (es0 @ es @ [Diagnostic d], Some (Reconnected (at_socket a))) else (es0 @ es, None)) = (es, r)"
    and es0: "opens_only es0"
  shows "\<exists>k. attempt_sends a fs es r k"
proof -
  note silent = opens_only_silent [OF es0]
  obtain es1 ok where rep: "replay_pending (at_replay a) 0 (at_socket a) fs = (es1, ok)" by fastforce
  obtain k where k: "k \<le> length fs" "ok \<longrightarrow> k = length fs"
    "\<forall>h. written_stream h es1 = (if h = at_socket a then map pending_view (take k fs) else [])"
    "stdout_lines es1 = []" "\<forall>m. effects_below m es1" using replay_pending_stream [OF rep] by blast
  have "attempt_sends a fs es r k"
  proof (cases ok)
    case True
    with assms(1) rep have "es = es0 @ es1 @ [Diagnostic d]" "r = Some (Reconnected (at_socket a))" by auto
    with k True show ?thesis by (simp add: attempt_sends_def silent)
  next
    case False
    with assms(1) rep have "es = es0 @ es1" "r = None" by auto
    with k show ?thesis by (simp add: attempt_sends_def silent)
  qed
  then show ?thesis by blast
qed

lemma run_attempt_cases:
  assumes "run_attempt ce options credentials fs a = (es, r)"
  shows "\<exists>k. attempt_sends a fs es r k"
proof (cases "at_answer a")
  case (AttemptOpened hk)
  obtain es0 answer where run: "open_socket ce options (Some credentials) (at_socket a) hk = (es0, answer)"
    by fastforce
  note es0 = opens_only_open_socket [OF run]
  note silent = opens_only_silent [OF es0]
  show ?thesis
  proof (cases answer)
    case (Inl e)
    with assms AttemptOpened run have "attempt_sends a fs es r 0"
      by (intro attempt_sends_nothing) (auto simp: run_attempt_def silent)
    then show ?thesis by blast
  next
    case (Inr returned)
    show ?thesis
    proof (cases "connection_id returned = connection_id credentials \<and>
        resume_token returned = resume_token credentials")
      case True
      with assms AttemptOpened run Inr es0 show ?thesis
        by (intro run_attempt_opened) (simp_all add: run_attempt_def)
    next
      case False
      with assms AttemptOpened run Inr have "es = es0" "\<forall>g. r \<noteq> Some (Reconnected g)"
        by (auto simp: run_attempt_def)
      then have "attempt_sends a fs es r 0" by (intro attempt_sends_nothing) (simp_all add: silent)
      then show ?thesis by blast
    qed
  qed
next
  case (AttemptShutdown reason arrived)
  with assms have "attempt_sends a fs es r 0"
    by (intro attempt_sends_nothing) (auto simp: run_attempt_def opens_only_silent)
  then show ?thesis by blast
next
  case (AttemptElapsed arrived)
  with assms have "attempt_sends a fs es r 0"
    by (intro attempt_sends_nothing) (auto simp: run_attempt_def opens_only_silent)
  then show ?thesis by blast
qed

lemma reconnect_loop_stdout:
  "reconnect_loop ce options credentials fs deadline delay earliest attempts = (es, r) \<Longrightarrow>
     stdout_lines es = [] \<and> effects_below m es"
proof (induction attempts arbitrary: delay earliest es r)
  case Nil
  then show ?case by simp
next
  case (Cons a attempts)
  obtain es1 r1 where att: "run_attempt ce options credentials fs a = (es1, r1)"
    by (cases "run_attempt ce options credentials fs a")
  then have "stdout_lines es1 = []" "effects_below m es1"
    using run_attempt_cases by (fastforce simp: attempt_sends_def)+
  with att Cons show ?case
    by (auto split: option.splits if_splits prod.splits)
qed

section \<open>The reconnection loop as a run of the sender\<close>

definition extend_logs :: "connector_effect list \<Rightarrow> sender \<Rightarrow> sender" where
  "extend_logs es sd = sd\<lparr>sd_logs := (\<lambda>h. sd_logs sd h @ written_stream h es)\<rparr>"

text \<open>Connections are new: the attempts use different ones, on which nothing was sent.\<close>

definition fresh_attempts :: "sender \<Rightarrow> attempt list \<Rightarrow> bool" where
  "fresh_attempts sd attempts \<longleftrightarrow>
     distinct (map at_socket attempts) \<and> (\<forall>a\<in>set attempts. sd_logs sd (at_socket a) = [])"

text \<open>A detached sender that keeps a given queue.\<close>

definition detached_with :: "pending_frame list \<Rightarrow> sender \<Rightarrow> bool" where
  "detached_with fs sd \<longleftrightarrow>
     sd_conn sd = None \<and> sd_first sd \<le> Suc (length (sd_payloads sd)) \<and>
     map pending_view fs = numbered (sd_payloads sd) (sd_first sd) (Suc (length (sd_payloads sd)))"

lemma detached_length:
  assumes "detached_with fs sd"
  shows "length fs = Suc (length (sd_payloads sd)) - sd_first sd"
proof -
  have "length (map pending_view fs)
      = length (numbered (sd_payloads sd) (sd_first sd) (Suc (length (sd_payloads sd))))"
    using assms by (simp only: detached_with_def)
  then show ?thesis by simp
qed

lemma attach_do:
  assumes fs: "detached_with fs sd" and fresh: "sd_logs sd g = []" and k: "k \<le> length fs"
    and es: "\<forall>h. written_stream h es = (if h = g then map pending_view (take k fs) else [])"
    and complete: "complete \<longrightarrow> k = length fs"
  shows "sender_do (Attach g k complete) sd = Some ((extend_logs es sd)
    \<lparr>sd_conn := (if complete then Some g else None), sd_sent := sd_first sd + k\<rparr>)"
proof -
  note len = detached_length [OF fs]
  have bound: "sd_first sd + k \<le> Suc (length (sd_payloads sd))"
    using len k fs by (auto simp: detached_with_def)
  have "map pending_view (take k fs) = take k (map pending_view fs)" by (simp add: take_map)
  also have "\<dots> = numbered (sd_payloads sd) (sd_first sd) (sd_first sd + k)"
    using fs bound by (simp add: detached_with_def take_numbered)
  finally have "(sd_logs sd)(g := numbered (sd_payloads sd) (sd_first sd) (sd_first sd + k))
      = (\<lambda>h. sd_logs sd h @ written_stream h es)"
    using es fresh by (auto simp: fun_eq_iff)
  moreover have "complete \<longrightarrow> sd_first sd + k = Suc (length (sd_payloads sd))"
    using complete len fs by (auto simp: detached_with_def)
  ultimately show ?thesis
    using fs fresh bound by (simp add: detached_with_def extend_logs_def)
qed

lemma reconnect_loop_run:
  assumes "reconnect_loop ce options credentials fs deadline delay earliest attempts = (es, Some (Reconnected g))"
    and "detached_with fs sd" and "fresh_attempts sd attempts"
  shows "\<exists>acts. acks_in A acts \<and> sender_run acts sd = Some ((extend_logs es sd)
    \<lparr>sd_conn := Some g, sd_sent := Suc (length (sd_payloads sd))\<rparr>)"
  using assms
proof (induction attempts arbitrary: delay earliest es sd)
  case Nil
  then show ?case by simp
next
  case (Cons a attempts)
  let ?n = "Suc (length (sd_payloads sd))"
  obtain es1 r1 where att: "run_attempt ce options credentials fs a = (es1, r1)"
    by (cases "run_attempt ce options credentials fs a")
  obtain k where k: "k \<le> length fs"
    "\<forall>h. written_stream h es1 = (if h = at_socket a then map pending_view (take k fs) else [])"
    "\<forall>g. r1 = Some (Reconnected g) \<longrightarrow> g = at_socket a \<and> k = length fs"
    using run_attempt_cases [OF att] by (auto simp: attempt_sends_def)
  have fresh: "sd_logs sd (at_socket a) = []" using Cons.prems(3) by (simp add: fresh_attempts_def)
  note len = detached_length [OF Cons.prems(2)]
  show ?case
  proof (cases r1)
    case (Some r)
    with Cons.prems(1) att have es: "es = es1" "r1 = Some (Reconnected g)"
      by (auto split: option.splits if_splits)
    with k have g: "g = at_socket a" "k = length fs" by auto
    have "sender_do (Attach g k True) sd = Some ((extend_logs es1 sd)
      \<lparr>sd_conn := Some g, sd_sent := sd_first sd + k\<rparr>)"
      using attach_do [OF Cons.prems(2) fresh k(1,2), of True] g by simp
    moreover have "sd_first sd + k = ?n"
      using g len Cons.prems(2) by (simp add: detached_with_def)
    ultimately have "sender_run [Attach g k True] sd = Some ((extend_logs es sd)
      \<lparr>sd_conn := Some g, sd_sent := ?n\<rparr>)" by (simp add: es)
    then show ?thesis by (intro exI [of _ "[Attach g k True]"]) simp
  next
    case None
    with Cons.prems(1) att obtain es2 where
      rec: "reconnect_loop ce options credentials fs deadline (next_delay delay)
        (slept deadline delay (attempt_end deadline earliest a)) attempts = (es2, Some (Reconnected g))"
      and es: "es = es1 @ es2"
      by (auto split: option.splits if_splits prod.splits)
    let ?sd = "(extend_logs es1 sd)\<lparr>sd_conn := None, sd_sent := sd_first sd + k\<rparr>"
    have step: "sender_do (Attach (at_socket a) k False) sd = Some ?sd"
      using attach_do [OF Cons.prems(2) fresh k(1,2), of False] by simp
    have "detached_with fs ?sd"
      using Cons.prems(2) by (simp add: detached_with_def extend_logs_def)
    moreover have "fresh_attempts ?sd attempts"
      using Cons.prems(3) k(2) by (auto simp: fresh_attempts_def extend_logs_def image_iff)
    ultimately have "detached_with fs ?sd" "fresh_attempts ?sd attempts" by auto
    from Cons.IH [OF rec this] obtain acts where "acks_in A acts"
      "sender_run acts ?sd = Some ((extend_logs es2 ?sd)
        \<lparr>sd_conn := Some g, sd_sent := Suc (length (sd_payloads ?sd))\<rparr>)" by blast
    with step show ?thesis
      by (intro exI [of _ "Attach (at_socket a) k False # acts"]) (simp add: es extend_logs_def)
  qed
qed

section \<open>The invariant of the connector\<close>

definition first_pending :: "connector \<Rightarrow> nat" where
  "first_pending c = cn_next_sequence c - length (cn_pending c)"

definition connector_inv :: "connect_options \<Rightarrow> connector \<Rightarrow> bool" where
  "connector_inv options c \<longleftrightarrow>
     retains (cn_lines c) (first_pending c) (map pending_view (cn_pending c)) (cn_pending_bytes c)
       (cn_next_sequence c) \<and>
     cn_next_sequence c \<le> u64_max \<and>
     length (cn_pending c) \<le> co_max_replay_frames options \<and>
     cn_pending_bytes c \<le> co_max_replay_bytes options \<and>
     cn_expected c = Suc (length (stdout_lines (cn_effects c))) \<and> cn_expected c \<le> u64_max \<and>
     effects_below (Suc (length (stdout_lines (cn_effects c)))) (cn_effects c)"

definition client_limits :: "connect_options \<Rightarrow> bool" where
  "client_limits options \<longleftrightarrow>
     co_max_frame_bytes options \<le> co_max_replay_bytes options \<and> co_max_replay_bytes options < u64_max"

definition client_sender :: "connector \<Rightarrow> sender" where
  "client_sender c =
     \<lparr>sd_payloads = cn_lines c, sd_first = first_pending c, sd_conn = Some (cn_socket c),
      sd_sent = cn_next_sequence c, sd_logs = (\<lambda>g. written_stream g (cn_effects c))\<rparr>"

text \<open>A step keeps the invariant and is a run of the sender with given acknowledgements.\<close>

definition client_turn :: "connect_options \<Rightarrow> nat set \<Rightarrow> connector \<Rightarrow> connector \<Rightarrow> bool" where
  "client_turn options A c c' \<longleftrightarrow>
     connector_inv options c' \<and>
     (\<exists>acts. acks_in A acts \<and> sender_run acts (client_sender c) = Some (client_sender c')) \<and>
     (\<exists>es. cn_effects c' = cn_effects c @ es)"

lemma client_turnI:
  "connector_inv options c' \<Longrightarrow> acks_in A acts \<Longrightarrow>
     sender_run acts (client_sender c) = Some (client_sender c') \<Longrightarrow>
     cn_effects c' = cn_effects c @ es \<Longrightarrow> client_turn options A c c'"
  by (auto simp: client_turn_def)

text \<open>The queue of a sender that has just lost its connection, with one more line unsent or not.\<close>

lemma reconnect_turn:
  assumes rec: "reconnect cc io c = Continue c'" and inv: "connector_inv options c"
    and sd: "sd_payloads sd = cn_lines c" "sd_first sd = first_pending c"
      "sd_logs sd = (\<lambda>g. written_stream g (cn_effects c))"
    and fresh: "fresh_attempts sd (ki_attempts io)"
  shows "connector_inv options c'"
    and "\<exists>acts. acks_in A acts \<and> sender_run acts sd = Some (client_sender c')"
    and "stdout_lines (cn_effects c') = stdout_lines (cn_effects c)" and "cn_expected c' = cn_expected c"
    and "cn_lines c' = cn_lines c" and "\<exists>es. cn_effects c' = cn_effects c @ es"
proof -
  from rec obtain es g where loop: "reconnect_loop (cc_env cc) (cc_options cc) (cc_credentials cc)
      (cn_pending c) (ki_now io + co_reconnect_timeout (cc_options cc)) 200 (ki_now io) (ki_attempts io)
      = (es, Some (Reconnected g))"
    and c': "c' = (emit es c)\<lparr>cn_socket := g, cn_last_received := ki_reconnected_at io\<rparr>"
    by (auto simp: reconnect_def reconnect_and_replay_def split: prod.splits option.splits reconnect_result.splits)
  have silent: "stdout_lines es = []" "effects_below m es" for m
    using reconnect_loop_stdout [OF loop] by auto
  show "connector_inv options c'"
    using inv silent by (simp add: c' connector_inv_def emit_def first_pending_def)
  show "stdout_lines (cn_effects c') = stdout_lines (cn_effects c)" "cn_expected c' = cn_expected c"
    "cn_lines c' = cn_lines c" "\<exists>es. cn_effects c' = cn_effects c @ es"
    using silent by (simp_all add: c' emit_def)
  let ?sd = "sd\<lparr>sd_conn := None\<rparr>"
  have "detached_with (cn_pending c) ?sd"
    using inv sd by (auto simp: detached_with_def connector_inv_def retains_def)
  moreover have "fresh_attempts ?sd (ki_attempts io)" using fresh by (simp add: fresh_attempts_def)
  ultimately obtain acts where acts: "acks_in A acts" "sender_run acts ?sd = Some ((extend_logs es ?sd)
      \<lparr>sd_conn := Some g, sd_sent := Suc (length (sd_payloads ?sd))\<rparr>)"
    using reconnect_loop_run [OF loop] by blast
  have "(extend_logs es ?sd)\<lparr>sd_conn := Some g, sd_sent := Suc (length (sd_payloads ?sd))\<rparr> = client_sender c'"
    using inv sd by (auto simp: client_sender_def c' emit_def first_pending_def extend_logs_def
      connector_inv_def retains_def intro!: sender.equality)
  with acts show "\<exists>acts. acks_in A acts \<and> sender_run acts sd = Some (client_sender c')"
    by (intro exI [of _ "Detach # acts"]) simp
qed

section \<open>The steps\<close>

definition step_fresh :: "connector_io \<Rightarrow> connector \<Rightarrow> bool" where
  "step_fresh io c \<longleftrightarrow>
     distinct (map at_socket (ki_attempts io)) \<and>
     (\<forall>a\<in>set (ki_attempts io). at_socket a \<noteq> cn_socket c \<and>
        written_stream (at_socket a) (cn_effects c) = [])"

text \<open>The receiving side: the lines on standard output and the number expected next.\<close>

definition received :: "connector \<Rightarrow> nat \<times> string list" where
  "received c = (cn_expected c, stdout_lines (cn_effects c))"

lemma client_turn_via:
  assumes rec: "reconnect cc io c1 = Continue c'" and inv: "connector_inv options c1"
    and run: "sender_run as (client_sender c) = Some sd" "acks_in A as"
    and sd: "sd_payloads sd = cn_lines c1" "sd_first sd = first_pending c1"
      "sd_logs sd = (\<lambda>g. written_stream g (cn_effects c1))"
    and fresh: "fresh_attempts sd (ki_attempts io)" and effects: "cn_effects c1 = cn_effects c @ es"
  shows "client_turn options A c c'" and "received c' = received c1"
proof -
  note turn = reconnect_turn [OF rec inv sd fresh]
  from turn(2) obtain bs where "acks_in A bs" "sender_run bs sd = Some (client_sender c')" by blast
  moreover from turn(6) obtain es' where "cn_effects c' = cn_effects c @ (es @ es')" using effects by auto
  ultimately show "client_turn options A c c'"
    using run turn(1) by (intro client_turnI [where acts = "as @ bs"]) (auto simp: sender_run_append)
  show "received c' = received c1" using turn(3,4) by (simp add: received_def)
qed

definition silent_effects :: "connector \<Rightarrow> connector_effect list \<Rightarrow> bool" where
  "silent_effects c es \<longleftrightarrow>
     (\<forall>g. written_stream g es = []) \<and> stdout_lines es = [] \<and> effects_below (cn_expected c) es"

lemma silent_effects_simps [simp]:
  "silent_effects c []" "silent_effects c [PongFrame g x]" "silent_effects c [StderrLine x]"
  "silent_effects c [CloseFrame g]"
  by (simp_all add: silent_effects_def)

lemma client_turn_silent:
  "connector_inv options c \<Longrightarrow> silent_effects c es \<Longrightarrow>
     client_turn options A c (emit es c) \<and> received (emit es c) = received c"
proof -
  assume inv: "connector_inv options c"
    and silent: "silent_effects c es"
  have "\<forall>g. written_stream g es = []" "stdout_lines es = []" "effects_below (cn_expected c) es"
    using silent by (auto simp: silent_effects_def)
  then show ?thesis
    using inv by (auto simp: client_turn_def connector_inv_def emit_def first_pending_def client_sender_def
      received_def intro!: exI [of _ "[]"])
qed

lemma emit_pending [simp]:
  "cn_pending (emit es c) = cn_pending c" "cn_socket (emit es c) = cn_socket c"
  "cn_lines (emit es c) = cn_lines c" "first_pending (emit es c) = first_pending c"
  "cn_expected (emit es c) = cn_expected c" "cn_next_sequence (emit es c) = cn_next_sequence c"
  "cn_effects (emit es c) = cn_effects c @ es"
  by (simp_all add: emit_def first_pending_def)

lemma reconnect_step:
  assumes "reconnect cc io (emit es c) = Continue c'" and "connector_inv options c" and "step_fresh io c"
    and "silent_effects c es"
  shows "client_turn options A c c' \<and> received c' = received c"
proof -
  note silent = client_turn_silent [OF assms(2,4)]
  have none: "\<forall>g. written_stream g es = []"
    using assms(4) by (simp add: silent_effects_def)
  have inv1: "connector_inv options (emit es c)" using silent by (simp add: client_turn_def)
  have "fresh_attempts (client_sender c) (ki_attempts io)"
    using assms(3) by (simp add: client_sender_def fresh_attempts_def step_fresh_def)
  then have "client_turn options A c c'" "received c' = received (emit es c)"
    using client_turn_via [OF assms(1) inv1, of "[]" c "client_sender c" A es] none
    by (simp_all add: client_sender_def)
  with silent show ?thesis by simp
qed

lemma send_or_reconnect_step:
  assumes "send_or_reconnect cc io env c = Continue c'" and "connector_inv options c" and "step_fresh io c"
    and env: "env_frame env = None" "\<forall>q. env = Ack ServerToClient q \<longrightarrow> q < cn_expected c"
  shows "client_turn options A c c' \<and> received c' = received c"
proof -
  let ?es = "wrote (ki_write io) (cn_socket c) env"
  have "effect_ack_below (cn_expected c) (Wrote (cn_socket c) env)"
    using env(2) by (cases "(cn_expected c, Wrote (cn_socket c) env)" rule: effect_ack_below.cases) auto
  then have silent: "silent_effects c ?es"
    using env by (auto simp: silent_effects_def wrote_def split: write_answer.splits if_splits)
  show ?thesis
  proof (cases "ki_write io")
    case WriteOk
    with assms(1) have "c' = emit ?es c" by (simp add: send_or_reconnect_def)
    with client_turn_silent [OF assms(2) silent] show ?thesis by simp
  next
    case (WriteFailed arrived)
    with assms(1) have "reconnect cc io (emit ?es c) = Continue c'" by (simp add: send_or_reconnect_def Let_def)
    then show ?thesis using assms(2,3) silent by (rule reconnect_step)
  qed
qed

lemma push_line_inv:
  assumes inv: "connector_inv options c" and limits: "client_limits options"
    and room: "length (cn_pending c) < co_max_replay_frames options"
      "saturating_add (cn_pending_bytes c) (length line) \<le> co_max_replay_bytes options"
    and push: "push_line line (cn_pending c, cn_pending_bytes c, cn_next_sequence c) = Some (fs, b, n)"
  shows "connector_inv options (c\<lparr>cn_pending := fs, cn_pending_bytes := b, cn_next_sequence := n,
      cn_lines := cn_lines c @ [line]\<rparr>)"
    and "first_pending (c\<lparr>cn_pending := fs, cn_pending_bytes := b, cn_next_sequence := n,
      cn_lines := cn_lines c @ [line]\<rparr>) = first_pending c"
    and "n = Suc (cn_next_sequence c)"
proof -
  from push have fs: "fs = cn_pending c @ [\<lparr>pf_sequence = cn_next_sequence c, pf_payload = line\<rparr>]"
    and n: "n = Suc (cn_next_sequence c)" "n \<le> u64_max"
    and b: "b = saturating_add (cn_pending_bytes c) (length line)"
    by (auto simp: push_line_def checked_add_def split: if_splits)
  have fits: "cn_pending_bytes c + length line \<le> u64_max"
    using room limits saturating_add_leD by (fastforce simp: client_limits_def)
  have "retains (cn_lines c @ [line]) (first_pending c) (map pending_view fs) b n"
    using inv push fits by (intro client_queue.push_retains) (auto simp: connector_inv_def)
  moreover show "first_pending (c\<lparr>cn_pending := fs, cn_pending_bytes := b, cn_next_sequence := n,
      cn_lines := cn_lines c @ [line]\<rparr>) = first_pending c"
    by (simp add: first_pending_def fs n)
  ultimately show "connector_inv options (c\<lparr>cn_pending := fs, cn_pending_bytes := b, cn_next_sequence := n,
      cn_lines := cn_lines c @ [line]\<rparr>)"
    using inv n room by (simp add: connector_inv_def b fs)
  show "n = Suc (cn_next_sequence c)" by (rule n)
qed

lemma stdin_line_step:
  assumes step: "stdin_line cc io line c = Continue c'" and inv: "connector_inv (cc_options cc) c"
    and fresh: "step_fresh io c" and limits: "client_limits (cc_options cc)"
    and room: "length (cn_pending c) < co_max_replay_frames (cc_options cc)"
  shows "client_turn (cc_options cc) A c c' \<and> received c' = received c"
proof -
  let ?o = "cc_options cc"
  from step have bytes: "saturating_add (cn_pending_bytes c) (length line) \<le> co_max_replay_bytes ?o"
    by (auto simp: stdin_line_def Let_def not_less split: if_splits)
  from step obtain fs b n where
    push: "push_line line (cn_pending c, cn_pending_bytes c, cn_next_sequence c) = Some (fs, b, n)"
    by (auto simp: stdin_line_def Let_def split: if_splits option.splits)
  define c0 where "c0 = c\<lparr>cn_pending := fs, cn_pending_bytes := b, cn_next_sequence := n,
      cn_lines := cn_lines c @ [line]\<rparr>"
  note pushed = push_line_inv [OF inv limits room bytes push, folded c0_def]
  let ?env = "Acp (Some (cn_next_sequence c)) line"
  let ?es = "wrote (ki_write io) (cn_socket c) ?env"
  from step push have send: "send_or_reconnect cc io ?env c0 = Continue c'"
    by (auto simp: stdin_line_def Let_def c0_def split: if_splits)
  have c0: "cn_socket c0 = cn_socket c" "cn_effects c0 = cn_effects c" "cn_lines c0 = cn_lines c @ [line]"
    "cn_next_sequence c0 = n" "cn_expected c0 = cn_expected c"
    by (simp_all add: c0_def)
  have nxt: "cn_next_sequence c = Suc (length (cn_lines c))"
    using inv by (simp add: connector_inv_def retains_def)
  have silent: "stdout_lines ?es = []" by simp
  have inv1: "connector_inv ?o (emit ?es c0)"
    using pushed(1) silent by (simp add: connector_inv_def emit_def first_pending_def)
  define as where "as = (if ki_write io = WriteFailed False then [Produce line] else [Produce line, Transmit])"
  define sd where "sd = \<lparr>sd_payloads = cn_lines c @ [line], sd_first = first_pending c,
      sd_conn = Some (cn_socket c),
      sd_sent = (if ki_write io = WriteFailed False then cn_next_sequence c else n),
      sd_logs = (\<lambda>g. written_stream g (cn_effects (emit ?es c0)))\<rparr>"
  have run: "sender_run as (client_sender c) = Some sd" "acks_in A as"
    using nxt pushed(3)
    by (auto simp: as_def sd_def client_sender_def c0 fun_eq_iff intro!: sender.equality)
  show ?thesis
  proof (cases "ki_write io")
    case WriteOk
    with send have c': "c' = emit ?es c0" by (simp add: send_or_reconnect_def c0)
    have "sd = client_sender c'"
      using pushed(2) WriteOk by (simp add: sd_def client_sender_def c' c0)
    with run inv1 c' have "client_turn ?o A c c'" by (intro client_turnI [where es = ?es]) (auto simp: c0)
    moreover have "received c' = received c" by (simp add: received_def c' c0)
    ultimately show ?thesis by simp
  next
    case (WriteFailed arrived)
    with send have rec: "reconnect cc io (emit ?es c0) = Continue c'"
      by (simp add: send_or_reconnect_def Let_def c0)
    have "fresh_attempts sd (ki_attempts io)"
      using fresh by (auto simp: fresh_attempts_def step_fresh_def sd_def c0)
    then have "client_turn ?o A c c'" "received c' = received (emit ?es c0)"
      using client_turn_via [OF rec inv1 run] pushed(2) by (auto simp: sd_def c0)
    then show ?thesis by (simp add: received_def c0)
  qed
qed

text \<open>A frame of the server: accepted when it is the expected one, ignored when it is older.\<close>

lemma server_frame_step:
  assumes step: "server_frame cc io n p c = Continue c'" and inv: "connector_inv (cc_options cc) c"
    and fresh: "step_fresh io c"
  shows "client_turn (cc_options cc) A c c'" and "n \<le> cn_expected c"
    and "received c' = (if n = cn_expected c
      then (Suc n, stdout_lines (cn_effects c) @ [p]) else received c)"
proof -
  let ?o = "cc_options cc"
  show le: "n \<le> cn_expected c"
    using step by (auto simp: server_frame_def split: if_splits)
  have "client_turn ?o A c c' \<and> received c' = (if n = cn_expected c
      then (Suc n, stdout_lines (cn_effects c) @ [p]) else received c)"
  proof (cases "n = cn_expected c")
    case False
    with step le have "acknowledge cc io c = Continue c'" by (auto simp: server_frame_def split: if_splits)
    then have "client_turn ?o A c c' \<and> received c' = received c"
      unfolding acknowledge_def using inv fresh
      by (intro send_or_reconnect_step) (auto simp: connector_inv_def saturating_sub_def)
    with False show ?thesis by simp
  next
    case True
    let ?c = "(emit [Stdout p] c)\<lparr>cn_expected := Suc n\<rparr>"
    from step True have ack: "acknowledge cc io ?c = Continue c'" and bound: "Suc n \<le> u64_max"
      by (auto simp: server_frame_def Let_def checked_add_def split: if_splits option.splits)
    have inv1: "connector_inv ?o ?c"
      using inv bound True
      by (auto simp: connector_inv_def emit_def first_pending_def intro: effects_below_mono)
    have fresh1: "step_fresh io ?c"
      using fresh by (simp add: step_fresh_def emit_def)
    have "client_turn ?o A ?c c' \<and> received c' = received ?c"
      using ack unfolding acknowledge_def
      by (intro send_or_reconnect_step [OF _ inv1 fresh1]) (auto simp: saturating_sub_def)
    moreover have "client_sender ?c = client_sender c"
      by (simp add: client_sender_def emit_def first_pending_def)
    ultimately show ?thesis
      using True by (auto simp: client_turn_def received_def emit_def)
  qed
  then show "client_turn ?o A c c'" and "received c' = (if n = cn_expected c
      then (Suc n, stdout_lines (cn_effects c) @ [p]) else received c)" by auto
qed

lemma client_acknowledged_step:
  assumes inv: "connector_inv options c" and q: "q < cn_next_sequence c"
    and pop: "pop_pending q (cn_pending c, cn_pending_bytes c) = (fs, b)"
  shows "client_turn options {q} c (c\<lparr>cn_pending := fs, cn_pending_bytes := b\<rparr>)"
proof -
  let ?c = "c\<lparr>cn_pending := fs, cn_pending_bytes := b\<rparr>" and ?N = "cn_next_sequence c"
  have old: "retains (cn_lines c) (first_pending c) (map pending_view (cn_pending c)) (cn_pending_bytes c) ?N"
    using inv by (simp add: connector_inv_def)
  have ret: "retains (cn_lines c) (max (first_pending c) (Suc q)) (map pending_view fs) b ?N"
    using old q pop by (rule client_queue.pop_retains)
  then have "length (map pending_view fs) = length (numbered (cn_lines c) (max (first_pending c) (Suc q)) ?N)"
    by (simp only: retains_def)
  then have "length fs = ?N - max (first_pending c) (Suc q)" by simp
  moreover have "max (first_pending c) (Suc q) \<le> ?N" using ret unfolding retains_def by blast
  ultimately have first: "first_pending ?c = max (first_pending c) (Suc q)"
    by (simp add: first_pending_def)
  have "connector_inv options ?c"
    using ret first inv client_queue.pop_bounds [OF pop] by (simp add: connector_inv_def)
  moreover have "sender_run [Acked q] (client_sender c) = Some (client_sender ?c)"
    using first q old by (auto simp: client_sender_def retains_def max_def)
  ultimately show ?thesis by (intro client_turnI [where acts = "[Acked q]"]) auto
qed

section \<open>One step of the loop\<close>

fun acked_by_server :: "envelope \<Rightarrow> nat set" where
  "acked_by_server (Ack ClientToServer q) = {q}"
| "acked_by_server _ = {}"

lemma handle_server_envelope_step:
  assumes step: "handle_server_envelope cc io env c = Continue c'"
    and inv: "connector_inv (cc_options cc) c" and fresh: "step_fresh io c"
  shows "client_turn (cc_options cc) (acked_by_server env) c c' \<and>
    received c' = receives env (received c) \<and> in_order env (cn_expected c)"
proof (cases "(cc, io, env, c)" rule: handle_server_envelope.cases)
  case (1 cc' io' n p c1)
  with step have "server_frame cc io n p c = Continue c'" by simp
  from server_frame_step [OF this inv fresh] 1 show ?thesis by (auto simp: received_def)
next
  case (3 cc' io' q c1)
  obtain fs b where pop: "pop_pending q (cn_pending c, cn_pending_bytes c) = (fs, b)" by fastforce
  with step 3 have "q < cn_next_sequence c" and c': "c' = c\<lparr>cn_pending := fs, cn_pending_bytes := b\<rparr>"
    by (auto split: if_splits)
  from client_acknowledged_step [OF inv this(1) pop] show ?thesis using 3 by (simp add: c' received_def)
next
  case (5 cc' io' payload c1)
  with step have "c' = emit [StderrLine payload] c" by (auto split: option.splits)
  with client_turn_silent [OF inv, of "[StderrLine payload]"] 5 show ?thesis by simp
next
  case (6 cc' io' nonce c1)
  with step have "send_or_reconnect cc io (Pong nonce) c = Continue c'" by simp
  from send_or_reconnect_step [OF this inv fresh] 6 show ?thesis by simp
next
  case (7 cc' io' nonce c1)
  with step have "c' = emit [] c" by (simp add: emit_def)
  with client_turn_silent [OF inv, of "[]"] 7 show ?thesis by simp
qed (use step in \<open>auto\<close>)

fun server_event :: "client_env \<Rightarrow> connector_event \<Rightarrow> envelope option" where
  "server_event ce (SocketMessage (WsText text)) =
     (case from_text (ce_serde ce) (ce_seq ce) text of Inr env \<Rightarrow> Some env | Inl _ \<Rightarrow> None)"
| "server_event ce _ = None"

definition event_acked :: "client_env \<Rightarrow> connector_event \<Rightarrow> nat set" where
  "event_acked ce event = (case server_event ce event of None \<Rightarrow> {} | Some env \<Rightarrow> acked_by_server env)"

lemma connector_clock:
  "connector_inv options (c\<lparr>cn_last_received := n\<rparr>) = connector_inv options c"
  "client_sender (c\<lparr>cn_last_received := n\<rparr>) = client_sender c"
  "received (c\<lparr>cn_last_received := n\<rparr>) = received c"
  "step_fresh io (c\<lparr>cn_last_received := n\<rparr>) = step_fresh io c"
  by (simp_all add: connector_inv_def client_sender_def received_def step_fresh_def first_pending_def)

lemma socket_message_step:
  assumes step: "socket_message cc io m c = Continue c'"
    and inv: "connector_inv (cc_options cc) c" and fresh: "step_fresh io c"
  shows "client_turn (cc_options cc) (event_acked (cc_env cc) (SocketMessage m)) c c' \<and>
    received c' = (case server_event (cc_env cc) (SocketMessage m) of
      None \<Rightarrow> received c | Some env \<Rightarrow> receives env (received c)) \<and>
    (\<forall>env. server_event (cc_env cc) (SocketMessage m) = Some env \<longrightarrow> in_order env (cn_expected c))"
proof (cases m)
  case (WsText body)
  with step obtain env where "from_text (ce_serde (cc_env cc)) (ce_seq (cc_env cc)) body = Inr env"
    "handle_server_envelope cc io env c = Continue c'"
    by (auto split: sum.splits)
  with handle_server_envelope_step [OF this(2) inv fresh] WsText show ?thesis
    by (simp add: event_acked_def)
next
  case (WsPing payload)
  show ?thesis
  proof (cases "ki_write io")
    case WriteOk
    with step WsPing have "c' = emit [PongFrame (cn_socket c) payload] c" by simp
    with client_turn_silent [OF inv, of "[PongFrame (cn_socket c) payload]"] WsPing show ?thesis by simp
  next
    case (WriteFailed arrived)
    with step WsPing have "reconnect cc io (emit [] c) = Continue c'" by (simp add: emit_def)
    from reconnect_step [OF this inv fresh] WsPing show ?thesis by simp
  qed
next
  case (WsPong payload)
  with step have "c' = emit [] c" by (simp add: emit_def)
  with client_turn_silent [OF inv, of "[]"] WsPong show ?thesis by simp
next
  case WsClose
  with step have "reconnect cc io (emit [] c) = Continue c'" by (simp add: emit_def)
  from reconnect_step [OF this inv fresh] WsClose show ?thesis by simp
qed (use step in \<open>auto\<close>)

text \<open>
  One step: the invariant, the run of the sender, the lines written to standard output
  and, for a frame of the server, that its number was not past the expected one.
\<close>

lemma connector_step_turn:
  assumes step: "connector_step cc io event c = Continue c'"
    and inv: "connector_inv (cc_options cc) c" and fresh: "step_fresh io c"
    and enabled: "connector_enabled cc io event c" and limits: "client_limits (cc_options cc)"
  shows "client_turn (cc_options cc) (event_acked (cc_env cc) event) c c' \<and>
    received c' = (case server_event (cc_env cc) event of
      None \<Rightarrow> received c | Some env \<Rightarrow> receives env (received c)) \<and>
    (\<forall>env. server_event (cc_env cc) event = Some env \<longrightarrow> in_order env (cn_expected c))"
proof (cases event)
  case (StdinLine line)
  with step enabled have "stdin_line cc io line c = Continue c'"
    "length (cn_pending c) < co_max_replay_frames (cc_options cc)"
    by (auto simp: can_read_stdin_def)
  with stdin_line_step [OF this(1) inv fresh limits] StdinLine show ?thesis by simp
next
  case (SocketMessage m)
  let ?c = "c\<lparr>cn_last_received := ki_now io\<rparr>"
  have "socket_message cc io m ?c = Continue c'" using step SocketMessage by simp
  moreover have "connector_inv (cc_options cc) ?c" "step_fresh io ?c" using inv fresh by (simp_all add: connector_clock)
  ultimately show ?thesis
    using socket_message_step [of cc io m ?c c'] SocketMessage
    by (simp add: client_turn_def connector_clock split: option.splits)
next
  case SocketLost
  with step have "reconnect cc io (emit [] c) = Continue c'" by (simp add: emit_def)
  from reconnect_step [OF this inv fresh] SocketLost show ?thesis by simp
next
  case KeepaliveElapsed
  with step have "reconnect cc io (emit [CloseFrame (cn_socket c)] c) = Continue c'" by simp
  from reconnect_step [OF this inv fresh] KeepaliveElapsed show ?thesis by simp
qed (use step in \<open>auto\<close>)

lemma initial_connector_inv:
  "connector_inv options (initial_connector now socket)"
  "client_sender (initial_connector now socket)
    = \<lparr>sd_payloads = [], sd_first = 1, sd_conn = Some socket, sd_sent = 1, sd_logs = (\<lambda>_. [])\<rparr>"
  by (simp_all add: connector_inv_def initial_connector_def first_pending_def retains_def u64_max_def
    client_sender_def)

section \<open>The states of a run\<close>

inductive connector_reach :: "connector_context \<Rightarrow> connector \<Rightarrow> bool" for cc where
  connector_started: "connector_reach cc (initial_connector now socket)"
| connector_next: "connector_reach cc c \<Longrightarrow> step_fresh io c \<Longrightarrow> connector_enabled cc io event c \<Longrightarrow>
    connector_step cc io event c = Continue c' \<Longrightarrow> connector_reach cc c'"

definition connected_sender :: "nat \<Rightarrow> sender" where
  "connected_sender socket =
     \<lparr>sd_payloads = [], sd_first = 1, sd_conn = Some socket, sd_sent = 1, sd_logs = (\<lambda>_. [])\<rparr>"

lemma connector_reach_facts:
  assumes "connector_reach cc c" and "client_limits (cc_options cc)"
  shows "connector_inv (cc_options cc) c \<and>
    (\<exists>socket acts. sender_run acts (connected_sender socket) = Some (client_sender c))"
  using assms
proof (induction rule: connector_reach.induct)
  case (connector_started now socket)
  have "sender_run [] (connected_sender socket) = Some (client_sender (initial_connector now socket))"
    by (simp add: initial_connector_inv connected_sender_def)
  with initial_connector_inv(1) show ?case by blast
next
  case (connector_next c io event c')
  from connector_next.IH [OF connector_next.prems] obtain socket as where inv: "connector_inv (cc_options cc) c"
    and as: "sender_run as (connected_sender socket) = Some (client_sender c)" by blast
  from connector_step_turn [OF connector_next.hyps(4) inv connector_next.hyps(2,3) connector_next.prems]
  obtain bs where "connector_inv (cc_options cc) c'" "sender_run bs (client_sender c) = Some (client_sender c')"
    by (auto simp: client_turn_def)
  with as sender_run_trans show ?case by blast
qed

definition example_options :: connect_options where
  "example_options = \<lparr>co_url = \<lparr>url_scheme = ''wss'', url_host = Some (HostDomain ''h''), url_port = Some 443\<rparr>,
     co_agent = ''dev'', co_workspace = ''main'', co_token = SecretToken ''t'', co_client_environment = [],
     co_max_frame_bytes = 1024, co_max_replay_frames = 8, co_max_replay_bytes = 4096,
     co_connection_timeout = 10, co_keepalive_timeout = 45, co_reconnect_timeout = 30, co_shutdown_timeout = 5\<rparr>"

text \<open>An environment in which the text \<open>text\<close> is a given envelope.\<close>

definition example_client_env :: "envelope \<Rightarrow> client_env" where
  "example_client_env env = \<lparr>ce_serde = example_serde (envelope_to_value env),
     ce_seq = (\<lambda>_. Inl InvalidType), ce_version = ''0'',
     ce_format = \<lparr>fmt_debug = id, fmt_debug_code = (\<lambda>_. []), fmt_json = (\<lambda>_. [])\<rparr>\<rparr>"

definition example_connector :: "envelope \<Rightarrow> connector_context" where
  "example_connector env = \<lparr>cc_env = example_client_env env, cc_options = example_options,
     cc_credentials = \<lparr>connection_id = ''c1'', resume_token = ''r1''\<rparr>\<rparr>"

definition example_kio :: connector_io where
  "example_kio = \<lparr>ki_now = 0, ki_write = WriteOk, ki_stdout = None, ki_stderr = None, ki_attempts = [],
     ki_reconnected_at = 0\<rparr>"

lemma example_connector_limits: "client_limits (cc_options (example_connector env))"
  by (simp add: client_limits_def example_connector_def example_options_def u64_max_def)

lemma example_connector_reach:
  obtains c where "connector_reach (example_connector env) c" and "cn_lines c = [''yo'']"
    and "length (cn_pending c) = 1"
proof -
  obtain c where c: "connector_step (example_connector env) example_kio (StdinLine ''yo'') (initial_connector 0 1) = Continue c"
    "cn_lines c = [''yo'']" "length (cn_pending c) = 1"
    by (simp add: stdin_line_def push_line_def checked_add_def saturating_add_def send_or_reconnect_def wrote_def
      emit_def example_connector_def example_options_def example_kio_def initial_connector_def u64_max_def)
  have "connector_reach (example_connector env) c"
    by (rule connector_next [OF connector_started _ _ c(1)])
       (simp_all add: step_fresh_def example_kio_def can_read_stdin_def example_connector_def example_options_def
         initial_connector_def saturating_sub_def)
  with c that show ?thesis by blast
qed

section \<open>Properties\<close>

text \<open>
  C10. In every state of the connector its replay queue keeps within the limits, its byte count is
  exact and its sequence numbers are consecutive up to the last one given out.
\<close>

theorem connector_queue_bounded:
  assumes "connector_reach cc c" and "client_limits (cc_options cc)"
  shows "length (cn_pending c) \<le> co_max_replay_frames (cc_options cc) \<and>
    cn_pending_bytes c \<le> co_max_replay_bytes (cc_options cc) \<and>
    cn_pending_bytes c = sum_list (map (length \<circ> pf_payload) (cn_pending c)) \<and>
    map pf_sequence (cn_pending c) = [cn_next_sequence c - length (cn_pending c)..<cn_next_sequence c]"
proof -
  from connector_reach_facts [OF assms] have inv: "connector_inv (cc_options cc) c" by simp
  then have view: "map pending_view (cn_pending c) = numbered (cn_lines c) (first_pending c) (cn_next_sequence c)"
    and bytes: "cn_pending_bytes c = payload_bytes (map pending_view (cn_pending c))"
    by (simp_all add: connector_inv_def retains_def)
  from view have "map fst (map pending_view (cn_pending c)) = [first_pending c..<cn_next_sequence c]"
    by (simp only: map_fst_numbered)
  moreover have "fst \<circ> pending_view = pf_sequence" "length \<circ> snd \<circ> pending_view = length \<circ> pf_payload"
    by (auto simp: pending_view_def)
  ultimately have "map pf_sequence (cn_pending c) = [first_pending c..<cn_next_sequence c]"
    "cn_pending_bytes c = sum_list (map (length \<circ> pf_payload) (cn_pending c))"
    using bytes by (simp_all only: map_map payload_bytes_def o_assoc)
  then show ?thesis using inv by (simp add: connector_inv_def first_pending_def)
qed

theorem connector_queue_bounded_witness:
  "\<exists>c. connector_reach (example_connector (Pong [])) c \<and> length (cn_pending c) = 1 \<and>
     map pf_sequence (cn_pending c) = [cn_next_sequence c - 1..<cn_next_sequence c]"
proof -
  obtain c where c: "connector_reach (example_connector (Pong [])) c" "length (cn_pending c) = 1"
    by (rule example_connector_reach)
  with connector_queue_bounded [OF c(1) example_connector_limits] show ?thesis by auto
qed

text \<open>
  C7. A connector is, for the lines of its standard input, the abstract sender, whatever the server
  sends and however connections are lost.
\<close>

theorem connector_refines_sender:
  assumes "connector_reach cc c" and "client_limits (cc_options cc)"
  shows "\<exists>socket acts. sender_run acts (connected_sender socket) = Some (client_sender c)"
  using connector_reach_facts [OF assms] by blast

theorem connector_refines_sender_witness:
  "\<exists>c. connector_reach (example_connector (Pong [])) c \<and> cn_lines c = [''yo''] \<and>
     (\<exists>socket acts. sender_run acts (connected_sender socket) = Some (client_sender c))"
proof -
  obtain c where c: "connector_reach (example_connector (Pong [])) c" "cn_lines c = [''yo'']"
    by (rule example_connector_reach)
  with connector_refines_sender [OF c(1) example_connector_limits] show ?thesis by blast
qed

text \<open>The time that the next pauses take together, starting with a given one.\<close>

fun pauses :: "nat \<Rightarrow> nat \<Rightarrow> nat" where
  "pauses delay 0 = 0"
| "pauses delay (Suc n) = delay + pauses (next_delay delay) n"

lemma pauses_longest: "pauses 5000 n = 5000 * n"
  by (induction n) (simp_all add: next_delay_def)

lemma pauses_first: "pauses 200 (Suc (Suc (Suc (Suc (Suc n))))) = 6200 + 5000 * n"
  by (simp add: next_delay_def pauses_longest)

text \<open>When the pauses fill the time up to the deadline, the loop ends before the attempts do.\<close>

lemma reconnect_loop_ends:
  assumes "deadline \<le> earliest + pauses delay n" and "n < length attempts"
  shows "snd (reconnect_loop ce options credentials fs deadline delay earliest attempts) \<noteq> None"
  using assms
proof (induction attempts arbitrary: earliest delay n)
  case Nil
  then show ?case by simp
next
  case (Cons a attempts)
  let ?after = "attempt_end deadline earliest a"
  show ?case
  proof (cases "at_try_receive a = None \<and> attempt_start earliest a < deadline \<and>
      snd (run_attempt ce options credentials fs a) = None \<and> ?after < deadline \<and> at_sleep a = None")
    case False
    then show ?thesis
      by (cases "run_attempt ce options credentials fs a") (auto split: option.splits)
  next
    case True
    then obtain es where att: "run_attempt ce options credentials fs a = (es, None)"
      by (cases "run_attempt ce options credentials fs a") auto
    have "earliest < deadline" using True by (simp add: attempt_start_def)
    with Cons.prems(1) obtain m where n: "n = Suc m" by (cases n) auto
    have "earliest \<le> ?after"
      using \<open>earliest < deadline\<close> by (auto simp: attempt_end_def attempt_start_def split: attempt_answer.splits)
    then have "deadline \<le> slept deadline delay ?after + pauses (next_delay delay) m"
      using Cons.prems(1) n by (auto simp: slept_def)
    then have "snd (reconnect_loop ce options credentials fs deadline (next_delay delay)
        (slept deadline delay ?after) attempts) \<noteq> None"
      using Cons.IH Cons.prems(2) n by simp
    then show ?thesis using True att by (auto split: prod.splits)
  qed
qed

text \<open>
  C23. Reconnecting ends, whatever the clock reads, the server answers and the shutdown channel holds: the pauses of
  200, 400, 800, 1600, 3200 and then 5000 ms fill the timeout, so \<open>reconnect_and_replay\<close> has a result after at most
  six attempts and one more for every five seconds of the timeout. (An attempt itself ends with
  the answer it is given.)
\<close>

theorem reconnect_ends:
  assumes "co_reconnect_timeout options div 5000 + 6 \<le> length attempts"
  shows "\<exists>result. snd (reconnect_and_replay ce options credentials fs now attempts) = Some result"
proof -
  let ?n = "Suc (Suc (Suc (Suc (Suc (co_reconnect_timeout options div 5000)))))"
  have "co_reconnect_timeout options < 5000 + 5000 * (co_reconnect_timeout options div 5000)"
    using dividend_less_times_div [of 5000 "co_reconnect_timeout options"] by simp
  then have "now + co_reconnect_timeout options \<le> now + pauses 200 ?n"
    unfolding pauses_first by simp
  from reconnect_loop_ends [OF this, of attempts ce options credentials fs] assms show ?thesis
    by (simp add: reconnect_and_replay_def)
qed

definition failed_attempt :: attempt where
  "failed_attempt = \<lparr>at_try_receive = None, at_now = 0,
     at_answer = AttemptOpened \<lparr>hk_request = Inr (), hk_connect = ConnectFailed [], hk_send = None,
       hk_arrived = False, hk_recv = None\<rparr>,
     at_socket = 2, at_replay = (\<lambda>_. WriteOk), at_after = 0, at_sleep = None\<rparr>"

text \<open>The witness: every connection is refused at once and no clock reading ever advances.\<close>

theorem reconnect_ends_witness:
  "\<exists>result. snd (reconnect_and_replay (example_client_env (Pong []))
     (example_options\<lparr>co_reconnect_timeout := 9000\<rparr>)
     \<lparr>connection_id = ''c1'', resume_token = ''r1''\<rparr> [] 0 (replicate 7 failed_attempt)) = Some result"
  by (rule reconnect_ends) (simp add: example_options_def)

definition example_handshake :: handshake where
  "example_handshake = \<lparr>hk_request = Inr (), hk_connect = Connected, hk_send = None, hk_arrived = True,
     hk_recv = Some (Inr (Some (WsText ''text'')))\<rparr>"

theorem client_environment_sent_once_witness:
  "\<exists>es cc c info. connect_start (example_client_env (Ready TUNNEL_VERSION ''c1'' (Some ''r1'') False)) (\<lambda>_ _. Inl [])
      (example_options\<lparr>co_client_environment := [\<lparr>var_name = ''TOKEN'', var_value = ''v''\<rparr>]\<rparr>)
      example_handshake 0 1 = (es, Inr (cc, c)) \<and>
    es = [Opened 1 (Open TUNNEL_VERSION ''dev'' ''main'' info [\<lparr>var_name = ''TOKEN'', var_value = ''v''\<rparr>] None)]"
proof -
  let ?ce = "example_client_env (Ready TUNNEL_VERSION ''c1'' (Some ''r1'') False)"
  let ?o = "example_options\<lparr>co_client_environment := [\<lparr>var_name = ''TOKEN'', var_value = ''v''\<rparr>]\<rparr>"
  have "validate_options (\<lambda>_ _. Inl []) ?o = Inr ()"
    by (simp add: validate_options_def example_options_def validate_connect_url_def validate_client_environment_def
      validate_client_variable_def validate_id_def validate_environment_name_def id_pattern_def
      id_start_char_def id_char_def env_name_ok_def)
  moreover have "snd (open_socket ?ce ?o None 1 example_handshake) = Inr \<lparr>connection_id = ''c1'', resume_token = ''r1''\<rparr>"
    by (simp add: open_socket_def example_options_def example_handshake_def header_from_str_def accept_ready_def
      from_text_def example_client_env_def example_serde_def envelope_from_to_value TUNNEL_VERSION_def u32_max_def)
  ultimately obtain es cc c where start: "connect_start ?ce (\<lambda>_ _. Inl []) ?o example_handshake 0 1 = (es, Inr (cc, c))"
    by (cases "open_socket ?ce ?o None 1 example_handshake") (simp add: connect_start_def)
  from client_environment_sent_once [OF start] start show ?thesis
    by (auto simp: example_options_def)
qed

end
