(* ===== verification/Acp_Client_Shutdown.thy ===== *)
theory Acp_Client_Shutdown
  imports Acp_Client_Refine
begin

text \<open>
  \<^verbatim>\<open>client.rs\<close>, the end of a connector: the exchange of \<open>shutdown\<close> and
  \<open>shutdown_complete\<close> with its reconnections, and \<open>connect_with_shutdown\<close> as a whole.
  A round is one turn of the outer loop of \<open>graceful_shutdown_inner\<close>, with the answers of
  the clock, the connection and the reads it meets. When the rounds given are used up
  the timeout around the exchange has elapsed.
\<close>

section \<open>The environment of a round\<close>

datatype read_answer = ReadMessage ws_message "string option" | ReadLost | ReadElapsed
  \<comment> \<open>a message, with the error of the answer written to it, if any\<close>

record confirmation_read =
  cr_now :: nat
  cr_answer :: read_answer

datatype open_answer = OpenElapsed bool | OpenDone handshake
  \<comment> \<open>the time ran out, after or before the opening envelope was written\<close>

datatype send_answer = SendOk | SendFailed bool | SendElapsed bool

record shutdown_round =
  sr_now :: nat
  sr_open :: open_answer          \<comment> \<open>only without a connection\<close>
  sr_socket :: nat
  sr_after_open :: nat            \<comment> \<open>the clock after a failed opening\<close>
  sr_send :: send_answer
  sr_reads :: "confirmation_read list"

section \<open>Waiting for the confirmation\<close>

datatype read_result = Lost | Finished "error + unit"

definition confirmation_timeout :: error where
  "confirmation_timeout = Timeout ''waiting for remote shutdown confirmation''"

text \<open>One message: the effects, and a result when the wait is over.\<close>

fun shutdown_envelope :: "nat \<Rightarrow> string option \<Rightarrow> envelope \<Rightarrow> connector_effect list \<times> read_result option" where
  "shutdown_envelope g failed (ShutdownComplete _ _) = ([CloseFrame g], Some (Finished (Inr ())))"
| "shutdown_envelope g failed (Ping nonce) =
     (case failed of
        None \<Rightarrow> ([Wrote g (Pong nonce)], None)
      | Some e \<Rightarrow> ([], Some (Finished (Inl (WebSocket e)))))"
| "shutdown_envelope g failed (Stderr payload) = ([Diagnostic [Disp payload]], None)"
| "shutdown_envelope g failed (Exit _ _) = ([], None)"
| "shutdown_envelope g failed (Ack _ _) = ([], None)"
| "shutdown_envelope g failed (Pong _) = ([], None)"
| "shutdown_envelope g failed (Acp _ _) = ([], None)"
| "shutdown_envelope g failed (ErrorEnvelope code message) =
     ([], Some (Finished (Inl (Protocol [Disp code, Lit '': '', Disp message]))))"
| "shutdown_envelope g failed _ =
     ([], Some (Finished (Inl (Protocol [Lit ''unexpected envelope during shutdown'']))))"

fun shutdown_message ::
    "client_env \<Rightarrow> nat \<Rightarrow> string option \<Rightarrow> ws_message \<Rightarrow> connector_effect list \<times> read_result option" where
  "shutdown_message ce g failed (WsText text) =
     (case from_text (ce_serde ce) (ce_seq ce) text of
        Inl e \<Rightarrow> ([], Some (Finished (Inl e)))
      | Inr envelope \<Rightarrow> shutdown_envelope g failed envelope)"
| "shutdown_message ce g failed (WsPing payload) =
     (case failed of
        None \<Rightarrow> ([PongFrame g payload], None)
      | Some e \<Rightarrow> ([], Some (Finished (Inl (WebSocket e)))))"
| "shutdown_message ce g failed (WsPong _) = ([], None)"
| "shutdown_message ce g failed WsClose = ([], Some Lost)"
| "shutdown_message ce g failed (WsBinary _) =
     ([], Some (Finished (Inl (Protocol [Lit ''binary WebSocket messages are not supported'']))))"

fun await_confirmation ::
    "client_env \<Rightarrow> nat \<Rightarrow> nat \<Rightarrow> confirmation_read list \<Rightarrow> connector_effect list \<times> read_result option" where
  "await_confirmation ce g deadline [] = ([], None)"
| "await_confirmation ce g deadline (r # rs) =
     (if deadline \<le> cr_now r then ([CloseFrame g], Some (Finished (Inl confirmation_timeout)))
      else case cr_answer r of
             ReadLost \<Rightarrow> ([], Some Lost)
           | ReadElapsed \<Rightarrow> ([CloseFrame g], Some (Finished (Inl confirmation_timeout)))
           | ReadMessage message failed \<Rightarrow>
               (case shutdown_message ce g failed message of
                  (es, Some result) \<Rightarrow> (Received g message # es, Some result)
                | (es, None) \<Rightarrow>
                    (case await_confirmation ce g deadline rs of
                       (es', result) \<Rightarrow> (Received g message # es @ es', result))))"

section \<open>The exchange\<close>

text \<open>
  The request on a connection and the wait for its confirmation. \<open>Some Lost\<close> when the connection
  is gone and the loop goes on without one.
\<close>

definition request_shutdown ::
    "client_env \<Rightarrow> shutdown_reason \<Rightarrow> nat \<Rightarrow> nat \<Rightarrow> shutdown_round
      \<Rightarrow> connector_effect list \<times> read_result option" where
  "request_shutdown ce reason deadline g r =
     (case sr_send r of
        SendElapsed arrived \<Rightarrow>
          ((if arrived then [Wrote g (Shutdown reason)] else []) @ [CloseFrame g],
           Some (Finished (Inl (Timeout ''sending remote shutdown request''))))
      | SendFailed arrived \<Rightarrow> (if arrived then [Wrote g (Shutdown reason)] else [], Some Lost)
      | SendOk \<Rightarrow>
          (case await_confirmation ce g deadline (sr_reads r) of
             (es, result) \<Rightarrow> (Wrote g (Shutdown reason) # es, result)))"

text \<open>
  The connection of a round: the one it is given, or a new one. With \<open>NoConnection\<close> comes the clock after the failed
  opening, where the pause starts.
\<close>

datatype round_result =
    Connection "connector_effect list" nat
  | NoConnection "connector_effect list" nat
  | RoundFailed "connector_effect list" error

definition shutdown_connection ::
    "client_env \<Rightarrow> connect_options \<Rightarrow> resume_credentials \<Rightarrow> nat \<Rightarrow> nat \<Rightarrow> nat option \<Rightarrow> shutdown_round
      \<Rightarrow> round_result" where
  "shutdown_connection ce options credentials deadline now socket r =
     (case socket of
        Some g \<Rightarrow> Connection [] g
      | None \<Rightarrow>
          (case sr_open r of
             OpenElapsed arrived \<Rightarrow>
               RoundFailed (opened arrived (sr_socket r) (open_envelope ce options (Some credentials)))
                 (Timeout ''reconnecting to shut down detached tunnel'')
           | OpenDone hk \<Rightarrow>
               (case open_socket ce options (Some credentials) (sr_socket r) hk of
                  (es, Inl e) \<Rightarrow>
                    let es' = es @ [Diagnostic (Lit ''shutdown reconnect failed: '' # error_to_string e)];
                        after = max now (sr_after_open r)
                    in if deadline \<le> after
                       then RoundFailed es' (Timeout ''reconnecting to shut down detached tunnel'')
                       else NoConnection es' after
                | (es, Inr returned) \<Rightarrow>
                    if connection_id returned = connection_id credentials \<and>
                       resume_token returned = resume_token credentials
                    then Connection es (sr_socket r)
                    else RoundFailed es (Protocol
                           [Lit ''server changed resume credentials during shutdown'']))))"

text \<open>The pauses between two openings that failed: 100 ms, doubled up to a second.\<close>

fun graceful_shutdown_inner ::
    "client_env \<Rightarrow> connect_options \<Rightarrow> resume_credentials \<Rightarrow> shutdown_reason \<Rightarrow> nat \<Rightarrow> nat \<Rightarrow> nat \<Rightarrow> nat option
      \<Rightarrow> shutdown_round list \<Rightarrow> connector_effect list \<times> (error + unit) option" where
  "graceful_shutdown_inner ce options credentials reason deadline delay earliest socket [] = ([], None)"
| "graceful_shutdown_inner ce options credentials reason deadline delay earliest socket (r # rs) =
     (if deadline \<le> max earliest (sr_now r)
      then ((case socket of Some g \<Rightarrow> [CloseFrame g] | None \<Rightarrow> []), Some (Inl confirmation_timeout))
      else case shutdown_connection ce options credentials deadline (max earliest (sr_now r)) socket r of
             RoundFailed es e \<Rightarrow> (es, Some (Inl e))
           | NoConnection es after \<Rightarrow>
               (case graceful_shutdown_inner ce options credentials reason deadline (min (2 * delay) 1000)
                       (slept deadline delay after) None rs of
                  (es', result) \<Rightarrow> (es @ es', result))
           | Connection es0 g \<Rightarrow>
               (case request_shutdown ce reason deadline g r of
                  (es, None) \<Rightarrow> (es0 @ es, None)
                | (es, Some (Finished result)) \<Rightarrow> (es0 @ es, Some result)
                | (es, Some Lost) \<Rightarrow>
                    (case graceful_shutdown_inner ce options credentials reason deadline delay
                            (max earliest (sr_now r)) None rs of
                       (es', result) \<Rightarrow> (es0 @ es @ es', result))))"

definition graceful_shutdown ::
    "client_env \<Rightarrow> connect_options \<Rightarrow> resume_credentials \<Rightarrow> nat option \<Rightarrow> shutdown_reason \<Rightarrow> nat
      \<Rightarrow> shutdown_round list \<Rightarrow> connector_effect list \<times> (error + unit)" where
  "graceful_shutdown ce options credentials socket reason now rounds =
     (case graceful_shutdown_inner ce options credentials reason (now + co_shutdown_timeout options) 100 now
             socket rounds of
        (es, None) \<Rightarrow> (es, Inl confirmation_timeout)
      | (es, Some result) \<Rightarrow> (es, result))"

section \<open>The whole connector\<close>

record shutdown_io =
  sh_now :: nat
  sh_rounds :: "shutdown_round list"

text \<open>
  The result is \<open>None\<close> while the connector is still running. A shutdown during a reconnection
  (its socket is \<open>None\<close>) ends the connector with success once it is confirmed.
\<close>

definition connect_with_shutdown ::
    "client_env \<Rightarrow> resolver \<Rightarrow> connect_options \<Rightarrow> handshake \<Rightarrow> nat \<Rightarrow> nat
      \<Rightarrow> (connector_io \<times> connector_event) list \<Rightarrow> shutdown_io
      \<Rightarrow> connector_effect list \<times> (error + unit) option" where
  "connect_with_shutdown ce resolve options hk now socket inputs sh =
     (case connect_start ce resolve options hk now socket of
        (es0, Inl e) \<Rightarrow> (es0, Some (Inl e))
      | (es0, Inr (cc, c0)) \<Rightarrow>
          (case connector_loop cc inputs c0 of
             Continue c \<Rightarrow> (es0 @ cn_effects c, None)
           | StillReconnecting c \<Rightarrow> (es0 @ cn_effects c, None)
           | Return c r \<Rightarrow> (es0 @ cn_effects c, Some r)
           | GracefulShutdown c g reason \<Rightarrow>
               (case graceful_shutdown ce (cc_options cc) (cc_credentials cc) g reason (sh_now sh) (sh_rounds sh) of
                  (es, r) \<Rightarrow> (es0 @ cn_effects c @ es, Some r))))"

section \<open>What the exchange does\<close>

text \<open>
  The effects of a shutdown: opening envelopes that resume the tunnel, the request, answers to pings, diagnostics,
  reads and closing.
\<close>

fun shutdown_effect ::
    "client_env \<Rightarrow> connect_options \<Rightarrow> resume_credentials \<Rightarrow> shutdown_reason \<Rightarrow> connector_effect \<Rightarrow> bool" where
  "shutdown_effect ce options credentials reason (Wrote g (Shutdown r)) \<longleftrightarrow> r = reason"
| "shutdown_effect ce options credentials reason (Wrote g (Pong _)) \<longleftrightarrow> True"
| "shutdown_effect ce options credentials reason (Wrote g _) \<longleftrightarrow> False"
| "shutdown_effect ce options credentials reason (Opened g env) \<longleftrightarrow> env = open_envelope ce options (Some credentials)"
| "shutdown_effect ce options credentials reason (Stdout _) \<longleftrightarrow> False"
| "shutdown_effect ce options credentials reason (StderrLine _) \<longleftrightarrow> False"
| "shutdown_effect ce options credentials reason _ \<longleftrightarrow> True"

text \<open>The effects on connection \<open>g\<close> while its confirmation is awaited.\<close>

fun waiting_effect :: "nat \<Rightarrow> connector_effect \<Rightarrow> bool" where
  "waiting_effect g (Received h _) \<longleftrightarrow> h = g"
| "waiting_effect g (Wrote h (Pong _)) \<longleftrightarrow> h = g"
| "waiting_effect g (PongFrame h _) \<longleftrightarrow> h = g"
| "waiting_effect g (Diagnostic _) \<longleftrightarrow> True"
| "waiting_effect g _ \<longleftrightarrow> False"

lemma shutdown_envelope_effects:
  assumes "shutdown_envelope g failed env = (es, r)"
  shows "list_all (shutdown_effect ce options credentials reason) es" and "r = None \<Longrightarrow> list_all (waiting_effect g) es"
proof -
  have "list_all (shutdown_effect ce options credentials reason) es \<and> (r = None \<longrightarrow> list_all (waiting_effect g) es)"
    using assms by (cases "(g, failed, env)" rule: shutdown_envelope.cases) (auto split: option.splits)
  then show "list_all (shutdown_effect ce options credentials reason) es" and "r = None \<Longrightarrow> list_all (waiting_effect g) es"
    by auto
qed

lemma shutdown_message_effects:
  assumes "shutdown_message ce g failed m = (es, r)"
  shows "list_all (shutdown_effect ce' options credentials reason) es" and "r = None \<Longrightarrow> list_all (waiting_effect g) es"
proof -
  have "list_all (shutdown_effect ce' options credentials reason) es \<and> (r = None \<longrightarrow> list_all (waiting_effect g) es)"
    using assms by (cases m) (auto dest: shutdown_envelope_effects split: option.splits sum.splits)
  then show "list_all (shutdown_effect ce' options credentials reason) es" and "r = None \<Longrightarrow> list_all (waiting_effect g) es"
    by auto
qed

lemma await_confirmation_effects:
  "await_confirmation ce g deadline rs = (es, r) \<Longrightarrow> list_all (shutdown_effect ce' options credentials reason) es"
proof (induction rs arbitrary: es r)
  case Nil
  then show ?case by simp
next
  case (Cons rd rs)
  show ?case
  proof (cases "deadline \<le> cr_now rd \<or> (\<forall>m failed. cr_answer rd \<noteq> ReadMessage m failed)")
    case True
    with Cons.prems show ?thesis by (cases "cr_answer rd") (auto split: if_splits)
  next
    case False
    then obtain m failed where m: "cr_answer rd = ReadMessage m failed" "\<not> deadline \<le> cr_now rd" by auto
    obtain es1 r1 where msg: "shutdown_message ce g failed m = (es1, r1)" by fastforce
    obtain es2 r2 where rec: "await_confirmation ce g deadline rs = (es2, r2)" by fastforce
    from Cons.prems m msg rec have "es = Received g m # es1 @ (case r1 of None \<Rightarrow> es2 | Some _ \<Rightarrow> [])"
      by (auto split: option.splits)
    then show ?thesis
      using shutdown_message_effects(1) [OF msg] Cons.IH [OF rec] by (simp split: option.splits)
  qed
qed

lemma request_shutdown_effects:
  assumes "request_shutdown ce reason deadline g r = (es, result)"
  shows "list_all (shutdown_effect ce' options credentials reason) es"
  using assms
  by (auto simp: request_shutdown_def dest: await_confirmation_effects split: send_answer.splits prod.splits if_splits)

fun round_effects :: "round_result \<Rightarrow> connector_effect list" where
  "round_effects (Connection es g) = es"
| "round_effects (NoConnection es after) = es"
| "round_effects (RoundFailed es e) = es"

lemma opened_allowed:
  "list_all (shutdown_effect ce options credentials reason)
     (opened arrived g (open_envelope ce options (Some credentials)))"
  by (simp add: opened_def)

lemma shutdown_connection_effects:
  "list_all (shutdown_effect ce options credentials reason)
     (round_effects (shutdown_connection ce options credentials deadline now socket r))"
proof (cases "\<exists>hk. socket = None \<and> sr_open r = OpenDone hk")
  case True
  then obtain hk where hk: "socket = None" "sr_open r = OpenDone hk" by blast
  obtain es answer where run: "open_socket ce options (Some credentials) (sr_socket r) hk = (es, answer)" by fastforce
  from open_socket_effects(1) [OF run] have "list_all (shutdown_effect ce options credentials reason) es" by auto
  with hk run show ?thesis by (cases answer) (simp_all add: shutdown_connection_def Let_def)
next
  case False
  then show ?thesis
    by (auto simp: shutdown_connection_def opened_allowed split: option.splits open_answer.splits)
qed

lemma shutdown_connection_opened:
  assumes "shutdown_connection ce options credentials deadline now socket r = Connection es g"
  shows "(socket = Some g \<and> es = []) \<or> (socket = None \<and> es = [Opened g (open_envelope ce options (Some credentials))])"
  using assms open_socket_effects(2) [of ce options "Some credentials" "sr_socket r"]
  by (fastforce simp: shutdown_connection_def Let_def split: option.splits open_answer.splits prod.splits sum.splits if_splits)

lemma graceful_shutdown_inner_effects:
  "graceful_shutdown_inner ce options credentials reason deadline delay earliest socket rounds = (es, result) \<Longrightarrow>
     list_all (shutdown_effect ce options credentials reason) es"
proof (induction rounds arbitrary: delay earliest socket es result)
  case Nil
  then show ?case by simp
next
  case (Cons r rs)
  let ?now = "max earliest (sr_now r)"
  note first = shutdown_connection_effects [of ce options credentials reason deadline ?now socket r]
  show ?case
  proof (cases "deadline \<le> ?now")
    case True
    with Cons.prems show ?thesis by (auto split: option.splits)
  next
    case False
    show ?thesis
    proof (cases "shutdown_connection ce options credentials deadline ?now socket r")
      case (Connection es0 g)
      obtain es1 answer where req: "request_shutdown ce reason deadline g r = (es1, answer)" by fastforce
      from request_shutdown_effects [OF req] first Connection
      have "list_all (shutdown_effect ce options credentials reason) (es0 @ es1)" by simp
      with Cons.prems False Connection req show ?thesis
        by (auto dest: Cons.IH split: option.splits read_result.splits prod.splits)
    next
      case (NoConnection es0 after)
      with Cons.prems False first show ?thesis by (auto dest: Cons.IH split: prod.splits)
    next
      case (RoundFailed es0 e)
      with Cons.prems False first show ?thesis by auto
    qed
  qed
qed

section \<open>Success\<close>

lemma shutdown_envelope_ok:
  "shutdown_envelope g failed env = (es, Some (Finished (Inr ()))) \<Longrightarrow>
     (\<exists>code signal. env = ShutdownComplete code signal) \<and> es = [CloseFrame g]"
  by (cases "(g, failed, env)" rule: shutdown_envelope.cases) (auto split: option.splits)

lemma shutdown_message_ok:
  assumes "shutdown_message ce g failed m = (es, Some (Finished (Inr ())))"
  shows "\<exists>body code signal. m = WsText body \<and>
    from_text (ce_serde ce) (ce_seq ce) body = Inr (ShutdownComplete code signal) \<and> es = [CloseFrame g]"
  using assms shutdown_envelope_ok by (cases m) (fastforce split: sum.splits option.splits)+

text \<open>The last message read on the connection is the confirmation, and the connection is then closed.\<close>

definition confirmed :: "client_env \<Rightarrow> nat \<Rightarrow> connector_effect list \<Rightarrow> bool" where
  "confirmed ce g es \<longleftrightarrow> (\<exists>es' body code signal.
     es = es' @ [Received g (WsText body), CloseFrame g] \<and> list_all (waiting_effect g) es' \<and>
     from_text (ce_serde ce) (ce_seq ce) body = Inr (ShutdownComplete code signal))"

lemma confirmed_later:
  assumes "confirmed ce g es" and "list_all (waiting_effect g) es1"
  shows "confirmed ce g (es1 @ es)"
  using assms by (metis (no_types, lifting) append.assoc confirmed_def list_all_append)

lemma await_confirmation_ok:
  "await_confirmation ce g deadline rs = (es, Some (Finished (Inr ()))) \<Longrightarrow> confirmed ce g es"
proof (induction rs arbitrary: es)
  case Nil
  then show ?case by simp
next
  case (Cons rd rs)
  from Cons.prems obtain m failed where m: "cr_answer rd = ReadMessage m failed" "cr_now rd < deadline"
    by (cases "cr_answer rd") (auto split: if_splits)
  obtain es1 r1 where msg: "shutdown_message ce g failed m = (es1, r1)" by fastforce
  show ?case
  proof (cases r1)
    case None
    with Cons.prems m msg obtain es2 where
      "await_confirmation ce g deadline rs = (es2, Some (Finished (Inr ())))" "es = (Received g m # es1) @ es2"
      by (auto split: prod.splits)
    moreover have "list_all (waiting_effect g) (Received g m # es1)"
      using shutdown_message_effects(2) [OF msg None] by simp
    ultimately show ?thesis using Cons.IH confirmed_later by blast
  next
    case (Some x)
    with Cons.prems m msg have "r1 = Some (Finished (Inr ()))" "es = Received g m # es1" by auto
    with shutdown_message_ok msg obtain body code signal where "es = [] @ [Received g (WsText body), CloseFrame g]"
      "from_text (ce_serde ce) (ce_seq ce) body = Inr (ShutdownComplete code signal)" by fastforce
    then show ?thesis
      unfolding confirmed_def by (intro exI [of _ "[]"] exI [of _ body] exI [of _ code] exI [of _ signal]) simp
  qed
qed

lemma request_shutdown_ok:
  assumes "request_shutdown ce reason deadline g r = (es, Some (Finished (Inr ())))"
  shows "\<exists>es'. es = Wrote g (Shutdown reason) # es' \<and> confirmed ce g es'"
  using assms by (auto simp: request_shutdown_def dest: await_confirmation_ok split: send_answer.splits prod.splits)

text \<open>
  A successful exchange ends with the request and its confirmation, on the connection it was given or on one it
  opened itself with the credentials.
\<close>

definition exchanged ::
    "client_env \<Rightarrow> connect_options \<Rightarrow> resume_credentials \<Rightarrow> shutdown_reason \<Rightarrow> nat option
      \<Rightarrow> connector_effect list \<Rightarrow> bool" where
  "exchanged ce options credentials reason socket es \<longleftrightarrow>
     (\<exists>g es1 es2. es = es1 @ Wrote g (Shutdown reason) # es2 \<and> confirmed ce g es2 \<and>
        ((socket = Some g \<and> es1 = []) \<or>
         (\<exists>es0. es1 = es0 @ [Opened g (open_envelope ce options (Some credentials))])))"

lemma exchanged_later:
  assumes "exchanged ce options credentials reason None es2"
  shows "exchanged ce options credentials reason socket (es1 @ es2)"
  using assms unfolding exchanged_def by (metis append.assoc option.distinct(1))

lemma graceful_shutdown_inner_ok:
  "graceful_shutdown_inner ce options credentials reason deadline delay earliest socket rounds = (es, Some (Inr ())) \<Longrightarrow>
     exchanged ce options credentials reason socket es"
proof (induction rounds arbitrary: delay earliest socket es)
  case Nil
  then show ?case by simp
next
  case (Cons r rs)
  let ?now = "max earliest (sr_now r)"
  let ?inner = "graceful_shutdown_inner ce options credentials reason deadline"
  from Cons.prems have "\<not> deadline \<le> ?now" by (auto split: if_splits)
  show ?case
  proof (cases "shutdown_connection ce options credentials deadline ?now socket r")
    case (Connection es0 g)
    obtain es1 answer where req: "request_shutdown ce reason deadline g r = (es1, answer)" by fastforce
    from Cons.prems Connection req \<open>\<not> deadline \<le> ?now\<close> consider
        "answer = Some (Finished (Inr ()))" "es = es0 @ es1"
      | es2 where "?inner delay ?now None rs = (es2, Some (Inr ()))" "es = (es0 @ es1) @ es2"
      by (auto split: option.splits read_result.splits prod.splits)
    then show ?thesis
    proof cases
      case 1
      with request_shutdown_ok req obtain es2 where "es = es0 @ Wrote g (Shutdown reason) # es2" "confirmed ce g es2"
        by blast
      with shutdown_connection_opened [OF Connection] show ?thesis
        unfolding exchanged_def by (metis append_Nil)
    next
      case 2
      then show ?thesis using Cons.IH exchanged_later by blast
    qed
  next
    case (NoConnection es0 after)
    with Cons.prems \<open>\<not> deadline \<le> ?now\<close> obtain es2 where "es = es0 @ es2"
      "?inner (min (2 * delay) 1000) (slept deadline delay after) None rs = (es2, Some (Inr ()))"
      by (auto split: prod.splits)
    then show ?thesis using Cons.IH exchanged_later by blast
  next
    case (RoundFailed es0 e)
    with Cons.prems \<open>\<not> deadline \<le> ?now\<close> show ?thesis by auto
  qed
qed

section \<open>Properties\<close>

text \<open>
  C22. A graceful shutdown succeeds only with a confirmation that answers its own request: on one connection, which is
  the one it was given or one it opened with the tunnel's credentials, the request with the given reason was written,
  then only messages of that connection were read and pings answered, the last one read is a
  \<open>shutdown_complete\<close>, and the connection was closed. Whatever the result, the exchange writes nothing but opening
  envelopes that resume this tunnel, the request and answers to pings, and nothing goes to standard
  output.
\<close>

theorem graceful_shutdown_confirmed:
  assumes "graceful_shutdown ce options credentials socket reason now rounds = (es, result)"
  shows "list_all (shutdown_effect ce options credentials reason) es \<and>
    (result = Inr () \<longrightarrow>
       (\<exists>g es1 es2 body code signal.
          es = es1 @ Wrote g (Shutdown reason) # es2 @ [Received g (WsText body), CloseFrame g] \<and>
          from_text (ce_serde ce) (ce_seq ce) body = Inr (ShutdownComplete code signal) \<and>
          list_all (waiting_effect g) es2 \<and>
          ((socket = Some g \<and> es1 = []) \<or>
           (\<exists>es0. es1 = es0 @ [Opened g (open_envelope ce options (Some credentials))]))))"
proof -
  obtain r where inner: "graceful_shutdown_inner ce options credentials reason (now + co_shutdown_timeout options) 100
      now socket rounds = (es, r)" and r: "result = Inr () \<Longrightarrow> r = Some (Inr ())"
    using assms by (auto simp: graceful_shutdown_def split: prod.splits option.splits)
  have "exchanged ce options credentials reason socket es" if "result = Inr ()"
    using inner r [OF that] graceful_shutdown_inner_ok by blast
  with graceful_shutdown_inner_effects [OF inner] show ?thesis
    unfolding exchanged_def confirmed_def by blast
qed

definition example_round :: shutdown_round where
  "example_round = \<lparr>sr_now = 0, sr_open = OpenElapsed False, sr_socket = 1, sr_after_open = 0, sr_send = SendOk,
     sr_reads = [\<lparr>cr_now = 0, cr_answer = ReadMessage (WsPing ''p'') None\<rparr>,
                 \<lparr>cr_now = 1, cr_answer = ReadMessage (WsText ''text'') None\<rparr>]\<rparr>"

theorem graceful_shutdown_confirmed_witness:
  "let ce = example_client_env (ShutdownComplete (Some 0) None);
       es = [Wrote 1 (Shutdown StdinEof), Received 1 (WsPing ''p''), PongFrame 1 ''p'',
             Received 1 (WsText ''text''), CloseFrame 1]
   in graceful_shutdown ce example_options \<lparr>connection_id = ''c1'', resume_token = ''r1''\<rparr> (Some 1) StdinEof 0
        [example_round] = (es, Inr ()) \<and>
      (\<exists>g es1 es2 body code signal.
          es = es1 @ Wrote g (Shutdown StdinEof) # es2 @ [Received g (WsText body), CloseFrame g] \<and>
          from_text (ce_serde ce) (ce_seq ce) body = Inr (ShutdownComplete code signal))"
proof -
  let ?ce = "example_client_env (ShutdownComplete (Some 0) None)"
  let ?es = "[Wrote 1 (Shutdown StdinEof), Received 1 (WsPing ''p''), PongFrame 1 ''p'',
    Received 1 (WsText ''text''), CloseFrame 1]"
  have run: "graceful_shutdown ?ce example_options \<lparr>connection_id = ''c1'', resume_token = ''r1''\<rparr> (Some 1) StdinEof 0
      [example_round] = (?es, Inr ())"
    by (simp add: graceful_shutdown_def example_round_def example_options_def shutdown_connection_def
      request_shutdown_def from_text_def example_client_env_def example_serde_def envelope_from_to_value i32_ok_def)
  from graceful_shutdown_confirmed [OF this] run show ?thesis unfolding Let_def by blast
qed

end
