(* ===== verification/Acp_Delivery.thy ===== *)
theory Acp_Delivery
  imports Acp_Session_End Acp_Client_Refine
begin

text \<open>
  A session and a connector together. The messages that the transport of a generation
  carries are the commands its channel accepted, in order; the messages of a connection
  of the connector are the ones it wrote. Each side reads the messages of one connection
  at a time and may lose the rest at any moment; the connections of the connector carry
  the generation numbers of the server. The connector's reconnection is one step: what
  it writes on the connections it tries is there from the start of the step, and the
  server may read it as soon as it has attached the transport.

  The two directions are two instances of the abstract link of \<open>Acp_Link\<close>; the result is
  that payloads arrive in order, exactly once and without a gap, whatever connections
  fail and wherever they fail.
\<close>

section \<open>The messages of a connection\<close>

definition server_messages :: "u64 \<Rightarrow> (u64 \<times> transport_command) list \<Rightarrow> envelope list" where
  "server_messages g cmds = map (\<lambda>x. command_envelope (snd x)) (filter (\<lambda>x. fst x = g) cmds)"

fun effect_message :: "nat \<Rightarrow> connector_effect \<Rightarrow> envelope option" where
  "effect_message g (Wrote h env) = (if h = g then Some env else None)"
| "effect_message g _ = None"

definition client_messages :: "nat \<Rightarrow> connector_effect list \<Rightarrow> envelope list" where
  "client_messages g es = List.map_filter (effect_message g) es"

definition frames :: "envelope list \<Rightarrow> (u64 \<times> string) list" where
  "frames msgs = List.map_filter env_frame msgs"

lemma server_messages_append [simp]:
  "server_messages g (xs @ ys) = server_messages g xs @ server_messages g ys"
  by (simp add: server_messages_def)

lemma client_messages_append [simp]:
  "client_messages g (xs @ ys) = client_messages g xs @ client_messages g ys"
  by (simp add: client_messages_def List.map_filter_def)

lemma frames_simps [simp]:
  "frames [] = []" "frames (xs @ ys) = frames xs @ frames ys"
  "frames (m # ms) = (case env_frame m of None \<Rightarrow> [] | Some f \<Rightarrow> [f]) @ frames ms"
  by (simp_all add: frames_def List.map_filter_def split: option.splits)

lemma frames_server_messages: "frames (server_messages g cmds) = acp_stream g cmds"
  by (induction cmds)
     (auto simp: server_messages_def acp_stream_def List.map_filter_def split: option.splits if_splits)

lemma frames_client_messages: "frames (client_messages g es) = written_stream g es"
proof (induction es)
  case Nil
  show ?case by (simp add: client_messages_def List.map_filter_def)
next
  case (Cons e es)
  have "frames (client_messages g (e # es)) = (case effect_frame g e of None \<Rightarrow> [] | Some f \<Rightarrow> [f]) @ frames (client_messages g es)"
    by (cases "(g, e)" rule: effect_frame.cases)
       (auto simp: client_messages_def List.map_filter_def split: option.splits)
  with Cons show ?case by simp
qed

text \<open>What is read stays read when messages are added.\<close>

lemma take_messages_append: "k \<le> length ms \<Longrightarrow> take k (ms @ ms') = take k ms"
  by simp

lemma frames_take_le: "length (frames (take k ms)) \<le> length (frames ms)"
proof -
  have "frames ms = frames (take k ms) @ frames (drop k ms)"
    by (metis append_take_drop_id frames_simps(2))
  then show ?thesis by simp
qed

lemma frames_nth:
  assumes "k < length ms" and "env_frame (ms ! k) = Some f"
  shows "length (frames (take k ms)) < length (frames ms)"
    and "frames ms ! length (frames (take k ms)) = f"
proof -
  have "ms = take k ms @ ms ! k # drop (Suc k) ms" using assms(1) by (rule id_take_nth_drop)
  then have "frames ms = frames (take k ms) @ f # frames (drop (Suc k) ms)"
    using assms(2) by (metis append_Cons append_Nil frames_simps(2,3) option.simps(5))
  then show "length (frames (take k ms)) < length (frames ms)"
    and "frames ms ! length (frames (take k ms)) = f" by simp_all
qed

lemma frames_take_Suc:
  "k < length ms \<Longrightarrow> frames (take (Suc k) ms) =
     frames (take k ms) @ (case env_frame (ms ! k) of None \<Rightarrow> [] | Some f \<Rightarrow> [f])"
  by (simp add: take_Suc_nth)

section \<open>Reading one message\<close>

definition receiver_of :: "nat \<times> string list \<Rightarrow> nat \<Rightarrow> nat \<Rightarrow> envelope list \<Rightarrow> receiver" where
  "receiver_of r g k ms =
     \<lparr>rc_expected = fst r, rc_delivered = snd r, rc_reading = g, rc_position = length (frames (take k ms))\<rparr>"

lemma receiver_of_append: "k \<le> length ms \<Longrightarrow> receiver_of r g k (ms @ ms') = receiver_of r g k ms"
  by (simp add: receiver_of_def)

lemma link_inv_read:
  assumes inv: "link_inv (sd, receiver_of r g k ms)" and k: "k < length ms"
    and ms: "frames ms = sd_logs sd g"
  shows "in_order (ms ! k) (fst r)"
    and "link_inv (sd, receiver_of (receives (ms ! k) r) g (Suc k) ms)"
proof -
  let ?rc = "receiver_of r g k ms"
  have "in_order (ms ! k) (fst r) \<and> link_inv (sd, receiver_of (receives (ms ! k) r) g (Suc k) ms)"
  proof (cases "env_frame (ms ! k)")
    case None
    then have "receives (ms ! k) r = r" "in_order (ms ! k) (fst r)"
      by (cases "(ms ! k)" rule: env_frame.cases; cases r; simp)+
    moreover have "frames (take (Suc k) ms) = frames (take k ms)"
      using None k by (simp add: frames_take_Suc)
    ultimately show ?thesis using inv by (simp add: receiver_of_def)
  next
    case (Some f)
    obtain n p where f: "f = (n, p)" by (cases f)
    with Some have m: "ms ! k = Acp (Some n) p"
      by (cases "(ms ! k)" rule: env_frame.cases) auto
    note nth = frames_nth [OF k Some]
    have pos: "rc_position ?rc < length (sd_logs sd (rc_reading ?rc))"
      using nth(1) ms by (simp add: receiver_of_def)
    have frame: "sd_logs sd (rc_reading ?rc) ! rc_position ?rc = (n, p)"
      using nth(2) ms f by (simp add: receiver_of_def)
    obtain l' where l': "link_do Read (sd, ?rc) = Some l'" using link_no_gap [OF inv pos] by blast
    then have "n \<le> fst r" using pos frame by (auto simp: receiver_of_def split: if_splits)
    moreover have "l' = (sd, receiver_of (receives (ms ! k) r) g (Suc k) ms)"
      using l' pos frame \<open>n \<le> fst r\<close> Some f k m
      by (cases r) (auto simp: receiver_of_def frames_take_Suc split: if_splits)
    ultimately show ?thesis using link_do_inv [OF inv l'] m by simp
  qed
  then show "in_order (ms ! k) (fst r)"
    and "link_inv (sd, receiver_of (receives (ms ! k) r) g (Suc k) ms)" by auto
qed

section \<open>The system\<close>

record tunnel_system =
  ts_session :: session
  ts_connector :: connector
  ts_server_read :: nat   \<comment> \<open>how many messages of the current transport the session has handled\<close>
  ts_client_read :: nat   \<comment> \<open>how many messages of the current connection the connector has read\<close>

definition to_connector :: "tunnel_system \<Rightarrow> envelope list" where
  "to_connector t = server_messages (cn_socket (ts_connector t)) (commands (ts_session t))"

definition to_session :: "tunnel_system \<Rightarrow> envelope list" where
  "to_session t = client_messages (generation (ts_session t)) (cn_effects (ts_connector t))"

definition next_message :: "nat \<Rightarrow> envelope list \<Rightarrow> envelope option" where
  "next_message k ms = (if k < length ms then Some (ms ! k) else None)"

fun is_ready :: "envelope \<Rightarrow> bool" where
  "is_ready (Ready _ _ _ _) = True"
| "is_ready _ = False"

text \<open>
  The session takes one turn of its loop; an envelope it handles is the next message of
  its transport. The connector takes one step of its loop; an envelope it handles is the
  next message of its connection. The first message of a connection, ready, is the one
  the opening handshake has read.
\<close>

inductive tunnel_step ::
    "session_context \<Rightarrow> connector_context \<Rightarrow> tunnel_system \<Rightarrow> tunnel_system \<Rightarrow> bool"
  for cx cc where
  session_turn:
    "tunnel_step cx cc t
       (t\<lparr>ts_session := s',
          ts_server_read := (if generation s' \<noteq> generation (ts_session t) then 0
             else if handled_envelope cx io event (ts_session t) \<noteq> None \<and> end_category s' = None
             then Suc (ts_server_read t) else ts_server_read t)\<rparr>)"
  if "end_category (ts_session t) = None" and "event_ok (cx_config cx) event"
    and "iteration cx io event (ts_session t) = Some (Inr s')"
    and "handled_envelope cx io event (ts_session t) \<in> {None, next_message (ts_server_read t) (to_session t)}"
| connector_turn:
    "tunnel_step cx cc t
       (t\<lparr>ts_connector := c',
          ts_client_read := (if cn_socket c' \<noteq> cn_socket (ts_connector t) then 0
             else if server_event (cc_env cc) event \<noteq> None then Suc (ts_client_read t)
             else ts_client_read t)\<rparr>)"
  if "step_fresh io (ts_connector t)" and "connector_enabled cc io event (ts_connector t)"
    and "connector_step cc io event (ts_connector t) = Continue c'"
    and "server_event (cc_env cc) event \<in> {None, next_message (ts_client_read t) (to_connector t)}"
| handshake:
    "tunnel_step cx cc t (t\<lparr>ts_client_read := 1\<rparr>)"
  if "ts_client_read t = 0" and "next_message 0 (to_connector t) = Some env" and "is_ready env"

inductive tunnel_reach ::
    "session_context \<Rightarrow> connector_context \<Rightarrow> tunnel_system \<Rightarrow> tunnel_system \<Rightarrow> bool"
  for cx cc t0 where
  reach_start: "tunnel_reach cx cc t0 t0"
| reach_step: "tunnel_reach cx cc t0 t \<Longrightarrow> tunnel_step cx cc t t' \<Longrightarrow> tunnel_reach cx cc t0 t'"

text \<open>A session and a connector that have just opened their first connection.\<close>

definition tunnel_start ::
    "session_context \<Rightarrow> session_io \<Rightarrow> agent_process \<Rightarrow> nat \<Rightarrow> tunnel_system \<Rightarrow> bool" where
  "tunnel_start cx io process now t \<longleftrightarrow>
     start_session cx io process = Inr (ts_session t) \<and> ts_connector t = initial_connector now 1 \<and>
     ts_server_read t = 0 \<and> ts_client_read t = 1"

section \<open>The invariant\<close>

definition down_link :: "tunnel_system \<Rightarrow> sender \<times> receiver" where
  "down_link t =
     (server_sender (ts_session t),
      receiver_of (received (ts_connector t)) (cn_socket (ts_connector t)) (ts_client_read t) (to_connector t))"

definition up_link :: "tunnel_system \<Rightarrow> sender \<times> receiver" where
  "up_link t =
     (client_sender (ts_connector t),
      receiver_of (taken (ts_session t)) (generation (ts_session t)) (ts_server_read t) (to_session t))"

definition tunnel_inv :: "session_context \<Rightarrow> connector_context \<Rightarrow> tunnel_system \<Rightarrow> bool" where
  "tunnel_inv cx cc t \<longleftrightarrow>
     session_inv cx (ts_session t) \<and> connector_inv (cc_options cc) (ts_connector t) \<and>
     ts_server_read t \<le> length (to_session t) \<and> ts_client_read t \<le> length (to_connector t) \<and>
     link_inv (down_link t) \<and> link_inv (up_link t)"

text \<open>The acknowledgements under way are of payloads that were taken.\<close>

lemma server_ack_below:
  assumes "session_inv cx s" and "Ack ClientToServer q \<in> set (server_messages g (commands s))"
  shows "q < expected_client_sequence s"
  using assms
  by (auto simp: session_inv_def client_inv_def server_messages_def acks_below_def list_all_iff ack_below_def)

lemma client_ack_below:
  assumes "connector_inv options c" and "Ack ServerToClient q \<in> set (client_messages g (cn_effects c))"
  shows "q < cn_expected c"
proof -
  from assms(2) have "Wrote g (Ack ServerToClient q) \<in> set (cn_effects c)"
    by (auto simp: client_messages_def List.map_filter_def elim!: effect_message.elims split: if_splits)
  with assms(1) show ?thesis
    by (auto simp: connector_inv_def effects_below_def list_all_iff)
qed

lemma next_message_mem: "next_message k ms = Some env \<Longrightarrow> env \<in> set ms \<and> k < length ms \<and> ms ! k = env"
  by (auto simp: next_message_def split: if_splits)

lemma logs_down: "frames (to_connector t) = sd_logs (server_sender (ts_session t)) (cn_socket (ts_connector t))"
  by (simp add: to_connector_def frames_server_messages server_sender_def)

lemma logs_up: "frames (to_session t) = sd_logs (client_sender (ts_connector t)) (generation (ts_session t))"
  by (simp add: to_session_def frames_client_messages client_sender_def)

lemma receiver_of_switch: "link_inv (sd, receiver_of r g k ms) \<Longrightarrow> link_inv (sd, receiver_of r h 0 ms')"
  using link_inv_Switch [of sd "receiver_of r g k ms" h] by (simp add: receiver_of_def)

lemma receiver_of_back:
  assumes "link_inv (sd, receiver_of r g (Suc k) ms)"
  shows "link_inv (sd, receiver_of r g k ms)"
proof -
  have "length (frames (take k ms)) \<le> rc_position (receiver_of r g (Suc k) ms)"
    using frames_take_le [of k "take (Suc k) ms"] by (simp add: receiver_of_def min_def)
  from link_inv_back [OF assms this] show ?thesis by (simp add: receiver_of_def)
qed

lemma session_turn_down:
  assumes inv: "tunnel_inv cx cc t" and turn: "turn_to cx (acks_of handled) (ts_session t) s'"
    and handled: "handled \<in> {None, next_message (ts_server_read t) (to_session t)}"
  shows "ts_client_read t \<le> length (to_connector (t\<lparr>ts_session := s', ts_server_read := k\<rparr>))"
    and "link_inv (down_link (t\<lparr>ts_session := s', ts_server_read := k\<rparr>))"
proof -
  let ?s = "ts_session t" and ?c = "ts_connector t" and ?t = "t\<lparr>ts_session := s', ts_server_read := k\<rparr>"
  let ?rc = "receiver_of (received ?c) (cn_socket ?c) (ts_client_read t) (to_connector t)"
  from turn obtain acts cs where acts: "acks_in (acks_of handled) acts"
    "sender_run acts (server_sender ?s) = Some (server_sender s')" and cs: "commands s' = commands ?s @ cs"
    by (auto simp: turn_to_def refines_by_def)
  have read: "ts_client_read t \<le> length (to_connector t)" using inv by (simp add: tunnel_inv_def)
  have ms: "to_connector ?t = to_connector t @ server_messages (cn_socket ?c) cs"
    by (simp add: to_connector_def cs)
  with read show "ts_client_read t \<le> length (to_connector ?t)" by simp
  have "q < cn_expected ?c" if q: "q \<in> acks_of handled" for q
  proof -
    from q handled obtain env where "handled = Some env" "env \<in> set (to_session t)" "q \<in> acked_by env"
      by (cases handled) (auto simp: acks_of_def dest: next_message_mem [OF sym])
    moreover from this(3) have "env = Ack ServerToClient q" by (cases env rule: acked_by.cases) auto
    ultimately show ?thesis
      using inv client_ack_below [of "cc_options cc" ?c q "generation ?s"]
      by (simp add: tunnel_inv_def to_session_def)
  qed
  then have "q < rc_expected ?rc" if "q \<in> acks_of handled" for q
    using that by (simp add: receiver_of_def received_def)
  then have "link_inv (server_sender s', ?rc)"
    using inv link_inv_run [OF _ acts(2,1)] by (auto simp: tunnel_inv_def down_link_def)
  then show "link_inv (down_link ?t)"
    using read by (simp add: down_link_def ms receiver_of_append)
qed

lemma session_turn_up:
  assumes inv: "tunnel_inv cx cc t" and it: "iteration cx io event (ts_session t) = Some (Inr s')"
    and handled: "handled_envelope cx io event (ts_session t) \<in> {None, next_message (ts_server_read t) (to_session t)}"
    and t': "t' = t\<lparr>ts_session := s',
      ts_server_read := (if generation s' \<noteq> generation (ts_session t) then 0
        else if handled_envelope cx io event (ts_session t) \<noteq> None \<and> end_category s' = None
        then Suc (ts_server_read t) else ts_server_read t)\<rparr>"
  shows "ts_server_read t' \<le> length (to_session t')" and "link_inv (up_link t')"
proof -
  let ?s = "ts_session t" and ?k = "ts_server_read t" and ?sd = "client_sender (ts_connector t)"
  let ?h = "handled_envelope cx io event ?s"
  have read: "?k \<le> length (to_session t)" and link: "link_inv (?sd, receiver_of (taken ?s) (generation ?s) ?k (to_session t))"
    using inv by (simp_all add: tunnel_inv_def up_link_def)
  have "ts_server_read t' \<le> length (to_session t') \<and> link_inv (up_link t')"
  proof (cases ?h)
    case None
    with iteration_taken [OF it] have "taken s' = taken ?s" by simp
    with None read link show ?thesis
      by (auto simp: t' up_link_def to_session_def intro: receiver_of_switch)
  next
    case (Some env)
    with handled have "next_message ?k (to_session t) = Some env" by simp
    then have k: "?k < length (to_session t)" and env: "to_session t ! ?k = env"
      by (auto dest: next_message_mem)
    have gen: "generation s' = generation ?s" using handled_generation [OF it Some] by simp
    note next_link = link_inv_read(2) [OF link k logs_up, unfolded env]
    from iteration_taken [OF it] Some
    have "taken s' = receives env (taken ?s) \<or> taken s' = taken ?s \<and> end_category s' \<noteq> None" by auto
    then have "link_inv (?sd, receiver_of (taken s') (generation ?s) (ts_server_read t') (to_session t))"
      using next_link receiver_of_back [OF next_link] link by (auto simp: t' gen Some)
    then show ?thesis
      using k Some by (auto simp: up_link_def to_session_def gen t' split: if_splits)
  qed
  then show "ts_server_read t' \<le> length (to_session t')" and "link_inv (up_link t')" by auto
qed

lemma connector_turn_up:
  assumes inv: "tunnel_inv cx cc t" and turn: "client_turn (cc_options cc) (event_acked (cc_env cc) event) (ts_connector t) c'"
    and event: "server_event (cc_env cc) event \<in> {None, next_message (ts_client_read t) (to_connector t)}"
  shows "ts_server_read t \<le> length (to_session (t\<lparr>ts_connector := c', ts_client_read := k\<rparr>))"
    and "link_inv (up_link (t\<lparr>ts_connector := c', ts_client_read := k\<rparr>))"
proof -
  let ?s = "ts_session t" and ?c = "ts_connector t" and ?t = "t\<lparr>ts_connector := c', ts_client_read := k\<rparr>"
  let ?rc = "receiver_of (taken ?s) (generation ?s) (ts_server_read t) (to_session t)"
  let ?A = "event_acked (cc_env cc) event"
  from turn obtain acts es where acts: "acks_in ?A acts" "sender_run acts (client_sender ?c) = Some (client_sender c')"
    and es: "cn_effects c' = cn_effects ?c @ es" by (auto simp: client_turn_def)
  have read: "ts_server_read t \<le> length (to_session t)" using inv by (simp add: tunnel_inv_def)
  have ms: "to_session ?t = to_session t @ client_messages (generation ?s) es"
    by (simp add: to_session_def es)
  with read show "ts_server_read t \<le> length (to_session ?t)" by simp
  have "q < expected_client_sequence ?s" if q: "q \<in> ?A" for q
  proof -
    from q event obtain env where "env \<in> set (to_connector t)" "q \<in> acked_by_server env"
      by (auto simp: event_acked_def split: option.splits dest: next_message_mem [OF sym])
    moreover from this(2) have "env = Ack ClientToServer q" by (cases env rule: acked_by_server.cases) auto
    ultimately show ?thesis
      using inv server_ack_below [of cx ?s q "cn_socket ?c"] by (simp add: tunnel_inv_def to_connector_def)
  qed
  then have "q < rc_expected ?rc" if "q \<in> ?A" for q
    using that by (simp add: receiver_of_def taken_def)
  then have "link_inv (client_sender c', ?rc)"
    using inv link_inv_run [OF _ acts(2,1)] by (auto simp: tunnel_inv_def up_link_def)
  then show "link_inv (up_link ?t)"
    using read by (simp add: up_link_def ms receiver_of_append)
qed

lemma connector_turn_down:
  assumes inv: "tunnel_inv cx cc t"
    and recv: "received c' = (case server_event (cc_env cc) event of
      None \<Rightarrow> received (ts_connector t) | Some env \<Rightarrow> receives env (received (ts_connector t)))"
    and event: "server_event (cc_env cc) event \<in> {None, next_message (ts_client_read t) (to_connector t)}"
    and t': "t' = t\<lparr>ts_connector := c',
      ts_client_read := (if cn_socket c' \<noteq> cn_socket (ts_connector t) then 0
        else if server_event (cc_env cc) event \<noteq> None then Suc (ts_client_read t) else ts_client_read t)\<rparr>"
  shows "ts_client_read t' \<le> length (to_connector t')" and "link_inv (down_link t')"
proof -
  let ?c = "ts_connector t" and ?k = "ts_client_read t" and ?sd = "server_sender (ts_session t)"
  let ?g = "cn_socket ?c" and ?k' = "if server_event (cc_env cc) event \<noteq> None then Suc (ts_client_read t) else ts_client_read t"
  have read: "?k \<le> length (to_connector t)" and link: "link_inv (?sd, receiver_of (received ?c) ?g ?k (to_connector t))"
    using inv by (simp_all add: tunnel_inv_def down_link_def)
  have "?k' \<le> length (to_connector t) \<and> link_inv (?sd, receiver_of (received c') ?g ?k' (to_connector t))"
  proof (cases "server_event (cc_env cc) event")
    case None
    with recv read link show ?thesis by simp
  next
    case (Some env)
    with event have "next_message ?k (to_connector t) = Some env" by simp
    then have k: "?k < length (to_connector t)" and env: "to_connector t ! ?k = env"
      by (auto dest: next_message_mem)
    from link_inv_read(2) [OF link k logs_down] env recv Some k show ?thesis by simp
  qed
  then have "ts_client_read t' \<le> length (to_connector t') \<and> link_inv (down_link t')"
    by (auto simp: t' down_link_def to_connector_def intro: receiver_of_switch)
  then show "ts_client_read t' \<le> length (to_connector t')" and "link_inv (down_link t')" by auto
qed

lemma tunnel_step_inv:
  assumes "tunnel_step cx cc t t'" and inv: "tunnel_inv cx cc t"
    and limits: "replay_limits (cx_config cx)" "client_limits (cc_options cc)"
  shows "tunnel_inv cx cc t'"
  using assms(1)
proof cases
  case (session_turn event io s')
  have "session_inv cx (ts_session t)" using inv by (simp add: tunnel_inv_def)
  note turn = iteration_turn [OF this session_turn(4) session_turn(3) limits(1)]
  note down = session_turn_down [OF inv turn session_turn(5)]
  note up = session_turn_up [OF inv session_turn(4,5,1)]
  show ?thesis
    using inv down [of "ts_server_read t'"] up turn_to_inv [OF turn]
    by (simp add: tunnel_inv_def session_turn(1) cong: if_cong)
next
  case (connector_turn io event c')
  have "connector_inv (cc_options cc) (ts_connector t)" using inv by (simp add: tunnel_inv_def)
  note step = connector_step_turn [OF connector_turn(4) this connector_turn(2,3) limits(2)]
  note up = connector_turn_up [OF inv conjunct1 [OF step] connector_turn(5)]
  note down = connector_turn_down [OF inv conjunct1 [OF conjunct2 [OF step]] connector_turn(5,1)]
  show ?thesis
    using inv up [of "ts_client_read t'"] down step
    by (simp add: tunnel_inv_def client_turn_def connector_turn(1) cong: if_cong)
next
  case (handshake env)
  from handshake(3) have first: "to_connector t \<noteq> []" "to_connector t ! 0 = env"
    by (auto dest: next_message_mem)
  from handshake(4) have "env_frame env = None" by (cases env) auto
  with first have "frames (take 1 (to_connector t)) = []"
    by (cases "to_connector t") auto
  moreover have "to_connector t' = to_connector t" "to_session t' = to_session t"
    by (simp_all add: handshake(1) to_connector_def to_session_def)
  ultimately show ?thesis
    using inv first handshake(2)
    by (cases "to_connector t")
       (auto simp: tunnel_inv_def down_link_def up_link_def receiver_of_def handshake(1))
qed

lemma tunnel_start_inv:
  assumes "tunnel_start cx io process now t"
  shows "tunnel_inv cx cc t"
proof -
  let ?s = "ts_session t"
  from assms have s: "start_session cx io process = Inr ?s"
    and c: "ts_connector t = initial_connector now 1" and k: "ts_server_read t = 0" "ts_client_read t = 1"
    by (simp_all add: tunnel_start_def)
  note inv = start_session_inv [OF s]
  have init: "link_inv (\<lparr>sd_payloads = [], sd_first = 1, sd_conn = Some 1, sd_sent = 1, sd_logs = (\<lambda>_. [])\<rparr>,
      \<lparr>rc_expected = 1, rc_delivered = [], rc_reading = 1, rc_position = 0\<rparr>)"
    by (rule link_invI) (auto simp: log_ok_def intro: exI [of _ 1])
  have start: "taken ?s = (1, [])" "generation ?s = 1" "to_connector t \<noteq> []"
    and silent: "frames (take 1 (to_connector t)) = []"
    using start_session_ready [OF s] by (auto simp: taken_def to_connector_def server_messages_def c initial_connector_def)
  have "down_link t = (\<lparr>sd_payloads = [], sd_first = 1, sd_conn = Some 1, sd_sent = 1, sd_logs = (\<lambda>_. [])\<rparr>,
      \<lparr>rc_expected = 1, rc_delivered = [], rc_reading = 1, rc_position = 0\<rparr>)"
    using silent by (simp add: down_link_def inv(2) receiver_of_def received_def c k)
       (simp add: initial_connector_def)
  moreover have "up_link t = (\<lparr>sd_payloads = [], sd_first = 1, sd_conn = Some 1, sd_sent = 1, sd_logs = (\<lambda>_. [])\<rparr>,
      \<lparr>rc_expected = 1, rc_delivered = [], rc_reading = 1, rc_position = 0\<rparr>)"
    by (simp add: up_link_def initial_connector_inv c k receiver_of_def start)
  moreover have "1 \<le> length (to_connector t)" using start(3) by (cases "to_connector t") auto
  ultimately show ?thesis
    using inv(1) init initial_connector_inv(1) [of "cc_options cc" now 1]
    by (simp add: tunnel_inv_def c k)
qed

lemma tunnel_reach_inv:
  assumes "tunnel_reach cx cc t0 t" and "tunnel_inv cx cc t0"
    and "replay_limits (cx_config cx)" "client_limits (cc_options cc)"
  shows "tunnel_inv cx cc t"
  using assms by (induction rule: tunnel_reach.induct) (auto intro: tunnel_step_inv)

text \<open>What the invariant says of the two streams.\<close>

lemma down_link_facts:
  assumes "tunnel_inv cx cc t"
  shows "stdout_lines (cn_effects (ts_connector t)) = take (cn_expected (ts_connector t) - 1) (queued (ts_session t))"
    and "first_retained (ts_session t) \<le> cn_expected (ts_connector t)"
    and "cn_expected (ts_connector t) \<le> Suc (length (queued (ts_session t)))"
  using assms
  by (auto simp: tunnel_inv_def down_link_def link_inv_def receiver_of_def received_def server_sender_def)

lemma up_link_facts:
  assumes "tunnel_inv cx cc t"
  shows "consumed (ts_session t) = take (expected_client_sequence (ts_session t) - 1) (cn_lines (ts_connector t))"
    and "first_pending (ts_connector t) \<le> expected_client_sequence (ts_session t)"
    and "expected_client_sequence (ts_session t) \<le> Suc (length (cn_lines (ts_connector t)))"
  using assms
  by (auto simp: tunnel_inv_def up_link_def link_inv_def receiver_of_def taken_def client_sender_def)

text \<open>A reader that has read all of the current connection of its peer has everything.\<close>

lemma link_complete:
  assumes inv: "link_inv (sd, receiver_of r g k ms)" and conn: "sd_conn sd = Some g"
    and sent: "sd_sent sd = Suc (length (sd_payloads sd))" and ms: "frames ms = sd_logs sd g" and k: "k = length ms"
  shows "snd r = sd_payloads sd"
proof -
  from inv obtain a where "log_ok sd (receiver_of r g k ms) g a" by (auto simp: link_inv_def)
  then have "Suc (length (sd_payloads sd)) \<le> fst r"
    using conn sent ms k by (simp add: log_ok_def receiver_of_def)
  then show ?thesis using inv by (simp add: link_inv_def receiver_of_def)
qed

lemma numbered_payloads: "1 \<le> a \<Longrightarrow> map snd (numbered ps a (Suc (length ps))) = drop (a - 1) ps"
  by (rule nth_equalityI) (auto simp: numbered_def payload_at_def simp del: upt_Suc)

lemma retained_suffix:
  assumes "retains ps first (map view fs) b n" and "first \<le> m" and "m \<le> Suc (length ps)"
  shows "drop (m - 1) ps = map (snd \<circ> view) (drop (m - first) fs)"
proof -
  have "map (snd \<circ> view) fs = map snd (map view fs)" by simp
  also have "\<dots> = drop (first - 1) ps"
    using assms(1) numbered_payloads [of first ps] by (simp add: retains_def del: map_map)
  finally have "map (snd \<circ> view) (drop (m - first) fs) = drop (m - first) (drop (first - 1) ps)"
    by (simp only: drop_map [symmetric])
  moreover have "m - first + (first - 1) = m - 1" using assms(1,2) by (auto simp: retains_def)
  ultimately show ?thesis by (simp add: add.commute)
qed

section \<open>Runs\<close>

text \<open>The steps as a function of the moves, for concrete runs.\<close>

datatype move = SessionMove session_io select_event | ConnectorMove connector_io connector_event | HandshakeMove

definition session_move ::
    "session_context \<Rightarrow> session_io \<Rightarrow> select_event \<Rightarrow> tunnel_system \<Rightarrow> tunnel_system option" where
  "session_move cx io event t =
     (let s = ts_session t; handled = handled_envelope cx io event s
      in if end_category s = None \<and> event_ok (cx_config cx) event \<and>
            handled \<in> {None, next_message (ts_server_read t) (to_session t)}
         then (case iteration cx io event s of
                 Some (Inr s') \<Rightarrow>
                   Some (t\<lparr>ts_session := s',
                           ts_server_read := (if generation s' \<noteq> generation s then 0
                             else if handled \<noteq> None \<and> end_category s' = None
                             then Suc (ts_server_read t) else ts_server_read t)\<rparr>)
               | _ \<Rightarrow> None)
         else None)"

definition connector_move ::
    "connector_context \<Rightarrow> connector_io \<Rightarrow> connector_event \<Rightarrow> tunnel_system \<Rightarrow> tunnel_system option" where
  "connector_move cc io event t =
     (let c = ts_connector t; env = server_event (cc_env cc) event
      in if step_fresh io c \<and> connector_enabled cc io event c \<and>
            env \<in> {None, next_message (ts_client_read t) (to_connector t)}
         then (case connector_step cc io event c of
                 Continue c' \<Rightarrow>
                   Some (t\<lparr>ts_connector := c',
                           ts_client_read := (if cn_socket c' \<noteq> cn_socket c then 0
                             else if env \<noteq> None then Suc (ts_client_read t) else ts_client_read t)\<rparr>)
               | _ \<Rightarrow> None)
         else None)"

fun tunnel_move :: "session_context \<Rightarrow> connector_context \<Rightarrow> move \<Rightarrow> tunnel_system \<Rightarrow> tunnel_system option" where
  "tunnel_move cx cc (SessionMove io event) t = session_move cx io event t"
| "tunnel_move cx cc (ConnectorMove io event) t = connector_move cc io event t"
| "tunnel_move cx cc HandshakeMove t =
     (case next_message 0 (to_connector t) of
        Some env \<Rightarrow> if ts_client_read t = 0 \<and> is_ready env then Some (t\<lparr>ts_client_read := 1\<rparr>) else None
      | None \<Rightarrow> None)"

fun tunnel_run :: "session_context \<Rightarrow> connector_context \<Rightarrow> move list \<Rightarrow> tunnel_system \<Rightarrow> tunnel_system option" where
  "tunnel_run cx cc [] t = Some t"
| "tunnel_run cx cc (m # ms) t = (case tunnel_move cx cc m t of None \<Rightarrow> None | Some t' \<Rightarrow> tunnel_run cx cc ms t')"

lemma session_move_step:
  assumes "session_move cx io event t = Some t'"
  shows "tunnel_step cx cc t t'"
proof -
  let ?h = "handled_envelope cx io event (ts_session t)"
  from assms have guards: "end_category (ts_session t) = None" "event_ok (cx_config cx) event"
    "?h \<in> {None, next_message (ts_server_read t) (to_session t)}"
    unfolding session_move_def Let_def by (auto split: if_splits)
  from assms obtain s' where it: "iteration cx io event (ts_session t) = Some (Inr s')"
    and t': "t' = t\<lparr>ts_session := s',
      ts_server_read := (if generation s' \<noteq> generation (ts_session t) then 0
        else if ?h \<noteq> None \<and> end_category s' = None
        then Suc (ts_server_read t) else ts_server_read t)\<rparr>"
    unfolding session_move_def Let_def by (auto split: if_splits option.splits sum.splits)
  show ?thesis unfolding t' using guards(1,2) it guards(3) by (rule session_turn)
qed

lemma connector_move_step:
  assumes "connector_move cc io event t = Some t'"
  shows "tunnel_step cx cc t t'"
proof -
  let ?e = "server_event (cc_env cc) event"
  from assms have guards: "step_fresh io (ts_connector t)" "connector_enabled cc io event (ts_connector t)"
    "?e \<in> {None, next_message (ts_client_read t) (to_connector t)}"
    unfolding connector_move_def Let_def by (auto split: if_splits)
  from assms obtain c' where it: "connector_step cc io event (ts_connector t) = Continue c'"
    and t': "t' = t\<lparr>ts_connector := c',
      ts_client_read := (if cn_socket c' \<noteq> cn_socket (ts_connector t) then 0
        else if ?e \<noteq> None then Suc (ts_client_read t) else ts_client_read t)\<rparr>"
    unfolding connector_move_def Let_def by (auto split: if_splits step_result.splits)
  show ?thesis unfolding t' using guards(1,2) it guards(3) by (rule connector_turn)
qed

lemma tunnel_move_step: "tunnel_move cx cc m t = Some t' \<Longrightarrow> tunnel_step cx cc t t'"
  by (cases m)
     (auto intro: session_move_step connector_move_step handshake [unfolded One_nat_def]
       split: option.splits if_splits)

lemma tunnel_run_reach: "tunnel_run cx cc ms t = Some t' \<Longrightarrow> tunnel_reach cx cc t0 t \<Longrightarrow> tunnel_reach cx cc t0 t'"
  by (induction ms arbitrary: t) (auto split: option.splits dest: tunnel_move_step intro: reach_step)

section \<open>A concrete run\<close>

definition example_cc :: connector_context where
  "example_cc = example_connector (Acp (Some 1) ''hi'')"

definition example_start :: tunnel_system where
  "example_start = \<lparr>ts_session = example_session, ts_connector = initial_connector 0 1, ts_server_read = 0, ts_client_read = 1\<rparr>"

definition from_transport :: "envelope \<Rightarrow> select_event" where
  "from_transport env = TransportRecv (Some \<lparr>te_generation = 1, te_kind = EvEnvelope env\<rparr>)"

text \<open>A line of the agent goes to the connector, and a line of the connector to the agent.\<close>

definition example_moves :: "move list" where
  "example_moves =
     [SessionMove example_io (AgentRecv (Some (AgentAcp ''hi''))),
      SessionMove example_io (DiagnosticRecv None),
      ConnectorMove example_kio (SocketMessage (WsText ''text'')),
      ConnectorMove example_kio (StdinLine ''yo''),
      SessionMove example_io (from_transport (Ack ServerToClient 1)),
      SessionMove example_io (from_transport (Acp (Some 1) ''yo''))]"

lemma example_tunnel_start: "tunnel_start example_cx example_io example_process 0 example_start"
  by (simp add: tunnel_start_def example_started example_start_def)

lemma example_client_limits: "client_limits (cc_options example_cc)"
  by (simp add: example_cc_def example_connector_limits)

lemmas connector_example_defs =
  example_cc_def example_connector_def example_client_env_def example_kio_def example_options_def

lemmas connector_defs =
  connector_move_def step_fresh_def can_read_stdin_def from_text_def server_frame_def acknowledge_def
  send_or_reconnect_def emit_def wrote_def stdin_line_def push_line_def

lemmas run_defs =
  example_moves_def example_start_def example_session_def initial_session_def initial_connector_def
  session_move_def handled_envelope_def session_defs connector_defs example_defs connector_example_defs Let_def next_message_def to_connector_def to_session_def server_messages_def
  client_messages_def List.map_filter_def from_transport_def envelope_from_to_value numeral_2_eq_2
  numeral_3_eq_3

lemma example_run:
  "map_option (\<lambda>t. (stdout_lines (cn_effects (ts_connector t)), agent_stdin (ts_session t)))
     (tunnel_run example_cx example_cc example_moves example_start) = Some ([''hi''], [''yo''])"
  by (simp add: run_defs)

text \<open>The same run, stopped when the line of the agent is on its way, and when it has arrived.\<close>

lemma example_run_sent:
  "map_option (\<lambda>t. (next_message (ts_client_read t) (to_connector t), queued (ts_session t),
       cn_expected (ts_connector t)))
     (tunnel_run example_cx example_cc (take 2 example_moves) example_start)
   = Some (Some (Acp (Some 1) ''hi''), [''hi''], 1)"
  by (simp add: run_defs)

lemma example_run_quiet:
  "map_option (\<lambda>t. (transport (ts_session t), cn_socket (ts_connector t), ts_client_read t,
       length (to_connector t), queued (ts_session t), map rf_last_sent_generation (pending (ts_session t)),
       generation (ts_session t)))
     (tunnel_run example_cx example_cc (take 3 example_moves) example_start)
   = Some (Some 1, 1, 2, 2, [''hi''], [1], 1)"
  by (simp add: run_defs)

lemma example_reach:
  assumes "map_option f (tunnel_run example_cx example_cc moves example_start) = Some v"
  obtains t where "tunnel_reach example_cx example_cc example_start t" and "f t = v"
proof -
  from assms obtain t where "tunnel_run example_cx example_cc moves example_start = Some t" "f t = v" by auto
  then show ?thesis using tunnel_run_reach [OF _ reach_start] that by blast
qed

section \<open>Properties\<close>

text \<open>
  C1. From the agent to the client: whatever connections fail, and wherever, the lines the
  connector has written to its standard output are, at every moment, the first lines of the
  agent's stream, in order and each exactly once.
\<close>

theorem agent_output_exactly_once:
  assumes "tunnel_start cx io process now t0" and "tunnel_reach cx cc t0 t"
    and "replay_limits (cx_config cx)" and "client_limits (cc_options cc)"
  shows "stdout_lines (cn_effects (ts_connector t))
    = take (cn_expected (ts_connector t) - 1) (queued (ts_session t))"
  using tunnel_reach_inv [OF assms(2) tunnel_start_inv [OF assms(1)] assms(3,4)]
  by (rule down_link_facts)

theorem agent_output_exactly_once_witness:
  "\<exists>t. tunnel_reach example_cx example_cc example_start t \<and>
     stdout_lines (cn_effects (ts_connector t)) = [''hi''] \<and>
     [''hi''] = take (cn_expected (ts_connector t) - 1) (queued (ts_session t))"
proof -
  from example_run obtain t where t: "tunnel_reach example_cx example_cc example_start t"
    "stdout_lines (cn_effects (ts_connector t)) = [''hi'']" by (rule example_reach) auto
  with agent_output_exactly_once [OF example_tunnel_start t(1) example_limits example_client_limits] show ?thesis by auto
qed

text \<open>
  C2. From the client to the agent: what has been written to the agent's standard input is what
  the policy forwards of the first lines of the connector's standard input, in order and each
  exactly once.
\<close>

theorem client_input_exactly_once:
  assumes "tunnel_start cx io process now t0" and "tunnel_reach cx cc t0 t"
    and "replay_limits (cx_config cx)" and "client_limits (cc_options cc)"
  shows "agent_stdin (ts_session t)
    = forwarded cx (take (expected_client_sequence (ts_session t) - 1) (cn_lines (ts_connector t)))"
proof -
  have inv: "tunnel_inv cx cc t"
    using assms(2) tunnel_start_inv [OF assms(1)] assms(3,4) by (rule tunnel_reach_inv)
  then have "agent_stdin (ts_session t) = forwarded cx (consumed (ts_session t))"
    by (simp add: tunnel_inv_def session_inv_def client_inv_def)
  with up_link_facts(1) [OF inv] show ?thesis by simp
qed

theorem client_input_exactly_once_witness:
  "\<exists>t. tunnel_reach example_cx example_cc example_start t \<and> agent_stdin (ts_session t) = [''yo''] \<and>
     [''yo''] = forwarded example_cx
       (take (expected_client_sequence (ts_session t) - 1) (cn_lines (ts_connector t)))"
proof -
  from example_run obtain t where t: "tunnel_reach example_cx example_cc example_start t"
    "agent_stdin (ts_session t) = [''yo'']" by (rule example_reach) auto
  with client_input_exactly_once [OF example_tunnel_start t(1) example_limits example_client_limits] show ?thesis by auto
qed

text \<open>
  C4. A sequence gap never shows: the next frame on the connection a side reads has a number that
  is not past the one it expects, so neither the error \<open>server ACP sequence gap\<close> of the connector nor
  the end \<open>client_sequence_gap\<close> of the session is reached by a tunnel of the two.
\<close>

theorem no_sequence_gap:
  assumes "tunnel_start cx io process now t0" and "tunnel_reach cx cc t0 t"
    and "replay_limits (cx_config cx)" and "client_limits (cc_options cc)"
  shows "(next_message (ts_client_read t) (to_connector t) = Some (Acp (Some n) p) \<longrightarrow>
      n \<le> cn_expected (ts_connector t)) \<and>
    (next_message (ts_server_read t) (to_session t) = Some (Acp (Some m) q) \<longrightarrow>
      m \<le> expected_client_sequence (ts_session t))"
proof -
  have inv: "tunnel_inv cx cc t"
    using assms(2) tunnel_start_inv [OF assms(1)] assms(3,4) by (rule tunnel_reach_inv)
  have "in_order env (cn_expected (ts_connector t))"
    if "next_message (ts_client_read t) (to_connector t) = Some env" for env
    using inv next_message_mem [OF that] link_inv_read(1) [OF _ _ logs_down]
    by (fastforce simp: tunnel_inv_def down_link_def received_def)
  moreover have "in_order env (expected_client_sequence (ts_session t))"
    if "next_message (ts_server_read t) (to_session t) = Some env" for env
    using inv next_message_mem [OF that] link_inv_read(1) [OF _ _ logs_up]
    by (fastforce simp: tunnel_inv_def up_link_def taken_def)
  ultimately show ?thesis by fastforce
qed

theorem no_sequence_gap_witness:
  "\<exists>t. tunnel_reach example_cx example_cc example_start t \<and>
     next_message (ts_client_read t) (to_connector t) = Some (Acp (Some 1) ''hi'') \<and>
     1 \<le> cn_expected (ts_connector t)"
proof -
  from example_run_sent obtain t where t: "tunnel_reach example_cx example_cc example_start t"
    "next_message (ts_client_read t) (to_connector t) = Some (Acp (Some 1) ''hi'')"
    by (rule example_reach) auto
  with no_sequence_gap [OF example_tunnel_start t(1) example_limits example_client_limits] show ?thesis by blast
qed

text \<open>
  C3. Nothing is dropped before it is delivered: the lines of the agent that the client has not
  seen are the end of the session's replay buffer, and the lines of the client that the session
  has not processed are the end of the connector's replay queue.
\<close>

theorem undelivered_is_retained:
  assumes "tunnel_start cx io process now t0" and "tunnel_reach cx cc t0 t"
    and "replay_limits (cx_config cx)" and "client_limits (cc_options cc)"
  shows "(\<exists>k. drop (cn_expected (ts_connector t) - 1) (queued (ts_session t))
        = map rf_payload (drop k (pending (ts_session t)))) \<and>
    (\<exists>k. drop (expected_client_sequence (ts_session t) - 1) (cn_lines (ts_connector t))
        = map pf_payload (drop k (cn_pending (ts_connector t))))"
proof -
  have inv: "tunnel_inv cx cc t"
    using assms(2) tunnel_start_inv [OF assms(1)] assms(3,4) by (rule tunnel_reach_inv)
  have ret: "retains (queued (ts_session t)) (first_retained (ts_session t))
      (map frame_view (pending (ts_session t))) (pending_bytes (ts_session t)) (next_server_sequence (ts_session t))"
    "retains (cn_lines (ts_connector t)) (first_pending (ts_connector t))
      (map pending_view (cn_pending (ts_connector t))) (cn_pending_bytes (ts_connector t)) (cn_next_sequence (ts_connector t))"
    using inv by (simp_all add: tunnel_inv_def session_inv_def buffer_inv_def connector_inv_def)
  have "snd \<circ> frame_view = rf_payload" "snd \<circ> pending_view = pf_payload"
    by (auto simp: frame_view_def pending_view_def)
  with retained_suffix [OF ret(1) down_link_facts(2,3) [OF inv]]
    retained_suffix [OF ret(2) up_link_facts(2,3) [OF inv]] show ?thesis by auto
qed

theorem undelivered_is_retained_witness:
  "\<exists>t. tunnel_reach example_cx example_cc example_start t \<and> queued (ts_session t) = [''hi''] \<and>
     (\<exists>k. [''hi''] = map rf_payload (drop k (pending (ts_session t))))"
proof -
  from example_run_sent obtain t where t: "tunnel_reach example_cx example_cc example_start t"
    "queued (ts_session t) = [''hi'']" "cn_expected (ts_connector t) = 1"
    by (rule example_reach) auto
  have "drop (1 - 1) [''hi''] = [''hi'']" by simp
  with undelivered_is_retained [OF example_tunnel_start t(1) example_limits example_client_limits] t show ?thesis by metis
qed

text \<open>
  C5. Delivery is complete when the tunnel is quiet: if the current transport is the connection the
  connector reads, every frame of the buffer was sent on it and all its messages were read, then the
  client has every line of the agent; and if the session has read all the connector wrote on that
  connection, it has processed every line of the client.
\<close>

theorem quiet_tunnel_complete:
  assumes "tunnel_start cx io process now t0" and "tunnel_reach cx cc t0 t"
    and "replay_limits (cx_config cx)" and "client_limits (cc_options cc)"
    and "transport (ts_session t) = Some (cn_socket (ts_connector t))"
  shows "(all_enqueued (generation (ts_session t)) (pending (ts_session t)) \<and>
      ts_client_read t = length (to_connector t) \<longrightarrow>
      stdout_lines (cn_effects (ts_connector t)) = queued (ts_session t)) \<and>
    (ts_server_read t = length (to_session t) \<longrightarrow>
      agent_stdin (ts_session t) = forwarded cx (cn_lines (ts_connector t)))"
proof -
  let ?s = "ts_session t" and ?c = "ts_connector t"
  have inv: "tunnel_inv cx cc t"
    using assms(2) tunnel_start_inv [OF assms(1)] assms(3,4) by (rule tunnel_reach_inv)
  have gen: "generation ?s = cn_socket ?c"
    using inv assms(5) by (auto simp: tunnel_inv_def session_inv_def transport_inv_def)
  have next_seq: "next_server_sequence ?s = Suc (length (queued ?s))" "cn_next_sequence ?c = Suc (length (cn_lines ?c))"
    using inv by (simp_all add: tunnel_inv_def session_inv_def buffer_inv_def connector_inv_def retains_def)
  have "stdout_lines (cn_effects ?c) = queued ?s"
    if all: "all_enqueued (generation ?s) (pending ?s)" and read: "ts_client_read t = length (to_connector t)"
  proof -
    have "unsent (generation ?s) (pending ?s) = []"
      using all by (auto simp: unsent_def all_enqueued_def list_all_iff filter_empty_conv)
    then have "sd_sent (server_sender ?s) = Suc (length (sd_payloads (server_sender ?s)))"
      by (simp add: server_sender_def next_seq)
    moreover have "sd_conn (server_sender ?s) = Some (cn_socket ?c)"
      by (simp add: server_sender_def assms(5))
    moreover have "link_inv (server_sender ?s, receiver_of (received ?c) (cn_socket ?c) (ts_client_read t) (to_connector t))"
      using inv by (simp add: tunnel_inv_def down_link_def)
    ultimately have "snd (received ?c) = sd_payloads (server_sender ?s)"
      using link_complete logs_down read by blast
    then show ?thesis by (simp add: received_def server_sender_def)
  qed
  moreover have "agent_stdin ?s = forwarded cx (cn_lines ?c)" if read: "ts_server_read t = length (to_session t)"
  proof -
    have "link_inv (client_sender ?c, receiver_of (taken ?s) (generation ?s) (ts_server_read t) (to_session t))"
      using inv by (simp add: tunnel_inv_def up_link_def)
    then have "snd (taken ?s) = sd_payloads (client_sender ?c)"
      using link_complete [OF _ _ _ logs_up] read by (simp add: client_sender_def next_seq gen)
    then have "consumed ?s = cn_lines ?c" by (simp add: taken_def client_sender_def)
    then show ?thesis using inv by (simp add: tunnel_inv_def session_inv_def client_inv_def)
  qed
  ultimately show ?thesis by blast
qed

theorem quiet_tunnel_complete_witness:
  "\<exists>t. tunnel_reach example_cx example_cc example_start t \<and>
     stdout_lines (cn_effects (ts_connector t)) = [''hi'']"
proof -
  from example_run_quiet obtain t where t: "tunnel_reach example_cx example_cc example_start t"
    and f: "transport (ts_session t) = Some (cn_socket (ts_connector t))"
      "ts_client_read t = length (to_connector t)" "queued (ts_session t) = [''hi'']"
      "map rf_last_sent_generation (pending (ts_session t)) = [generation (ts_session t)]"
    by (rule example_reach) auto
  from f(4) have "all_enqueued (generation (ts_session t)) (pending (ts_session t))"
    by (auto simp: all_enqueued_def map_eq_Cons_conv)
  with quiet_tunnel_complete [OF example_tunnel_start t example_limits example_client_limits f(1)] f t show ?thesis by auto
qed

end
