(* ===== verification/Acp_Wire.thy ===== *)
theory Acp_Wire
  imports Acp_Delivery Acp_Transport "HOL-Library.Sublist"
begin

text \<open>
  The transport task of \<^verbatim>\<open>server.rs\<close> as a whole, between the envelopes of a session and the texts on
  the WebSocket: \<open>Acp_Delivery\<close> lets a connection carry the envelopes that its channel accepted;
  here the task that writes and reads them is shown to do so.
\<close>

section \<open>The task\<close>

text \<open>
  A branch of the \<open>select!\<close>: a command with the answer to its write, or a message with the answer to a
  pong; and whether the event channel takes the event.
\<close>

datatype task_input =
    TaskCommand "transport_command option" bool bool
  | TaskMessage "ws_message option" bool bool

fun task_branch :: "serde_json \<Rightarrow> (json list \<Rightarrow> json_error + envelope) \<Rightarrow> task_input \<Rightarrow> task_step" where
  "task_branch sj seq (TaskCommand command written accepted) =
     (let step = run_command sj written command
      in step\<lparr>ts_event := (if accepted then ts_event step else None)\<rparr>)"
| "task_branch sj seq (TaskMessage message pong_written accepted) = run_message sj seq pong_written accepted message"

text \<open>The loop: what it writes and the events it hands on, until it ends or the inputs do.\<close>

fun spawn_transport ::
    "serde_json \<Rightarrow> (json list \<Rightarrow> json_error + envelope) \<Rightarrow> task_input list
      \<Rightarrow> ws_message list \<times> transport_event_kind list" where
  "spawn_transport sj seq [] = ([], [])"
| "spawn_transport sj seq (input # inputs) =
     (let step = task_branch sj seq input;
          (ws, evs) = (if ts_running step then spawn_transport sj seq inputs else ([], []))
      in (ts_written step @ ws, (case ts_event step of None \<Rightarrow> [] | Some ev \<Rightarrow> [ev]) @ evs))"

section \<open>What goes over the wire\<close>

fun command_of :: "task_input \<Rightarrow> transport_command option" where
  "command_of (TaskCommand command written accepted) = command"
| "command_of (TaskMessage message pong_written accepted) = None"

fun text_of :: "task_input \<Rightarrow> string option" where
  "text_of (TaskMessage (Some (WsText s)) pong_written accepted) = Some s"
| "text_of _ = None"

definition given_envelopes :: "task_input list \<Rightarrow> envelope list" where
  "given_envelopes inputs = map command_envelope (List.map_filter command_of inputs)"

definition read_texts :: "task_input list \<Rightarrow> string list" where
  "read_texts inputs = List.map_filter text_of inputs"

text \<open>The envelopes the other side decodes from the messages, and those the session is handed.\<close>

definition decoded :: "serde_json \<Rightarrow> (json list \<Rightarrow> json_error + envelope) \<Rightarrow> ws_message list \<Rightarrow> envelope list" where
  "decoded sj seq ms = concat (map (\<lambda>m. case m of
     WsText s \<Rightarrow> (case from_text sj seq s of Inr e \<Rightarrow> [e] | Inl _ \<Rightarrow> []) | _ \<Rightarrow> []) ms)"

definition event_envelopes :: "transport_event_kind list \<Rightarrow> envelope list" where
  "event_envelopes evs = concat (map (\<lambda>ev. case ev of EvEnvelope e \<Rightarrow> [e] | _ \<Rightarrow> []) evs)"

definition travels :: "serde_json \<Rightarrow> envelope \<Rightarrow> bool" where
  "travels sj e \<longleftrightarrow> prints_back sj (envelope_to_value e) \<and> envelope_wf e"

lemma travels_text: "travels sj e \<Longrightarrow> from_text sj seq (to_text sj e) = Inr e"
  by (simp add: travels_def from_text_def to_text_def prints_back_def envelope_from_to_value)

lemma decoded_simps [simp]:
  "decoded sj seq [] = []" "decoded sj seq (xs @ ys) = decoded sj seq xs @ decoded sj seq ys"
  "decoded sj seq (m # ms) = (case m of
     WsText s \<Rightarrow> (case from_text sj seq s of Inr e \<Rightarrow> [e] | Inl _ \<Rightarrow> []) | _ \<Rightarrow> []) @ decoded sj seq ms"
  by (simp_all add: decoded_def)

lemma event_envelopes_simps [simp]:
  "event_envelopes [] = []" "event_envelopes (xs @ ys) = event_envelopes xs @ event_envelopes ys"
  "event_envelopes (ev # evs) = (case ev of EvEnvelope e \<Rightarrow> [e] | _ \<Rightarrow> []) @ event_envelopes evs"
  by (simp_all add: event_envelopes_def)

lemma map_filter_Cons: "List.map_filter f (x # xs) = (case f x of None \<Rightarrow> [] | Some y \<Rightarrow> [y]) @ List.map_filter f xs"
  by (simp add: List.map_filter_def split: option.splits)

lemma run_command_decoded:
  assumes "\<forall>c. command = Some c \<longrightarrow> travels sj (command_envelope c)"
  shows "decoded sj seq (ts_written (run_command sj written command)) =
    (case command of Some c \<Rightarrow> if written then [command_envelope c] else [] | None \<Rightarrow> [])"
    and "ts_running (run_command sj written command) \<Longrightarrow> written"
proof -
  have "from_text sj seq (to_text sj (command_envelope c)) = Inr (command_envelope c)" if "command = Some c" for c
    using assms that travels_text by blast
  then show "decoded sj seq (ts_written (run_command sj written command)) =
      (case command of Some c \<Rightarrow> if written then [command_envelope c] else [] | None \<Rightarrow> [])"
    by (cases "(sj, written, command)" rule: run_command.cases) auto
  show "ts_running (run_command sj written command) \<Longrightarrow> written"
    by (cases "(sj, written, command)" rule: run_command.cases) (auto split: if_splits)
qed

lemma run_message_decoded: "decoded sj seq (ts_written (run_message sj seq pw ea m)) = []"
  by (simp add: run_message_def Let_def split: option.splits ws_message.splits)

lemma run_command_no_envelope: "ts_event (run_command sj written command) \<noteq> Some (EvEnvelope e)"
  by (cases "(sj, written, command)" rule: run_command.cases) auto

section \<open>Properties\<close>

lemma sent_prefix:
  assumes "\<forall>e\<in>set (given_envelopes inputs). travels sj e"
  shows "prefix (decoded sj seq (fst (spawn_transport sj seq inputs))) (given_envelopes inputs)"
  using assms
proof (induction inputs)
  case (Cons input inputs)
  have rest: "prefix (decoded sj seq (fst (spawn_transport sj seq inputs))) (given_envelopes inputs)"
    using Cons by (auto simp: given_envelopes_def map_filter_Cons split: option.splits)
  show ?case
  proof (cases input)
    case (TaskCommand command written accepted)
    have ok: "\<forall>c. command = Some c \<longrightarrow> travels sj (command_envelope c)"
      using Cons.prems TaskCommand by (auto simp: given_envelopes_def map_filter_Cons)
    note step = run_command_decoded(1) [where seq = seq and written = written, OF ok]
      run_command_decoded(2) [where written = written, OF ok]
    show ?thesis
      using step rest TaskCommand
      by (auto simp: Let_def given_envelopes_def map_filter_Cons split: prod.splits option.splits if_splits)
  next
    case (TaskMessage message pw accepted)
    then show ?thesis
      using rest by (auto simp: Let_def given_envelopes_def map_filter_Cons run_message_decoded split: prod.splits)
  qed
qed (simp add: given_envelopes_def)

lemma received_prefix:
  assumes "read_texts inputs = map (to_text sj) es" and "\<forall>e\<in>set es. travels sj e"
  shows "prefix (event_envelopes (snd (spawn_transport sj seq inputs))) es"
  using assms
proof (induction inputs arbitrary: es)
  case (Cons input inputs)
  show ?case
  proof (cases "text_of input")
    case None
    then have "read_texts inputs = map (to_text sj) es" using Cons.prems(1) by (simp add: read_texts_def map_filter_Cons)
    note rest = Cons.IH [OF this Cons.prems(2)]
    have "ts_event (task_branch sj seq input) \<noteq> Some (EvEnvelope e)" for e
    proof (cases input)
      case (TaskCommand command written accepted)
      then show ?thesis using run_command_no_envelope by (simp add: Let_def)
    next
      case (TaskMessage message pw accepted)
      then show ?thesis using None by (auto simp: run_message_envelope)
    qed
    then show ?thesis
      using rest by (auto simp: Let_def split: prod.splits option.splits transport_event_kind.splits)
  next
    case (Some s)
    then obtain pw accepted where input: "input = TaskMessage (Some (WsText s)) pw accepted"
      by (cases input rule: text_of.cases) auto
    from Some Cons.prems(1) obtain e es' where es: "es = e # es'" "s = to_text sj e"
        "read_texts inputs = map (to_text sj) es'"
      by (cases es) (auto simp: read_texts_def map_filter_Cons)
    have "from_text sj seq s = Inr e" using es Cons.prems(2) travels_text by simp
    moreover have "prefix (event_envelopes (snd (spawn_transport sj seq inputs))) es'"
      using Cons.IH [OF es(3)] Cons.prems(2) es(1) by simp
    ultimately show ?thesis
      using es(1) input by (auto simp: Let_def run_message_def split: prod.splits)
  qed
qed (simp add: read_texts_def)

text \<open>
  C20. The transport task is a faithful wire in both directions, however long it runs and wherever it ends:
  what the other side decodes from its messages is a first part of the envelopes of the commands it was
  given, in order, and what it hands to the session is a first part of the envelopes whose texts
  it read, in order.
\<close>

theorem transport_task_faithful:
  assumes "\<forall>e\<in>set (given_envelopes inputs) \<union> set es. travels sj e" and "read_texts inputs = map (to_text sj) es"
  shows "prefix (decoded sj seq (fst (spawn_transport sj seq inputs))) (given_envelopes inputs) \<and>
    prefix (event_envelopes (snd (spawn_transport sj seq inputs))) es"
  using assms sent_prefix received_prefix by simp

definition wire_example :: "task_input list" where
  "wire_example = [TaskCommand (Some (CmdEnvelope (Acp (Some 7) ''hello''))) True True,
     TaskMessage (Some (WsText ''text'')) True True, TaskMessage (Some WsClose) True True,
     TaskCommand (Some (CmdEnvelope (Acp (Some 7) ''hello''))) True True]"

theorem transport_task_faithful_witness:
  "let sj = example_serde (envelope_to_value (Acp (Some 7) ''hello'')); seq = (\<lambda>_. Inl InvalidType)
   in decoded sj seq (fst (spawn_transport sj seq wire_example)) = [Acp (Some 7) ''hello''] \<and>
     prefix (event_envelopes (snd (spawn_transport sj seq wire_example))) [Acp (Some 7) ''hello'']"
proof -
  let ?e = "Acp (Some 7) ''hello''"
  let ?sj = "example_serde (envelope_to_value ?e)"
  have t: "travels ?sj ?e"
    by (simp add: travels_def prints_back_def example_serde_def envelope_to_value_normal u64_max_def)
  have given: "given_envelopes wire_example = [?e, ?e]"
    by (simp add: given_envelopes_def wire_example_def map_filter_Cons)
  have texts: "read_texts wire_example = map (to_text ?sj) [?e]"
    by (simp add: read_texts_def wire_example_def map_filter_Cons to_text_def example_serde_def)
  note both = transport_task_faithful [of wire_example "[?e]" ?sj "\<lambda>_. Inl InvalidType", unfolded given, simplified t texts]
  have "decoded ?sj (\<lambda>_. Inl InvalidType) (fst (spawn_transport ?sj (\<lambda>_. Inl InvalidType) wire_example)) = [?e]"
    using travels_text [OF t, of "\<lambda>_. Inl InvalidType"]
    by (simp add: wire_example_def Let_def run_message_def split: sum.splits)
  with both show ?thesis by (simp add: t texts)
qed

end
