(* ===== verification/Acp_Credentials.thy ===== *)
theory Acp_Credentials
  imports Acp_Auth
begin

text \<open>
  \<^verbatim>\<open>credentials.rs\<close> and \<^verbatim>\<open>paths.rs\<close>: the sources a bearer token is loaded from, their
  precedence, the checks of the token text and of the token file, and the default paths
  below the home directory. Files and environment variables are arguments; texts are
  byte strings, and a path is its text.
\<close>

section \<open>Text\<close>

text \<open>Well-formed UTF-8, as \<open>String::from_utf8\<close> accepts it.\<close>

definition continuation :: "nat \<Rightarrow> bool" where
  "continuation n \<longleftrightarrow> 128 \<le> n \<and> n \<le> 191"

definition second_of_three :: "nat \<Rightarrow> nat \<Rightarrow> bool" where
  "second_of_three a n \<longleftrightarrow>
     (if a = 224 then 160 \<le> n \<and> n \<le> 191 else if a = 237 then 128 \<le> n \<and> n \<le> 159 else continuation n)"

definition second_of_four :: "nat \<Rightarrow> nat \<Rightarrow> bool" where
  "second_of_four a n \<longleftrightarrow>
     (if a = 240 then 144 \<le> n \<and> n \<le> 191 else if a = 244 then 128 \<le> n \<and> n \<le> 143 else continuation n)"

fun utf8_valid :: "nat list \<Rightarrow> bool" where
  "utf8_valid [] = True"
| "utf8_valid (a # bs) =
     (if a < 128 then utf8_valid bs
      else if 194 \<le> a \<and> a \<le> 223
      then (case bs of b # cs \<Rightarrow> continuation b \<and> utf8_valid cs | _ \<Rightarrow> False)
      else if 224 \<le> a \<and> a \<le> 239
      then (case bs of b # c # cs \<Rightarrow> second_of_three a b \<and> continuation c \<and> utf8_valid cs | _ \<Rightarrow> False)
      else if 240 \<le> a \<and> a \<le> 244
      then (case bs of b # c # d # cs \<Rightarrow>
              second_of_four a b \<and> continuation c \<and> continuation d \<and> utf8_valid cs
            | _ \<Rightarrow> False)
      else False)"

definition valid_text :: "string \<Rightarrow> bool" where
  "valid_text s = utf8_valid (map of_char s)"

text \<open>\<open>to_string_lossy\<close>: every longest prefix of a sequence that goes wrong becomes the character U+FFFD.\<close>

definition REPLACEMENT :: "nat list" where
  "REPLACEMENT = [239, 191, 189]"

fun utf8_lossy :: "nat list \<Rightarrow> nat list" where
  "utf8_lossy [] = []"
| "utf8_lossy (a # bs) =
     (if a < 128 then a # utf8_lossy bs
      else if 194 \<le> a \<and> a \<le> 223
      then (case bs of
              b # cs \<Rightarrow> if continuation b then a # b # utf8_lossy cs else REPLACEMENT @ utf8_lossy bs
            | [] \<Rightarrow> REPLACEMENT)
      else if (224 \<le> a \<and> a \<le> 239) \<or> (240 \<le> a \<and> a \<le> 244)
      then (case bs of
              b # cs \<Rightarrow>
                if a \<le> 239 \<and> second_of_three a b
                then (case cs of
                        c # ds \<Rightarrow> if continuation c then a # b # c # utf8_lossy ds else REPLACEMENT @ utf8_lossy cs
                      | [] \<Rightarrow> REPLACEMENT)
                else if 240 \<le> a \<and> second_of_four a b
                then (case cs of
                        c # ds \<Rightarrow>
                          if continuation c
                          then (case ds of
                                  d # es \<Rightarrow>
                                    if continuation d then a # b # c # d # utf8_lossy es
                                    else REPLACEMENT @ utf8_lossy ds
                                | [] \<Rightarrow> REPLACEMENT)
                          else REPLACEMENT @ utf8_lossy cs
                      | [] \<Rightarrow> REPLACEMENT)
                else REPLACEMENT @ utf8_lossy bs
            | [] \<Rightarrow> REPLACEMENT)
      else REPLACEMENT @ utf8_lossy bs)"

definition to_string_lossy :: "string \<Rightarrow> string" where
  "to_string_lossy s = map char_of (utf8_lossy (map of_char s))"

lemma utf8_lossy_valid: "utf8_valid bs \<Longrightarrow> utf8_lossy bs = bs"
proof (induction bs rule: utf8_valid.induct)
  case 1
  show ?case by simp
next
  case (2 a bs)
  consider (one) "a < 128" | (two) "\<not> a < 128" "194 \<le> a \<and> a \<le> 223" | (three) "224 \<le> a \<and> a \<le> 239" | (four) "240 \<le> a \<and> a \<le> 244"
    using 2(5) by (auto split: if_splits)
  then show ?case
  proof cases
    case one
    with 2(1,5) show ?thesis by simp
  next
    case two
    then obtain b cs where "bs = b # cs" "continuation b" "utf8_valid cs" using 2(5) by (cases bs) auto
    with two 2(2) show ?thesis by simp
  next
    case three
    then obtain b c ds where "bs = b # c # ds" "second_of_three a b" "continuation c" "utf8_valid ds"
      using 2(5) by (auto split: list.splits if_splits)
    with three 2(3) show ?thesis by simp
  next
    case four
    then obtain b c d es where "bs = b # c # d # es" "second_of_four a b" "continuation c" "continuation d" "utf8_valid es"
      using 2(5) by (auto split: list.splits if_splits)
    with four 2(4) show ?thesis by simp
  qed
qed

lemma to_string_lossy_valid: "valid_text s \<Longrightarrow> to_string_lossy s = s"
  by (simp add: to_string_lossy_def valid_text_def utf8_lossy_valid o_def)

lemma ascii_valid_text: "list_all (\<lambda>c. of_char c < (128 :: nat)) s \<Longrightarrow> valid_text s"
  unfolding valid_text_def by (induction s) auto

fun ends_with :: "string \<Rightarrow> string \<Rightarrow> bool" where
  "ends_with s suffix \<longleftrightarrow> length suffix \<le> length s \<and> drop (length s - length suffix) s = suffix"

lemma ends_with_iff: "ends_with s suffix \<longleftrightarrow> (\<exists>us. s = us @ suffix)"
  by (auto intro: exI [of _ "take (length s - length suffix) s"]) (metis append_take_drop_id)

section \<open>Tokens\<close>

definition CR :: char where "CR = CHR 0x0D"

definition LF :: char where "LF = CHR 0x0A"

definition MAX_TOKEN_FILE_BYTES :: nat where
  "MAX_TOKEN_FILE_BYTES = 16 * 1024"

definition strip_line_end :: "string \<Rightarrow> string" where
  "strip_line_end token =
     (if ends_with token [CR, LF] then take (length token - 2) token
      else if ends_with token [LF] then butlast token
      else token)"

definition validate_token_text :: "string \<Rightarrow> error + secret_token" where
  "validate_token_text text =
     (let token = strip_line_end text
      in if CR \<in> set token \<or> LF \<in> set token
         then Inl (Config [Lit ''tunnel credential must not contain embedded newlines''])
         else secret_token_new token)"

text \<open>
  A file as it is found: an error opening it, or its mode and its bytes, each with the
  error of reading them.
\<close>

record opened_file =
  of_mode :: "string + 32 word"
  of_bytes :: "string + string"

type_synonym file_system = "string \<Rightarrow> string + opened_file"

definition warn_if_token_file_is_readable_by_others ::
    "string \<Rightarrow> opened_file \<Rightarrow> message list \<times> (error + unit)" where
  "warn_if_token_file_is_readable_by_others path file =
     (case of_mode file of
        Inl e \<Rightarrow> ([], Inl (Config [Lit ''cannot inspect '', Disp path, Lit '': '', Disp e]))
      | Inr mode \<Rightarrow>
          (if mode AND 0x24 \<noteq> 0
           then [[Lit ''acp-tunnel: warning: token file '', Disp path,
                  Lit '' is group-readable or world-readable'']]
           else [],
           Inr ()))"

text \<open>At most one byte more than the limit is read. The warnings come with the result.\<close>

definition read_token_file :: "file_system \<Rightarrow> string \<Rightarrow> message list \<times> (error + secret_token)" where
  "read_token_file fs path =
     (case fs path of
        Inl e \<Rightarrow> ([], Inl (Config [Lit ''cannot read '', Disp path, Lit '': '', Disp e]))
      | Inr file \<Rightarrow>
          (case warn_if_token_file_is_readable_by_others path file of
             (warnings, Inl e) \<Rightarrow> (warnings, Inl e)
           | (warnings, Inr _) \<Rightarrow>
               (warnings,
                case of_bytes file of
                  Inl e \<Rightarrow> Inl (Config [Lit ''cannot read '', Disp path, Lit '': '', Disp e])
                | Inr contents \<Rightarrow>
                    let bytes = take (MAX_TOKEN_FILE_BYTES + 1) contents
                    in if MAX_TOKEN_FILE_BYTES < length bytes
                       then Inl (Config [Lit ''token file '', Disp path, Lit '' exceeds 16 KiB''])
                       else if \<not> valid_text bytes
                       then Inl (Config [Lit ''token file '', Disp path, Lit '' must contain valid Unicode text''])
                       else validate_token_text bytes)))"

definition load_token_from_sources ::
    "file_system \<Rightarrow> string option \<Rightarrow> string option \<Rightarrow> string option \<Rightarrow> string option
      \<Rightarrow> message list \<times> (error + secret_token)" where
  "load_token_from_sources fs cli_token_file environment_token_file direct_token default_token_file =
     (let token_file = (case cli_token_file of Some p \<Rightarrow> Some p | None \<Rightarrow> environment_token_file)
      in if token_file \<noteq> None \<and> direct_token \<noteq> None
         then ([], Inl (Config [Lit ''provide a token file or ACP_TUNNEL_TOKEN, but not both'']))
         else case token_file of
                Some path \<Rightarrow> read_token_file fs path
              | None \<Rightarrow>
                  (case direct_token of
                     Some token \<Rightarrow>
                       ([], if valid_text token then validate_token_text token
                            else Inl (Config [Lit ''ACP_TUNNEL_TOKEN must contain valid Unicode text'']))
                   | None \<Rightarrow>
                       (case default_token_file of
                          Some path \<Rightarrow> read_token_file fs path
                        | None \<Rightarrow>
                            ([], Inl (Config [Lit ''set ACP_TUNNEL_TOKEN_FILE or ACP_TUNNEL_TOKEN, or use --token-file''])))))"

section \<open>Default paths\<close>

text \<open>\<open>PathBuf::join\<close> on the paths of this program's platform.\<close>

definition path_join :: "string \<Rightarrow> string \<Rightarrow> string" where
  "path_join base path =
     (if path \<noteq> [] \<and> hd path = CHR ''/'' then path
      else if base = [] \<or> last base = CHR ''/'' then base @ path
      else base @ CHR ''/'' # path)"

definition CONFIG_DIRECTORY :: string where
  "CONFIG_DIRECTORY = ''.config/acp-tunnel''"

definition home_directory_from :: "string option \<Rightarrow> string option" where
  "home_directory_from home = (case home of Some h \<Rightarrow> if h = [] then None else Some h | None \<Rightarrow> None)"

definition default_config_directory :: "(string \<Rightarrow> string option) \<Rightarrow> string option" where
  "default_config_directory var_os =
     map_option (\<lambda>home. path_join home CONFIG_DIRECTORY) (home_directory_from (var_os ''HOME''))"

definition default_server_config_file :: "(string \<Rightarrow> string option) \<Rightarrow> string option" where
  "default_server_config_file var_os =
     map_option (\<lambda>directory. path_join directory ''config.toml'') (default_config_directory var_os)"

definition default_token_file :: "(string \<Rightarrow> string option) \<Rightarrow> string option" where
  "default_token_file var_os =
     map_option (\<lambda>directory. path_join directory ''token'') (default_config_directory var_os)"

definition resolve_server_config_file :: "(string \<Rightarrow> string option) \<Rightarrow> string option \<Rightarrow> error + string" where
  "resolve_server_config_file var_os path =
     ok_or (Config [Lit ''use --config because the process home directory is unavailable''])
       (case path of Some p \<Rightarrow> Some p | None \<Rightarrow> default_server_config_file var_os)"

definition load_token ::
    "file_system \<Rightarrow> (string \<Rightarrow> string option) \<Rightarrow> string option \<Rightarrow> message list \<times> (error + secret_token)" where
  "load_token fs var_os cli_token_file =
     load_token_from_sources fs cli_token_file (var_os ''ACP_TUNNEL_TOKEN_FILE'')
       (var_os ''ACP_TUNNEL_TOKEN'') (default_token_file var_os)"

definition load_token_file :: "file_system \<Rightarrow> string \<Rightarrow> message list \<times> (error + secret_token)" where
  "load_token_file fs path = read_token_file fs path"

section \<open>What a token text is\<close>

lemma strip_line_end_cases:
  assumes "CR \<notin> set t" and "LF \<notin> set t"
  shows "strip_line_end t = t" and "strip_line_end (t @ [LF]) = t" and "strip_line_end (t @ [CR, LF]) = t"
proof -
  have ne: "CR \<noteq> LF" by (simp add: CR_def LF_def)
  have "\<not> ends_with t [LF]" "\<not> ends_with t [CR, LF]" using assms by (auto simp: ends_with_iff simp del: ends_with.simps)
  then show "strip_line_end t = t" by (simp add: strip_line_end_def del: ends_with.simps)
  have "\<not> ends_with (t @ [LF]) [CR, LF]"
  proof
    assume "ends_with (t @ [LF]) [CR, LF]"
    then obtain us where "t @ [LF] = us @ [CR, LF]" by (auto simp: ends_with_iff simp del: ends_with.simps)
    then have "t = us @ [CR]" by (metis append.assoc append_Cons append_Nil butlast_snoc)
    with assms show False by simp
  qed
  moreover have "ends_with (t @ [LF]) [LF]" by (auto simp: ends_with_iff simp del: ends_with.simps)
  ultimately show "strip_line_end (t @ [LF]) = t" by (simp add: strip_line_end_def del: ends_with.simps)
  have "ends_with (t @ [CR, LF]) [CR, LF]" by (auto simp: ends_with_iff simp del: ends_with.simps)
  then show "strip_line_end (t @ [CR, LF]) = t" by (simp add: strip_line_end_def del: ends_with.simps)
qed

lemma strip_line_end_split:
  "text0 = strip_line_end text0 \<or> text0 = strip_line_end text0 @ [LF] \<or> text0 = strip_line_end text0 @ [CR, LF]"
proof (cases "ends_with text0 [CR, LF]")
  case True
  then obtain us where "text0 = us @ [CR, LF]" by (auto simp: ends_with_iff simp del: ends_with.simps)
  with True show ?thesis by (simp add: strip_line_end_def del: ends_with.simps)
next
  case no_crlf: False
  show ?thesis
  proof (cases "ends_with text0 [LF]")
    case True
    then obtain us where "text0 = us @ [LF]" by (auto simp: ends_with_iff simp del: ends_with.simps)
    with True no_crlf show ?thesis by (simp add: strip_line_end_def del: ends_with.simps)
  next
    case False
    with no_crlf show ?thesis by (simp add: strip_line_end_def del: ends_with.simps)
  qed
qed

lemma validate_token_text_Inr:
  "validate_token_text text0 = Inr (SecretToken t) \<longleftrightarrow>
     t \<noteq> [] \<and> CR \<notin> set t \<and> LF \<notin> set t \<and> text0 \<in> {t, t @ [LF], t @ [CR, LF]}"
proof
  assume "validate_token_text text0 = Inr (SecretToken t)"
  then have "t = strip_line_end text0" "CR \<notin> set t" "LF \<notin> set t" "t \<noteq> []"
    by (auto simp: validate_token_text_def Let_def secret_token_new_def split: if_splits)
  with strip_line_end_split [of text0]
  show "t \<noteq> [] \<and> CR \<notin> set t \<and> LF \<notin> set t \<and> text0 \<in> {t, t @ [LF], t @ [CR, LF]}" by auto
next
  assume r: "t \<noteq> [] \<and> CR \<notin> set t \<and> LF \<notin> set t \<and> text0 \<in> {t, t @ [LF], t @ [CR, LF]}"
  then have "strip_line_end text0 = t" using strip_line_end_cases by auto
  with r show "validate_token_text text0 = Inr (SecretToken t)"
    by (simp add: validate_token_text_def secret_token_new_def)
qed

section \<open>Properties\<close>

text \<open>
  A token text is accepted exactly when it is a nonempty text without line ends, followed by at
  most one line end (LF or CR LF), and the token is that text; so a token written with a final
  newline is read back.
\<close>

theorem token_text_exact:
  "validate_token_text text0 = Inr (SecretToken t) \<longleftrightarrow>
     t \<noteq> [] \<and> CR \<notin> set t \<and> LF \<notin> set t \<and> text0 \<in> {t, t @ [LF], t @ [CR, LF]}"
  by (rule validate_token_text_Inr)

text \<open>
  The sources of a token: a file from the command line or, without one, from the environment
  excludes a direct token; a direct token comes before the default file; no other source is read.
\<close>

theorem token_source_precedence:
  "load_token fs var_os cli =
     (case (if cli = None then var_os ''ACP_TUNNEL_TOKEN_FILE'' else cli, var_os ''ACP_TUNNEL_TOKEN'') of
        (Some path, Some _) \<Rightarrow>
          ([], Inl (Config [Lit ''provide a token file or ACP_TUNNEL_TOKEN, but not both'']))
      | (Some path, None) \<Rightarrow> read_token_file fs path
      | (None, Some token) \<Rightarrow>
          ([], if valid_text token then validate_token_text token
               else Inl (Config [Lit ''ACP_TUNNEL_TOKEN must contain valid Unicode text'']))
      | (None, None) \<Rightarrow>
          (case default_token_file var_os of
             Some path \<Rightarrow> read_token_file fs path
           | None \<Rightarrow> ([], Inl (Config
               [Lit ''set ACP_TUNNEL_TOKEN_FILE or ACP_TUNNEL_TOKEN, or use --token-file'']))))"
  by (cases cli) (simp_all add: load_token_def load_token_from_sources_def Let_def split: option.splits)

end
