(* ===== verification/Acp_Setup.thy ===== *)
theory Acp_Setup
  imports Acp_Credentials Acp_Client_Options Acp_Process
begin

text \<open>
  \<^verbatim>\<open>setup.rs\<close>: the private files that initialisation writes and replaces, the search for
  an executable, the generated configuration, the systemd unit and the diagnosis of a
  server. The file system is the map from a path to the file or directory there, with its bytes
  and its mode; every operation on it is answered by the environment, which may refuse it. A path is its
  text: different texts name different files, and what a directory holds does not move with it.
\<close>

section \<open>Paths\<close>

definition component_count :: "string \<Rightarrow> nat" where
  "component_count path = (if is_absolute path then 1 else 0) + length (normal_components path)"

text \<open>
  \<open>Path::parent\<close> is a slice of the text: the last component goes, with the separators and inner dots
  around it. The text is read from its end.
\<close>

fun trim_rev :: "string \<Rightarrow> string" where
  "trim_rev (c # d # cs) =
     (if c = CHR ''/'' \<or> (c = CHR ''.'' \<and> d = CHR ''/'') then trim_rev (d # cs) else c # d # cs)"
| "trim_rev cs = cs"

definition path_parent :: "string \<Rightarrow> string option" where
  "path_parent path =
     (if normal_components path = [] then None
      else Some (rev (trim_rev (dropWhile (\<lambda>c. c \<noteq> CHR ''/'') (trim_rev (rev path))))))"

definition path_file_name :: "string \<Rightarrow> string option" where
  "path_file_name path =
     (case rev (normal_components path) of
        [] \<Rightarrow> None
      | p # _ \<Rightarrow> if p = ''..'' \<or> p = ''.'' then None else Some p)"

section \<open>Files\<close>

record stored_file =
  sf_contents :: string
  sf_mode :: "32 word"
  sf_directory :: bool

type_synonym files = "string \<Rightarrow> stored_file option"

definition PRIVATE_FILE :: "32 word" where "PRIVATE_FILE = 0x180"   \<comment> \<open>\<open>0o600\<close>\<close>

text \<open>
  The answers of the operations of one write: whether the directory is there, and the error of
  each operation, if any; a failing write leaves a prefix of the bytes.
\<close>

record write_answers =
  wa_parent_exists :: bool
  wa_create_dir :: "string option"
  wa_dir_permissions :: "string option"
  wa_open :: "string option"
  wa_write :: "(nat \<times> string) option"
  wa_permissions :: "string option"

definition cannot :: "string \<Rightarrow> string \<Rightarrow> string \<Rightarrow> error" where
  "cannot what path e = Config [Lit what, Disp path, Lit '': '', Disp e]"

text \<open>Setting permissions of a file that is not there fails; \<open>missing\<close> is the text of that error.\<close>

definition set_private_file_permissions ::
    "string \<Rightarrow> string option \<Rightarrow> string \<Rightarrow> files \<Rightarrow> files \<times> (error + unit)" where
  "set_private_file_permissions missing answer path fs =
     (case answer of
        Some e \<Rightarrow> (fs, Inl (cannot ''cannot set permissions on '' path e))
      | None \<Rightarrow>
          (case fs path of
             None \<Rightarrow> (fs, Inl (cannot ''cannot set permissions on '' path missing))
           | Some file \<Rightarrow> (fs(path \<mapsto> file\<lparr>sf_mode := PRIVATE_FILE\<rparr>), Inr ())))"

text \<open>
  The directory is made. The empty path, which is the parent of a bare file name, is no directory for
  \<open>Path::exists\<close>, needs no making for \<open>create_dir_all\<close>, and has no permissions to set.
\<close>

definition prepare_parent :: "string \<Rightarrow> write_answers \<Rightarrow> string \<Rightarrow> error + unit" where
  "prepare_parent missing wa parent =
     (let parent_exists = parent \<noteq> [] \<and> wa_parent_exists wa
      in case (if parent = [] then None else wa_create_dir wa) of
           Some e \<Rightarrow> Inl (cannot ''cannot create directory '' parent e)
         | None \<Rightarrow>
             if parent_exists then Inr ()
             else (case (if parent = [] then Some missing else wa_dir_permissions wa) of
                     Some e \<Rightarrow> Inl (cannot ''cannot set permissions on '' parent e)
                   | None \<Rightarrow> Inr ()))"

text \<open>
  The file is created, never opened when there is one already (\<open>create_new\<close>), with a private mode.
\<close>

definition write_private_file ::
    "string \<Rightarrow> write_answers \<Rightarrow> string \<Rightarrow> string \<Rightarrow> files \<Rightarrow> files \<times> (error + unit)" where
  "write_private_file missing wa path contents fs =
     (case path_parent path of
        None \<Rightarrow> (fs, Inl (Config [Lit ''path '', Disp path, Lit '' has no parent directory'']))
      | Some parent \<Rightarrow>
          (case prepare_parent missing wa parent of
             Inl e \<Rightarrow> (fs, Inl e)
           | Inr _ \<Rightarrow>
               (case (if fs path = None then wa_open wa else Some ''File exists (os error 17)'') of
                  Some e \<Rightarrow> (fs, Inl (cannot ''cannot write '' path e))
                | None \<Rightarrow>
                    (case wa_write wa of
                       Some (n, e) \<Rightarrow>
                         (fs(path \<mapsto> \<lparr>sf_contents = take n contents, sf_mode = PRIVATE_FILE, sf_directory = False\<rparr>),
                          Inl (cannot ''cannot write '' path e))
                     | None \<Rightarrow>
                         set_private_file_permissions missing (wa_permissions wa) path
                           (fs(path \<mapsto> \<lparr>sf_contents = contents, sf_mode = PRIVATE_FILE, sf_directory = False\<rparr>))))))"

definition sibling_path :: "string \<Rightarrow> string \<Rightarrow> string \<Rightarrow> error + string" where
  "sibling_path path kind unique =
     (case path_parent path of
        None \<Rightarrow> Inl (Config [Lit ''path '', Disp path, Lit '' has no parent directory''])
      | Some parent \<Rightarrow>
          (case path_file_name path of
             None \<Rightarrow> Inl (Config [Lit ''path '', Disp path, Lit '' has no file name''])
           | Some name \<Rightarrow> Inr (path_join parent (''.'' @ to_string_lossy name @ ''.'' @ kind @ ''-'' @ unique))))"

definition rename_file :: "string \<Rightarrow> string option \<Rightarrow> string \<Rightarrow> string \<Rightarrow> files \<Rightarrow> files \<times> string option" where
  "rename_file missing answer old new fs =
     (case answer of
        Some e \<Rightarrow> (fs, Some e)
      | None \<Rightarrow>
          (case fs old of
             None \<Rightarrow> (fs, Some missing)
           | Some file \<Rightarrow> (fs(new \<mapsto> file, old := (if new = old then Some file else None)), None)))"

definition IS_A_DIRECTORY :: string where
  "IS_A_DIRECTORY = ''Is a directory (os error 21)''"

definition remove_file :: "string \<Rightarrow> string option \<Rightarrow> string \<Rightarrow> files \<Rightarrow> files \<times> string option" where
  "remove_file missing answer path fs =
     (case answer of
        Some e \<Rightarrow> (fs, Some e)
      | None \<Rightarrow>
          (case fs path of
             None \<Rightarrow> (fs, Some missing)
           | Some file \<Rightarrow>
               if sf_directory file then (fs, Some IS_A_DIRECTORY) else (fs(path := None), None)))"

record replace_answers =
  ra_permissions :: "string option"
  ra_new :: string                   \<comment> \<open>the random part of the temporary name\<close>
  ra_old :: string                   \<comment> \<open>the random part of the backup name\<close>
  ra_write :: write_answers
  ra_backup :: "string option"
  ra_rename :: "string option"
  ra_restore :: "string option"
  ra_cleanup :: "string option"
  ra_remove :: "string option"

text \<open>The two renames, with the restoration of the original when the second one fails.\<close>

definition swap_files ::
    "string \<Rightarrow> replace_answers \<Rightarrow> string \<Rightarrow> string \<Rightarrow> string \<Rightarrow> files \<Rightarrow> files \<times> (error + unit)" where
  "swap_files missing ra path temporary backup fs =
     (case rename_file missing (ra_backup ra) path backup fs of
        (fs1, Some e) \<Rightarrow>
          (fst (remove_file missing (ra_cleanup ra) temporary fs1),
           Inl (Config [Lit ''cannot preserve '', Disp path, Lit '' before replacement: '', Disp e]))
      | (fs1, None) \<Rightarrow>
          (case rename_file missing (ra_rename ra) temporary path fs1 of
             (fs2, Some e) \<Rightarrow>
               (case rename_file missing (ra_restore ra) backup path fs2 of
                  (fs3, restore) \<Rightarrow>
                    (fst (remove_file missing (ra_cleanup ra) temporary fs3),
                     Inl (Config (case restore of
                        None \<Rightarrow> [Lit ''cannot replace '', Disp path, Lit '': '', Disp e,
                                 Lit ''. The original file was restored'']
                      | Some restore_error \<Rightarrow>
                          [Lit ''cannot replace '', Disp path, Lit '': '', Disp e,
                           Lit ''. Cannot restore original file: '', Disp restore_error]))))
           | (fs2, None) \<Rightarrow>
               (case remove_file missing (ra_remove ra) backup fs2 of
                  (fs3, Some e) \<Rightarrow>
                    (fs3, Inl (Config [Lit ''configuration was replaced, but backup '', Disp backup,
                                       Lit '' cannot be removed: '', Disp e]))
                | (fs3, None) \<Rightarrow> (fs3, Inr ()))))"

definition replace_private_file ::
    "string \<Rightarrow> replace_answers \<Rightarrow> string \<Rightarrow> string \<Rightarrow> files \<Rightarrow> files \<times> (error + unit)" where
  "replace_private_file missing ra path contents fs =
     (case set_private_file_permissions missing (ra_permissions ra) path fs of
        (fs1, Inl e) \<Rightarrow> (fs1, Inl e)
      | (fs1, Inr _) \<Rightarrow>
          (case (sibling_path path ''new'' (ra_new ra), sibling_path path ''old'' (ra_old ra)) of
             (Inl e, _) \<Rightarrow> (fs1, Inl e)
           | (_, Inl e) \<Rightarrow> (fs1, Inl e)
           | (Inr temporary, Inr backup) \<Rightarrow>
               (case write_private_file missing (ra_write ra) temporary contents fs1 of
                  (fs2, Inl e) \<Rightarrow> (fs2, Inl e)
                | (fs2, Inr _) \<Rightarrow> swap_files missing ra path temporary backup fs2)))"

section \<open>Executables\<close>

record metadata =
  md_is_dir :: bool
  md_is_file :: bool
  md_mode :: "32 word"

record setup_host =
  sh_var_os :: "string \<Rightarrow> string option"
  sh_canonicalize :: "string \<Rightarrow> string + string"
  sh_metadata :: "string \<Rightarrow> string + metadata"
  sh_read_dir :: "string \<Rightarrow> string option"

definition is_executable :: "setup_host \<Rightarrow> string \<Rightarrow> bool" where
  "is_executable host path =
     (case sh_metadata host path of
        Inl _ \<Rightarrow> False
      | Inr md \<Rightarrow> md_is_file md \<and> md_mode md AND 0x49 \<noteq> 0)"

definition has_write_permission :: "metadata \<Rightarrow> bool" where
  "has_write_permission md \<longleftrightarrow> md_mode md AND 0x92 \<noteq> 0"

definition canonical_executable :: "setup_host \<Rightarrow> string \<Rightarrow> error + string" where
  "canonical_executable host path =
     rbind (map_err (cannot ''cannot resolve executable '' path) (sh_canonicalize host path)) (\<lambda>canonical.
       if is_executable host canonical then Inr canonical
       else Inl (Config [Lit ''configured executable '', Disp canonical,
                         Lit '' is not an executable file'']))"

fun search_executable :: "setup_host \<Rightarrow> string \<Rightarrow> string list \<Rightarrow> error + string" where
  "search_executable host command [] =
     Inl (Config [Lit ''cannot find executable '', Disp command, Lit '' in PATH''])"
| "search_executable host command (directory # directories) =
     (let candidate = path_join directory command
      in if is_executable host candidate
         then map_err (cannot ''cannot resolve executable '' candidate) (sh_canonicalize host candidate)
         else search_executable host command directories)"

definition resolve_executable :: "setup_host \<Rightarrow> string \<Rightarrow> string option \<Rightarrow> error + string" where
  "resolve_executable host command search_path =
     (if is_absolute command \<or> 1 < component_count command
      then canonical_executable host command
      else case search_path of
             None \<Rightarrow> Inl (Config [Lit ''cannot resolve executable '', Disp command,
                                  Lit '' because PATH is unavailable''])
           | Some path \<Rightarrow> search_executable host command (split_on (CHR '':'') path))"

section \<open>The systemd unit\<close>

definition replace_char :: "char \<Rightarrow> string \<Rightarrow> string \<Rightarrow> string" where
  "replace_char c with_text s = concat (map (\<lambda>x. if x = c then with_text else [x]) s)"

definition BACKSLASH :: char where "BACKSLASH = CHR 0x5C"

definition QUOTE :: char where "QUOTE = CHR 0x22"

definition PERCENT :: char where "PERCENT = CHR 0x25"

definition escape_systemd_argument :: "string \<Rightarrow> error + string" where
  "escape_systemd_argument path =
     (if \<not> valid_text path
      then Inl (Config [Lit ''the service executable path must contain valid Unicode text''])
      else if LF \<in> set path \<or> CR \<in> set path \<or> CHR 0x00 \<in> set path
      then Inl (Config [Lit ''the service executable path contains invalid characters''])
      else Inr (QUOTE # replace_char PERCENT [PERCENT, PERCENT]
             (replace_char QUOTE [BACKSLASH, QUOTE]
               (replace_char BACKSLASH [BACKSLASH, BACKSLASH] path)) @ [QUOTE]))"

definition unit_before :: string where
  "unit_before =
     ''[Unit]'' @ LF # ''Description=ACP Tunnel Server'' @ LF # ''After=network-online.target'' @ LF #
     ''Wants=network-online.target'' @ LF # LF # ''[Service]'' @ LF # ''Type=simple'' @ LF # ''ExecStart=''"

definition unit_after :: string where
  "unit_after =
     '' serve'' @ LF # ''Restart=on-failure'' @ LF # ''RestartSec=2'' @ LF # ''KillSignal=SIGTERM'' @ LF #
     ''TimeoutStopSec=30'' @ LF # ''KillMode=control-group'' @ LF # ''NoNewPrivileges=true'' @ LF #
     ''PrivateTmp=true'' @ LF # LF # ''[Install]'' @ LF # ''WantedBy=default.target'' @ [LF]"

definition generate_user_service :: "setup_host \<Rightarrow> string \<Rightarrow> error + string" where
  "generate_user_service host executable =
     rbind (map_err (cannot ''cannot resolve service executable '' executable)
              (sh_canonicalize host executable)) (\<lambda>path.
     rbind (escape_systemd_argument path) (\<lambda>argument.
       Inr (unit_before @ argument @ unit_after)))"

section \<open>Initialisation\<close>

record init_options =
  in_config_path :: string
  in_token_path :: string
  in_agent_id :: string
  in_command :: string
  in_workspace_id :: string
  in_workspace_path :: string
  in_pass_env :: "string list"
  in_client_env_allowlist :: "string list"
  in_mcp_policy :: mcp_policy
  in_force :: bool

record init_report =
  ir_config_path :: string
  ir_token_path :: string
  ir_token_created :: bool
  ir_command :: string
  ir_workspace_path :: string

record generated_agent =
  ga_command :: string
  ga_workspaces :: "string list"
  ga_pass_env :: "string list"
  ga_client_env_allowlist :: "string list"
  ga_mcp_policy :: string

record generated_config =
  gc_allow_insecure_mcp_passthrough :: bool
  gc_agents :: "(string \<times> generated_agent) list"
  gc_workspaces :: "(string \<times> string) list"

text \<open>The TOML crate and the host: printing, reading, existing files and the answers of the writes.\<close>

record init_env =
  ie_host :: setup_host
  ie_print :: "generated_config \<Rightarrow> string + string"
  ie_parse :: "string \<Rightarrow> string + server_config"
  ie_url_parse :: "string \<Rightarrow> string + parsed_url"
  ie_symlink :: "string \<Rightarrow> bool"
  ie_other :: "string \<Rightarrow> bool"          \<comment> \<open>something that is no regular file stands there\<close>
  ie_open :: "string \<Rightarrow> string option"   \<comment> \<open>the errors of opening, inspecting and reading\<close>
  ie_stat :: "string \<Rightarrow> string option"
  ie_read :: "string \<Rightarrow> string option"
  ie_random :: string                 \<comment> \<open>two fresh identifiers, 64 hexadecimal digits\<close>
  ie_missing :: string
  ie_token_write :: write_answers
  ie_config_write :: write_answers
  ie_replace :: replace_answers

fun policy_name :: "mcp_policy \<Rightarrow> string" where
  "policy_name Deny = ''deny''"
| "policy_name Allowlisted = ''allowlisted''"
| "policy_name Passthrough = ''passthrough''"

definition generated :: "init_options \<Rightarrow> string \<Rightarrow> string \<Rightarrow> generated_config" where
  "generated options command workspace_path =
     \<lparr>gc_allow_insecure_mcp_passthrough = (in_mcp_policy options = Passthrough),
      gc_agents = [(in_agent_id options,
        \<lparr>ga_command = command, ga_workspaces = [in_workspace_id options], ga_pass_env = in_pass_env options,
         ga_client_env_allowlist = in_client_env_allowlist options,
         ga_mcp_policy = policy_name (in_mcp_policy options)\<rparr>)],
      gc_workspaces = [(in_workspace_id options, workspace_path)]\<rparr>"

definition parse_config :: "init_env \<Rightarrow> string \<Rightarrow> error + server_config" where
  "parse_config ie text =
     rbind (map_err Toml (ie_parse ie text)) (\<lambda>config.
     rbind (validate (ie_url_parse ie) config) (\<lambda>_. Inr config))"

text \<open>Opening a file for reading.\<close>

definition open_file :: "init_env \<Rightarrow> files \<Rightarrow> file_system" where
  "open_file ie fs path =
     (case ie_open ie path of
        Some e \<Rightarrow> Inl e
      | None \<Rightarrow>
          (case fs path of
             None \<Rightarrow> Inl (ie_missing ie)
           | Some file \<Rightarrow>
               Inr \<lparr>of_mode = (case ie_stat ie path of Some e \<Rightarrow> Inl e | None \<Rightarrow> Inr (sf_mode file)),
                    of_bytes = (case ie_read ie path of
                       Some e \<Rightarrow> Inl e
                     | None \<Rightarrow> if sf_directory file then Inl IS_A_DIRECTORY else Inr (sf_contents file))\<rparr>))"

text \<open>\<open>fs::read_to_string\<close>, with the text of the error of an invalid encoding.\<close>

definition read_to_string :: "init_env \<Rightarrow> files \<Rightarrow> string \<Rightarrow> string + string" where
  "read_to_string ie fs path =
     rbind (open_file ie fs path) (\<lambda>file.
     rbind (of_bytes file) (\<lambda>contents.
       if valid_text contents then Inr contents else Inl ''stream did not contain valid UTF-8''))"

text \<open>\<open>ServerConfig::load\<close>.\<close>

definition config_load :: "init_env \<Rightarrow> string \<Rightarrow> files \<Rightarrow> error + server_config" where
  "config_load ie path fs =
     rbind (map_err (cannot ''cannot read '' path) (read_to_string ie fs path)) (parse_config ie)"

definition check_init :: "init_env \<Rightarrow> init_options \<Rightarrow> files \<Rightarrow> error + string \<times> string" where
  "check_init ie options fs =
     rbind (validate_id ''agent'' (in_agent_id options)) (\<lambda>_.
     rbind (validate_id ''workspace'' (in_workspace_id options)) (\<lambda>_.
     rbind (try_for (validate_environment_name ''generated agent'' (in_agent_id options))
              (in_pass_env options @ in_client_env_allowlist options)) (\<lambda>_.
     rbind (resolve_executable (ie_host ie) (in_command options) (sh_var_os (ie_host ie) ''PATH'')) (\<lambda>command.
     rbind (map_err (cannot ''cannot resolve workspace '' (in_workspace_path options))
              (sh_canonicalize (ie_host ie) (in_workspace_path options))) (\<lambda>workspace_path.
       if \<not> (case sh_metadata (ie_host ie) workspace_path of Inl _ \<Rightarrow> False | Inr md \<Rightarrow> md_is_dir md)
       then Inl (Config [Lit ''workspace '', Disp workspace_path, Lit '' is not a directory''])
       else if ie_symlink ie (in_config_path options)
       then Inl (Config [Lit ''configuration '', Disp (in_config_path options),
                         Lit '' must not be a symbolic link''])
       else if (fs (in_config_path options) \<noteq> None \<or> ie_other ie (in_config_path options)) \<and> \<not> in_force options
       then Inl (Config [Lit ''configuration '', Disp (in_config_path options),
                         Lit '' already exists; use --force to replace it''])
       else Inr (command, workspace_path))))))"

definition init_token :: "init_env \<Rightarrow> init_options \<Rightarrow> files \<Rightarrow> files \<times> (error + bool)" where
  "init_token ie options fs =
     (let path = in_token_path options
      in if fs path \<noteq> None \<or> ie_other ie path
         then (fs, rbind (snd (load_token_file (open_file ie fs) path)) (\<lambda>_. Inr False))
         else case write_private_file (ie_missing ie) (ie_token_write ie) path (ie_random ie @ [LF]) fs of
                (fs', r) \<Rightarrow> (fs', rbind r (\<lambda>_. Inr True)))"

definition init_config :: "init_env \<Rightarrow> init_options \<Rightarrow> generated_config \<Rightarrow> files \<Rightarrow> files \<times> (error + unit)" where
  "init_config ie options gen fs =
     (case rbind (map_err (\<lambda>e. Config [Lit ''cannot serialize generated configuration: '', Disp e])
                    (ie_print ie gen))
             (\<lambda>text. rbind (parse_config ie text) (\<lambda>_. Inr text)) of
        Inl e \<Rightarrow> (fs, Inl e)
      | Inr text \<Rightarrow>
          (case (if in_force options
                 then replace_private_file (ie_missing ie) (ie_replace ie) (in_config_path options) text fs
                 else write_private_file (ie_missing ie) (ie_config_write ie) (in_config_path options) text fs) of
             (fs', Inl e) \<Rightarrow> (fs', Inl e)
           | (fs', Inr _) \<Rightarrow> (fs', rbind (config_load ie (in_config_path options) fs') (\<lambda>_. Inr ()))))"

definition initialize_server :: "init_env \<Rightarrow> init_options \<Rightarrow> files \<Rightarrow> files \<times> (error + init_report)" where
  "initialize_server ie options fs =
     (case check_init ie options fs of
        Inl e \<Rightarrow> (fs, Inl e)
      | Inr (command, workspace_path) \<Rightarrow>
          (case init_token ie options fs of
             (fs1, Inl e) \<Rightarrow> (fs1, Inl e)
           | (fs1, Inr created) \<Rightarrow>
               (case init_config ie options (generated options command workspace_path) fs1 of
                  (fs2, Inl e) \<Rightarrow> (fs2, Inl e)
                | (fs2, Inr _) \<Rightarrow>
                    (fs2, Inr \<lparr>ir_config_path = in_config_path options, ir_token_path = in_token_path options,
                             ir_token_created = created, ir_command = command,
                             ir_workspace_path = workspace_path\<rparr>))))"

section \<open>What the writes do to the files\<close>

lemma write_private_file_Inr:
  "write_private_file missing wa path contents fs = (fs', Inr u) \<Longrightarrow>
     fs path = None \<and> fs' = fs(path \<mapsto> \<lparr>sf_contents = contents, sf_mode = PRIVATE_FILE, sf_directory = False\<rparr>)"
  by (auto simp: write_private_file_def set_private_file_permissions_def
      split: option.splits sum.splits if_splits prod.splits)

lemma write_private_file_Inl:
  "write_private_file missing wa path contents fs = (fs', Inl e) \<Longrightarrow>
     fs' = fs \<or> fs path = None \<and> (\<exists>c. fs' = fs(path \<mapsto> \<lparr>sf_contents = c, sf_mode = PRIVATE_FILE, sf_directory = False\<rparr>))"
  by (auto simp: write_private_file_def set_private_file_permissions_def
      split: option.splits sum.splits if_splits prod.splits)

lemma path_join_dot_inject:
  "path_join parent (CHR ''.'' # a) = path_join parent (CHR ''.'' # b) \<longleftrightarrow> a = b"
  by (simp add: path_join_def)

lemma sibling_paths_differ:
  assumes "sibling_path path ''new'' u = Inr temporary" and "sibling_path path ''old'' v = Inr backup"
  shows "temporary \<noteq> backup"
  using assms by (auto simp: sibling_path_def path_join_dot_inject split: option.splits)

text \<open>
  The two renames, from the state in which the original and the new file stand side by side.
\<close>

lemma swap_files_Inr:
  assumes "swap_files missing ra path temporary backup fs = (fs', Inr u)"
    and "fs path = Some original" and "fs temporary = Some new_file" and "fs backup = None"
    and "path \<noteq> temporary" and "temporary \<noteq> backup"
  shows "fs' = fs(path \<mapsto> new_file, temporary := None)"
proof -
  from assms(2,4) have "path \<noteq> backup" by auto
  with assms have "ra_backup ra = None" "ra_rename ra = None" "ra_remove ra = None"
    by (simp_all add: swap_files_def rename_file_def remove_file_def split: option.splits)
  with assms \<open>path \<noteq> backup\<close> show ?thesis
    by (cases "sf_directory original") (auto simp: swap_files_def rename_file_def remove_file_def fun_upd_twist)
qed

lemma swap_files_Inl:
  assumes "swap_files missing ra path temporary backup fs = (fs', Inl e)"
    and "fs path = Some original" and "fs temporary = Some new_file" and "fs backup = None"
    and "path \<noteq> temporary" and "temporary \<noteq> backup"
  shows "(fs' path = Some original \<or> fs' backup = Some original) \<and>
    (\<forall>q. q \<notin> {path, temporary, backup} \<longrightarrow> fs' q = fs q)"
proof -
  from assms(2,4) have "path \<noteq> backup" by auto
  with assms show ?thesis
    by (cases "ra_backup ra"; cases "ra_rename ra"; cases "ra_restore ra"; cases "ra_cleanup ra"; cases "ra_remove ra";
        cases "sf_directory original"; cases "sf_directory new_file")
      (auto simp: swap_files_def rename_file_def remove_file_def)
qed

lemma replace_private_file_Inr:
  assumes "replace_private_file missing ra path contents fs = (fs', Inr u)"
  obtains original temporary backup fs1 where "fs path = Some original"
    "sibling_path path ''new'' (ra_new ra) = Inr temporary" "sibling_path path ''old'' (ra_old ra) = Inr backup"
    "write_private_file missing (ra_write ra) temporary contents (fs(path \<mapsto> original\<lparr>sf_mode := PRIVATE_FILE\<rparr>)) = (fs1, Inr ())"
    "swap_files missing ra path temporary backup fs1 = (fs', Inr ())"
  using assms
  by (auto simp: replace_private_file_def set_private_file_permissions_def
      split: option.splits sum.splits prod.splits)

section \<open>Which files an operation touches\<close>

text \<open>
  The contract of an operation on files that its callers rely on, whether it succeeds or fails: only the
  named paths change.
\<close>

locale file_operation =
  fixes operation :: "files \<Rightarrow> files \<times> (error + 'a)" and touched :: "string set"
  assumes confined: "operation fs = (fs', r) \<Longrightarrow> q \<notin> touched \<Longrightarrow> fs' q = fs q"
begin

lemma untouched: "q \<notin> touched \<Longrightarrow> fst (operation fs) q = fs q"
  by (cases "operation fs") (auto dest: confined)

text \<open>A caller that goes on from the files the operation left.\<close>

lemma continued:
  assumes "\<And>fs' r. \<lbrakk>operation fs = (fs', r)\<rbrakk> \<Longrightarrow> fst (k fs' r) q = fs' q" and "q \<notin> touched"
  shows "fst (case operation fs of (fs', r) \<Rightarrow> k fs' r) q = fs q"
  using assms by (cases "operation fs") (auto simp: confined)

end

interpretation permissions_op: file_operation "set_private_file_permissions missing answer path" "{path}"
  for missing answer path
  by unfold_locales (auto simp: set_private_file_permissions_def split: option.splits)

interpretation write_op: file_operation "write_private_file missing wa path contents" "{path}"
  for missing wa path contents
proof
  fix fs fs' r q
  assume run: "write_private_file missing wa path contents fs = (fs', r)" and q: "q \<notin> {path}"
  show "fs' q = fs q"
  proof (cases r)
    case (Inl e)
    with write_private_file_Inl [of missing wa path contents fs fs' e] run q show ?thesis by auto
  next
    case (Inr u)
    with write_private_file_Inr [of missing wa path contents fs fs' u] run q show ?thesis by auto
  qed
qed

lemma rename_file_elsewhere: "rename_file missing answer old new fs = (fs', e) \<Longrightarrow> q \<notin> {old, new} \<Longrightarrow> fs' q = fs q"
  by (auto simp: rename_file_def split: option.splits)

lemma remove_file_elsewhere: "remove_file missing answer path fs = (fs', e) \<Longrightarrow> q \<noteq> path \<Longrightarrow> fs' q = fs q"
  by (auto simp: remove_file_def split: option.splits if_splits)

interpretation swap_op: file_operation "swap_files missing ra path temporary backup" "{path, temporary, backup}"
  for missing ra path temporary backup
proof
  fix fs fs' r q
  assume run: "swap_files missing ra path temporary backup fs = (fs', r)" and q: "q \<notin> {path, temporary, backup}"
  obtain fs1 e1 where 1: "rename_file missing (ra_backup ra) path backup fs = (fs1, e1)" by fastforce
  obtain fs2 e2 where 2: "rename_file missing (ra_rename ra) temporary path fs1 = (fs2, e2)" by fastforce
  obtain fs3 e3 where 3: "rename_file missing (ra_restore ra) backup path fs2 = (fs3, e3)" by fastforce
  obtain fs4 e4 where 4: "remove_file missing (ra_remove ra) backup fs2 = (fs4, e4)" by fastforce
  have same: "fs1 q = fs q" "fs2 q = fs q" "fs3 q = fs q" "fs4 q = fs q"
    using q rename_file_elsewhere [OF 1] rename_file_elsewhere [OF 2] rename_file_elsewhere [OF 3]
      remove_file_elsewhere [OF 4] by auto
  have cleaned: "fst (remove_file missing (ra_cleanup ra) temporary gs) q = gs q" for gs
    using q remove_file_elsewhere [of missing "ra_cleanup ra" temporary gs]
    by (cases "remove_file missing (ra_cleanup ra) temporary gs") auto
  have "fst (swap_files missing ra path temporary backup fs) q = fs q"
    by (simp add: swap_files_def 1 2 3 4 same cleaned split: option.split)
  with run show "fs' q = fs q" by simp
qed

definition replaced_paths :: "replace_answers \<Rightarrow> string \<Rightarrow> string set" where
  "replaced_paths ra path =
     {q. q = path \<or> sibling_path path ''new'' (ra_new ra) = Inr q \<or> sibling_path path ''old'' (ra_old ra) = Inr q}"

interpretation replace_op: file_operation "replace_private_file missing ra path contents" "replaced_paths ra path"
  for missing ra path contents
proof
  fix fs fs' r q
  assume run: "replace_private_file missing ra path contents fs = (fs', r)" and q: "q \<notin> replaced_paths ra path"
  obtain fs1 r1 where 1: "set_private_file_permissions missing (ra_permissions ra) path fs = (fs1, r1)" by fastforce
  have same1: "fs1 q = fs q" using permissions_op.confined [OF 1] q by (simp add: replaced_paths_def)
  have step: "fst (case write_private_file missing (ra_write ra) temporary contents fs1 of
        (fs2, Inl e) \<Rightarrow> (fs2, Inl e) | (fs2, Inr _) \<Rightarrow> swap_files missing ra path temporary backup fs2) q = fs1 q"
    if "q \<notin> {path, temporary, backup}" for temporary backup
    using that swap_op.untouched [of q path temporary backup missing ra]
    by (intro write_op.continued) (auto split: sum.splits)
  have "fst (replace_private_file missing ra path contents fs) q = fs q"
    using q same1 step
    by (cases "sibling_path path ''new'' (ra_new ra)"; cases "sibling_path path ''old'' (ra_old ra)"; cases r1)
      (auto simp: replace_private_file_def 1 replaced_paths_def)
  with run show "fs' q = fs q" by simp
qed

text \<open>Whatever names are drawn, a replacement that succeeds changes two files only.\<close>

lemma replaced_files:
  assumes "replace_private_file missing ra path contents fs = (fs', Inr u)"
  shows "fs' path \<in> {None, Some \<lparr>sf_contents = contents, sf_mode = PRIVATE_FILE, sf_directory = False\<rparr>}"
    and "\<lbrakk>q \<noteq> path; sibling_path path ''old'' (ra_old ra) \<noteq> Inr q; fs q \<noteq> None\<rbrakk> \<Longrightarrow> fs' q = fs q"
proof -
  obtain original temporary backup fs1 where r: "fs path = Some original"
      "sibling_path path ''new'' (ra_new ra) = Inr temporary" "sibling_path path ''old'' (ra_old ra) = Inr backup"
      "write_private_file missing (ra_write ra) temporary contents (fs(path \<mapsto> original\<lparr>sf_mode := PRIVATE_FILE\<rparr>)) = (fs1, Inr ())"
      "swap_files missing ra path temporary backup fs1 = (fs', Inr ())"
    using assms by (rule replace_private_file_Inr)
  have fs1: "fs1 = (fs(path \<mapsto> original\<lparr>sf_mode := PRIVATE_FILE\<rparr>))(temporary \<mapsto> \<lparr>sf_contents = contents, sf_mode = PRIVATE_FILE, sf_directory = False\<rparr>)"
    and fresh: "temporary \<noteq> path" "fs temporary = None"
    using write_private_file_Inr [OF r(4)] by (auto split: if_splits)
  have "temporary \<noteq> backup" using sibling_paths_differ r(2,3) .
  with r(5) fresh have "fs' = fs1(backup := None, path \<mapsto> \<lparr>sf_contents = contents, sf_mode = PRIVATE_FILE, sf_directory = False\<rparr>,
      temporary := None, backup := None)"
    by (auto simp: swap_files_def rename_file_def remove_file_def fs1 fun_eq_iff
        split: option.splits prod.splits if_splits)
  then show "fs' path \<in> {None, Some \<lparr>sf_contents = contents, sf_mode = PRIVATE_FILE, sf_directory = False\<rparr>}"
    and "\<lbrakk>q \<noteq> path; sibling_path path ''old'' (ra_old ra) \<noteq> Inr q; fs q \<noteq> None\<rbrakk> \<Longrightarrow> fs' q = fs q"
    using fresh r(3) fs1 by auto
qed

lemma replace_private_file_missing:
  "fs path = None \<Longrightarrow> \<exists>e. replace_private_file missing ra path contents fs = (fs, Inl e)"
  by (simp add: replace_private_file_def set_private_file_permissions_def split: option.splits)

lemma write_private_file_bare:
  "path_parent path = Some [] \<Longrightarrow>
     write_private_file missing wa path contents fs = (fs, Inl (cannot ''cannot set permissions on '' [] missing))"
  by (simp add: write_private_file_def prepare_parent_def)

section \<open>The escaped argument\<close>

text \<open>One pass over the text: what each character becomes.\<close>

definition escaped :: "char \<Rightarrow> string" where
  "escaped c =
     (if c = BACKSLASH then [BACKSLASH, BACKSLASH]
      else if c = QUOTE then [BACKSLASH, QUOTE]
      else if c = PERCENT then [PERCENT, PERCENT]
      else [c])"

lemma special_chars_distinct [simp]:
  "BACKSLASH \<noteq> QUOTE" "QUOTE \<noteq> BACKSLASH" "PERCENT \<noteq> QUOTE" "QUOTE \<noteq> PERCENT"
  "PERCENT \<noteq> BACKSLASH" "BACKSLASH \<noteq> PERCENT"
  by (simp_all add: BACKSLASH_def QUOTE_def PERCENT_def)

lemma replace_char_Nil [simp]: "replace_char c w [] = []"
  by (simp add: replace_char_def)

lemma replace_char_Cons [simp]:
  "replace_char c w (x # xs) = (if x = c then w else [x]) @ replace_char c w xs"
  by (simp add: replace_char_def)

lemma replace_char_append [simp]: "replace_char c w (xs @ ys) = replace_char c w xs @ replace_char c w ys"
  by (simp add: replace_char_def)

lemma replacements_one_pass:
  "replace_char PERCENT [PERCENT, PERCENT]
     (replace_char QUOTE [BACKSLASH, QUOTE] (replace_char BACKSLASH [BACKSLASH, BACKSLASH] path))
   = concat (map escaped path)"
  by (induction path) (auto simp: escaped_def)

lemma escaped_injective: "escaped c @ xs = escaped d @ ys \<Longrightarrow> c = d \<and> xs = ys"
  by (auto simp: escaped_def split: if_splits)

lemma escaped_not_empty: "escaped c \<noteq> []"
  by (simp add: escaped_def)

lemma concat_escaped_injective: "concat (map escaped p) = concat (map escaped q) \<Longrightarrow> p = q"
proof (induction p arbitrary: q)
  case Nil
  then show ?case by (cases q) (simp_all add: escaped_not_empty)
next
  case (Cons c p)
  then show ?case
  proof (cases q)
    case Nil
    with Cons.prems show ?thesis by (simp add: escaped_not_empty)
  next
    case (Cons d q')
    with Cons.prems escaped_injective have "c = d" "concat (map escaped p) = concat (map escaped q')" by fastforce+
    with Cons Cons.IH show ?thesis by simp
  qed
qed

lemma escape_systemd_argument_Inr:
  "escape_systemd_argument path = Inr argument \<longleftrightarrow>
     argument = QUOTE # concat (map escaped path) @ [QUOTE] \<and> valid_text path \<and>
     set path \<inter> {LF, CR, CHR 0x00} = {}"
  by (auto simp: escape_systemd_argument_def replacements_one_pass)

lemma set_escaped: "set (escaped c) \<subseteq> {c, BACKSLASH}"
  by (simp add: escaped_def)

text \<open>
  C38. The three replacements of the executable path amount to one pass, in which a backslash and a quote get
  one backslash and a percent sign is doubled, so nothing is escaped twice; the argument stays on its line of the
  unit, and two executables never give the same argument. A path that is not text or has a line
  break or a NUL byte is refused, and no other.
\<close>

theorem service_argument_unambiguous:
  assumes "escape_systemd_argument path = Inr argument"
  shows "argument = QUOTE # concat (map escaped path) @ [QUOTE] \<and> set argument \<inter> {LF, CR, CHR 0x00} = {} \<and>
    valid_text path \<and> (\<forall>path'. escape_systemd_argument path' = Inr argument \<longrightarrow> path' = path)"
proof -
  from assms have argument: "argument = QUOTE # concat (map escaped path) @ [QUOTE]" "valid_text path"
    and clean: "set path \<inter> {LF, CR, CHR 0x00} = {}"
    by (simp_all add: escape_systemd_argument_Inr)
  have "set argument \<subseteq> insert QUOTE (insert BACKSLASH (set path))"
    using set_escaped by (fastforce simp: argument(1))
  then have "set argument \<inter> {LF, CR, CHR 0x00} = {}"
    using clean by (auto simp: QUOTE_def BACKSLASH_def LF_def CR_def)
  with argument show ?thesis
    using concat_escaped_injective by (auto simp: escape_systemd_argument_Inr)
qed

definition example_executable :: string where
  "example_executable = ''/opt/100'' @ [PERCENT, CHR '' '', QUOTE, BACKSLASH] @ ''x''"

theorem service_argument_unambiguous_witness:
  "\<exists>argument. escape_systemd_argument example_executable = Inr argument \<and>
     argument = QUOTE # ''/opt/100'' @ [PERCENT, PERCENT, CHR '' '', BACKSLASH, QUOTE, BACKSLASH, BACKSLASH] @ ''x'' @ [QUOTE]"
proof -
  have "valid_text example_executable"
    by (rule ascii_valid_text) (simp add: example_executable_def PERCENT_def QUOTE_def BACKSLASH_def)
  moreover have "set example_executable \<inter> {LF, CR, CHR 0x00} = {}"
    by (simp add: example_executable_def LF_def CR_def PERCENT_def QUOTE_def BACKSLASH_def)
  ultimately obtain argument where r: "escape_systemd_argument example_executable = Inr argument"
    by (simp add: escape_systemd_argument_Inr)
  then have "argument = QUOTE # concat (map escaped example_executable) @ [QUOTE]"
    using service_argument_unambiguous [OF r] by blast
  with r show ?thesis
    by (auto simp: example_executable_def escaped_def) (simp_all add: QUOTE_def BACKSLASH_def PERCENT_def)
qed

section \<open>Properties\<close>

text \<open>
  C34. Replacing a private file never loses the original: when it succeeds, the new contents with a private
  mode are the only change, and when it fails at any step the original contents are still in the
  file or in its backup.
\<close>

theorem replacement_keeps_original:
  assumes "fs path = Some original" and "sibling_path path ''old'' (ra_old ra) = Inr backup"
    and "fs backup = None"
    and "replace_private_file missing ra path contents fs = (fs', r)"
  shows "case r of
      Inr _ \<Rightarrow> fs' = fs(path \<mapsto> \<lparr>sf_contents = contents, sf_mode = PRIVATE_FILE, sf_directory = False\<rparr>)
    | Inl _ \<Rightarrow> sf_contents original \<in> sf_contents ` (set_option (fs' path) \<union> set_option (fs' backup))"
proof -
  let ?fs1 = "fs(path \<mapsto> original\<lparr>sf_mode := PRIVATE_FILE\<rparr>)"
  have pb: "path \<noteq> backup" using assms(1,3) by auto
  consider e where "r = Inl e" "fs' = fs \<or> fs' = ?fs1"
    | temporary fs2 e where "sibling_path path ''new'' (ra_new ra) = Inr temporary"
        "write_private_file missing (ra_write ra) temporary contents ?fs1 = (fs2, Inl e)" "fs' = fs2" "r = Inl e"
    | temporary fs2 where "sibling_path path ''new'' (ra_new ra) = Inr temporary"
        "write_private_file missing (ra_write ra) temporary contents ?fs1 = (fs2, Inr ())"
        "swap_files missing ra path temporary backup fs2 = (fs', r)"
    using assms by (auto simp: replace_private_file_def set_private_file_permissions_def
        split: option.splits sum.splits prod.splits)
  then show ?thesis
  proof cases
    case 1
    then show ?thesis using assms(1) by auto
  next
    case 2
    have "fs' path = ?fs1 path"
      using write_private_file_Inl [OF 2(2)] 2(3) by (auto split: if_splits)
    with 2(4) show ?thesis by simp
  next
    case 3
    let ?new = "\<lparr>sf_contents = contents, sf_mode = PRIVATE_FILE, sf_directory = False\<rparr>"
    have fs2: "fs2 = ?fs1(temporary \<mapsto> ?new)" and tp: "path \<noteq> temporary" and fresh: "fs temporary = None"
      using write_private_file_Inr [OF 3(2)] by (auto split: if_splits)
    have tb: "temporary \<noteq> backup" using sibling_paths_differ 3(1) assms(2) .
    have st: "fs2 path = Some (original\<lparr>sf_mode := PRIVATE_FILE\<rparr>)" "fs2 temporary = Some ?new" "fs2 backup = None"
      using fs2 tp tb pb assms(3) by auto
    show ?thesis
    proof (cases r)
      case (Inl e)
      with swap_files_Inl [OF 3(3) [unfolded Inl] st tp tb] show ?thesis by auto
    next
      case (Inr u)
      with swap_files_Inr [OF 3(3) [unfolded Inr] st tp tb] fs2 fresh tp show ?thesis
        by (auto simp: fun_eq_iff)
    qed
  qed
qed

definition no_errors :: write_answers where
  "no_errors = \<lparr>wa_parent_exists = True, wa_create_dir = None, wa_dir_permissions = None, wa_open = None,
     wa_write = None, wa_permissions = None\<rparr>"

definition example_replace :: replace_answers where
  "example_replace = \<lparr>ra_permissions = None, ra_new = ''1'', ra_old = ''2'', ra_write = no_errors, ra_backup = None,
     ra_rename = Some ''busy'', ra_restore = Some ''busy'', ra_cleanup = None, ra_remove = None\<rparr>"

definition example_files :: files where
  "example_files = [''/c'' \<mapsto> \<lparr>sf_contents = ''a'', sf_mode = PRIVATE_FILE, sf_directory = False\<rparr>]"

lemma example_lossy: "to_string_lossy ''c'' = ''c''"
  by (intro to_string_lossy_valid ascii_valid_text) simp

lemma example_siblings [simp]:
  "sibling_path ''/c'' ''new'' ''1'' = Inr ''/.c.new-1''" "sibling_path ''/c'' ''old'' ''2'' = Inr ''/.c.old-2''"
  "path_parent ''/c'' = Some ''/''" "path_parent ''/.c.new-1'' = Some ''/''"
  by (simp_all add: sibling_path_def path_parent_def path_file_name_def normal_components_def example_lossy
      path_join_def is_absolute_def)

theorem replacement_keeps_original_witness:
  "\<exists>fs' e. replace_private_file ''gone'' example_replace ''/c'' ''b'' example_files = (fs', Inl e) \<and>
     fs' ''/c'' = None \<and> ''a'' \<in> sf_contents ` set_option (fs' ''/.c.old-2'')"
proof -
  obtain fs' e where run: "replace_private_file ''gone'' example_replace ''/c'' ''b'' example_files = (fs', Inl e)"
    and gone: "fs' ''/c'' = None"
    by (simp add: replace_private_file_def set_private_file_permissions_def write_private_file_def prepare_parent_def
        swap_files_def rename_file_def remove_file_def example_replace_def no_errors_def example_files_def)
  have "''a'' \<in> sf_contents ` (set_option (fs' ''/c'') \<union> set_option (fs' ''/.c.old-2''))"
    using replacement_keeps_original [OF _ _ _ run, of "\<lparr>sf_contents = ''a'', sf_mode = PRIVATE_FILE, sf_directory = False\<rparr>" "''/.c.old-2''"]
    by (simp add: example_files_def example_replace_def)
  with run gone show ?thesis by simp
qed

lemma trim_rev_bare: "CHR ''/'' \<notin> set cs \<Longrightarrow> trim_rev cs = cs"
  by (cases cs rule: trim_rev.cases) auto

lemma parent_bare:
  assumes "CHR ''/'' \<notin> set name"
  shows "rev (trim_rev (dropWhile (\<lambda>c. c \<noteq> CHR ''/'') (trim_rev (rev name)))) = []"
proof -
  have none: "dropWhile (\<lambda>c. c \<noteq> CHR ''/'') (rev name) = []" using assms by auto
  have same: "trim_rev (rev name) = rev name" by (rule trim_rev_bare) (use assms in simp)
  show ?thesis unfolding same none by simp
qed

text \<open>
  A bare file name cannot be written: its parent is the empty path, whose permissions cannot be set, so
  initialisation with a file of the current directory given by its name alone fails.
\<close>

theorem bare_file_name_refused:
  assumes "CHR ''/'' \<notin> set name" and "name \<noteq> []"
  shows "write_private_file missing wa name contents fs
    = (fs, Inl (cannot ''cannot set permissions on '' [] missing))"
proof -
  have "split_on (CHR ''/'') name = [name]" using assms(1) by (induction name) auto
  then have "normal_components name = [name]" using assms(2) by (simp add: normal_components_def)
  moreover have "\<not> is_absolute name" using assms by (cases name) (auto simp: is_absolute_def)
  ultimately have "path_parent name = Some []" using parent_bare [OF assms(1)] by (simp add: path_parent_def)
  then show ?thesis by (rule write_private_file_bare)
qed

theorem bare_file_name_refused_witness:
  "write_private_file ''gone'' no_errors ''config.toml'' ''a'' (\<lambda>_. None)
     = (\<lambda>_. None, Inl (cannot ''cannot set permissions on '' [] ''gone''))"
  by (rule bare_file_name_refused) simp_all

end
