(* ===== verification/Acp_Init.thy ===== *)
theory Acp_Init
  imports Acp_Setup
begin

text \<open>
  What \<open>initialize_server\<close> of \<^verbatim>\<open>setup.rs\<close> leaves behind: the configuration and the token that
  the server then loads, and the cases in which it refuses.
\<close>

section \<open>The steps\<close>

lemma init_token_Inr:
  assumes "init_token ie options fs = (fs', Inr created)"
  shows "if created
    then fs (in_token_path options) = None \<and>
         fs' = fs(in_token_path options \<mapsto> \<lparr>sf_contents = ie_random ie @ [LF], sf_mode = PRIVATE_FILE, sf_directory = False\<rparr>)
    else fs' = fs \<and> is_ok (snd (load_token_file (open_file ie fs) (in_token_path options)))"
  using assms write_private_file_Inr
  by (fastforce simp: init_token_def Let_def rbind_Inr_iff split: if_splits prod.splits)

interpretation token_op: file_operation "init_token ie options" "{in_token_path options}" for ie options
proof
  fix fs fs' r q
  assume run: "init_token ie options fs = (fs', r)" and q: "q \<notin> {in_token_path options}"
  have "fst (init_token ie options fs) q = fs q"
    using q by (auto simp: init_token_def Let_def intro!: write_op.continued)
  with run show "fs' q = fs q" by simp
qed

definition config_paths :: "init_env \<Rightarrow> init_options \<Rightarrow> string set" where
  "config_paths ie options =
     (if in_force options then replaced_paths (ie_replace ie) (in_config_path options) else {in_config_path options})"

interpretation config_op: file_operation "init_config ie options gen" "config_paths ie options" for ie options gen
proof
  fix fs fs' r q
  assume run: "init_config ie options gen fs = (fs', r)" and q: "q \<notin> config_paths ie options"
  have "fst (init_config ie options gen fs) q = fs q"
    using q
    by (cases "in_force options")
      (auto simp: init_config_def config_paths_def split: sum.splits
        intro!: write_op.continued replace_op.continued)
  with run show "fs' q = fs q" by simp
qed

text \<open>
  Initialisation, successful or not, changes no file but the token, the configuration and, when it replaces
  one, the two files next to it that carry fresh names.
\<close>

interpretation init_op: file_operation "initialize_server ie options" "insert (in_token_path options) (config_paths ie options)"
  for ie options
proof
  fix fs fs' r q
  assume run: "initialize_server ie options fs = (fs', r)" and q: "q \<notin> insert (in_token_path options) (config_paths ie options)"
  have "fst (initialize_server ie options fs) q = fs q"
  proof (cases "check_init ie options fs")
    case (Inr paths)
    obtain command workspace where [simp]: "paths = (command, workspace)" by (cases paths)
    have "fst (case init_config ie options gen fs1 of (fs2, Inl e) \<Rightarrow> (fs2, Inl e) | (fs2, Inr _) \<Rightarrow> (fs2, Inr report)) q = fs1 q"
      for gen fs1 and report :: init_report
      using q by (intro config_op.continued) (auto split: sum.splits)
    then show ?thesis
      using q by (simp add: initialize_server_def Inr)
        (rule token_op.continued, auto split: sum.splits)
  qed (simp add: initialize_server_def)
  with run show "fs' q = fs q" by simp
qed

lemma init_config_Inr:
  assumes "init_config ie options gen fs = (fs', Inr u)"
  obtains "text" fs1 config where "ie_print ie gen = Inr text" "is_ok (parse_config ie text)"
    "(if in_force options
      then replace_private_file (ie_missing ie) (ie_replace ie) (in_config_path options) text fs
      else write_private_file (ie_missing ie) (ie_config_write ie) (in_config_path options) text fs) = (fs', Inr ())"
    "config_load ie (in_config_path options) fs' = Inr config"
  using assms
  by (auto simp: init_config_def rbind_Inr_iff rbind_Inl_iff split: sum.splits prod.splits)

lemma open_file_cong:
  assumes "fs q = fs' q"
  shows "open_file ie fs q = open_file ie fs' q"
  unfolding open_file_def assms ..

lemma load_token_file_cong:
  assumes "fs q = fs' q"
  shows "load_token_file (open_file ie fs) q = load_token_file (open_file ie fs') q"
  unfolding load_token_file_def read_token_file_def open_file_cong [of fs q fs', OF assms] ..

lemma config_load_present: "config_load ie path fs = Inr config \<Longrightarrow> fs path \<noteq> None"
  by (auto simp: config_load_def read_to_string_def open_file_def rbind_Inr_iff split: option.splits)

lemma config_load_valid: "config_load ie path fs = Inr config \<Longrightarrow> validate (ie_url_parse ie) config = Inr ()"
  by (auto simp: config_load_def parse_config_def rbind_Inr_iff)

lemma init_config_files:
  assumes "init_config ie options gen fs = (fs', Inr u)"
  obtains "text" config where "ie_print ie gen = Inr text"
    "fs' (in_config_path options) = Some \<lparr>sf_contents = text, sf_mode = PRIVATE_FILE, sf_directory = False\<rparr>"
    "config_load ie (in_config_path options) fs' = Inr config"
    "\<And>q. \<lbrakk>q \<noteq> in_config_path options; fs q \<noteq> None;
          sibling_path (in_config_path options) ''old'' (ra_old (ie_replace ie)) \<noteq> Inr q\<rbrakk> \<Longrightarrow> fs' q = fs q"
proof -
  obtain written config where r: "ie_print ie gen = Inr written"
      "(if in_force options
        then replace_private_file (ie_missing ie) (ie_replace ie) (in_config_path options) written fs
        else write_private_file (ie_missing ie) (ie_config_write ie) (in_config_path options) written fs) = (fs', Inr ())"
      "config_load ie (in_config_path options) fs' = Inr config"
    using assms by (rule init_config_Inr) blast
  have present: "fs' (in_config_path options) \<noteq> None" using config_load_present r(3) .
  show thesis
  proof (cases "in_force options")
    case True
    then have "replace_private_file (ie_missing ie) (ie_replace ie) (in_config_path options) written fs = (fs', Inr ())"
      using r(2) by simp
    note f = replaced_files [OF this]
    show thesis using that [OF r(1) _ r(3)] f present by auto
  next
    case False
    then have "write_private_file (ie_missing ie) (ie_config_write ie) (in_config_path options) written fs = (fs', Inr ())"
      using r(2) by simp
    note f = write_private_file_Inr [OF this]
    show thesis using that [OF r(1) _ r(3)] f by auto
  qed
qed

lemma initialize_server_Inr:
  assumes "initialize_server ie options fs = (fs', Inr report)"
  obtains fs1 where "check_init ie options fs = Inr (ir_command report, ir_workspace_path report)"
    "init_token ie options fs = (fs1, Inr (ir_token_created report))"
    "init_config ie options (generated options (ir_command report) (ir_workspace_path report)) fs1 = (fs', Inr ())"
  using assms by (auto simp: initialize_server_def split: sum.splits prod.splits)

lemma check_init_Inr:
  "check_init ie options fs = Inr (command, workspace) \<Longrightarrow>
     (\<exists>md. sh_metadata (ie_host ie) workspace = Inr md \<and> md_is_dir md) \<and>
     (fs (in_config_path options) \<noteq> None \<longrightarrow> in_force options)"
  by (auto simp: check_init_def rbind_Inr_iff split: if_splits sum.splits)

lemma initialize_server_files:
  assumes "initialize_server ie options fs = (fs', Inr report)"
    and "in_token_path options \<noteq> in_config_path options"
    and "sibling_path (in_config_path options) ''old'' (ra_old (ie_replace ie)) \<noteq> Inr (in_token_path options)"
  shows "(\<exists>text. ie_print ie (generated options (ir_command report) (ir_workspace_path report)) = Inr text \<and>
      fs' (in_config_path options) = Some \<lparr>sf_contents = text, sf_mode = PRIVATE_FILE, sf_directory = False\<rparr>) \<and>
    (\<exists>config. config_load ie (in_config_path options) fs' = Inr config \<and>
      validate (ie_url_parse ie) config = Inr ()) \<and>
    (\<exists>md. sh_metadata (ie_host ie) (ir_workspace_path report) = Inr md \<and> md_is_dir md) \<and>
    (fs (in_config_path options) = None \<or> in_force options) \<and>
    (if ir_token_created report
     then fs (in_token_path options) = None \<and>
          fs' (in_token_path options) = Some \<lparr>sf_contents = ie_random ie @ [LF], sf_mode = PRIVATE_FILE, sf_directory = False\<rparr>
     else fs' (in_token_path options) = fs (in_token_path options) \<and>
          is_ok (snd (load_token_file (open_file ie fs') (in_token_path options)))) \<and>
    (\<forall>q. q \<notin> insert (in_token_path options) (config_paths ie options) \<longrightarrow> fs' q = fs q)"
proof -
  obtain fs1 where check: "check_init ie options fs = Inr (ir_command report, ir_workspace_path report)"
    and tok: "init_token ie options fs = (fs1, Inr (ir_token_created report))"
    and conf: "init_config ie options (generated options (ir_command report) (ir_workspace_path report)) fs1 = (fs', Inr ())"
    using assms(1) by (rule initialize_server_Inr)
  obtain written config where c: "ie_print ie (generated options (ir_command report) (ir_workspace_path report)) = Inr written"
      "fs' (in_config_path options) = Some \<lparr>sf_contents = written, sf_mode = PRIVATE_FILE, sf_directory = False\<rparr>"
      "config_load ie (in_config_path options) fs' = Inr config"
    and keep: "\<And>q. \<lbrakk>q \<noteq> in_config_path options; fs1 q \<noteq> None;
        sibling_path (in_config_path options) ''old'' (ra_old (ie_replace ie)) \<noteq> Inr q\<rbrakk> \<Longrightarrow> fs' q = fs1 q"
    using conf by (rule init_config_files) blast
  have token_kept: "fs' (in_token_path options) = fs1 (in_token_path options)"
    if "fs1 (in_token_path options) \<noteq> None" using keep assms(2,3) that by blast
  have "if ir_token_created report
     then fs (in_token_path options) = None \<and>
          fs' (in_token_path options) = Some \<lparr>sf_contents = ie_random ie @ [LF], sf_mode = PRIVATE_FILE, sf_directory = False\<rparr>
     else fs' (in_token_path options) = fs (in_token_path options) \<and>
          is_ok (snd (load_token_file (open_file ie fs') (in_token_path options)))"
  proof (cases "ir_token_created report")
    case True
    with init_token_Inr [OF tok] token_kept show ?thesis by simp
  next
    case False
    with init_token_Inr [OF tok] have f: "fs1 = fs" "is_ok (snd (load_token_file (open_file ie fs) (in_token_path options)))"
      by simp_all
    from f(2) have "fs (in_token_path options) \<noteq> None"
      by (auto simp: load_token_file_def read_token_file_def open_file_def split: option.splits)
    with token_kept f(1) have eq: "fs' (in_token_path options) = fs (in_token_path options)" by simp
    show ?thesis using False eq f(2) load_token_file_cong [of fs' "in_token_path options" fs, OF eq] by simp
  qed
  moreover have "(\<exists>md. sh_metadata (ie_host ie) (ir_workspace_path report) = Inr md \<and> md_is_dir md) \<and>
      (fs (in_config_path options) = None \<or> in_force options)"
    using check_init_Inr [OF check] by blast
  ultimately show ?thesis using c config_load_valid [OF c(3)] init_op.confined [OF assms(1)] by blast
qed

section \<open>Properties\<close>

text \<open>
  C35. After a successful initialisation whose token and configuration have different paths, and whose backup name is
  not the path of the token, the configuration file holds the text of the generated configuration with a private mode,
  that file loads and passes the validation, the workspace is a directory, an existing configuration was replaced only
  with \<open>--force\<close>, and the token file is either the one that was there, with the mode it had, which loads, or a new
  private one; no file changed but these and the two with fresh names next to a replaced configuration.
\<close>

theorem initialized_server_loads:
  assumes "initialize_server ie options fs = (fs', Inr report)"
    and "in_token_path options \<noteq> in_config_path options"
    and "sibling_path (in_config_path options) ''old'' (ra_old (ie_replace ie)) \<noteq> Inr (in_token_path options)"
  shows "(\<exists>text. ie_print ie (generated options (ir_command report) (ir_workspace_path report)) = Inr text \<and>
      fs' (in_config_path options) = Some \<lparr>sf_contents = text, sf_mode = PRIVATE_FILE, sf_directory = False\<rparr>) \<and>
    (\<exists>config. config_load ie (in_config_path options) fs' = Inr config \<and>
      validate (ie_url_parse ie) config = Inr ()) \<and>
    (\<exists>md. sh_metadata (ie_host ie) (ir_workspace_path report) = Inr md \<and> md_is_dir md) \<and>
    (fs (in_config_path options) = None \<or> in_force options) \<and>
    (if ir_token_created report
     then fs (in_token_path options) = None \<and>
          fs' (in_token_path options) = Some \<lparr>sf_contents = ie_random ie @ [LF], sf_mode = PRIVATE_FILE, sf_directory = False\<rparr>
     else fs' (in_token_path options) = fs (in_token_path options) \<and>
          is_ok (snd (load_token_file (open_file ie fs') (in_token_path options)))) \<and>
    (\<forall>q. q \<notin> insert (in_token_path options) (config_paths ie options) \<longrightarrow> fs' q = fs q)"
  using assms by (rule initialize_server_files)

definition example_host :: setup_host where
  "example_host = \<lparr>sh_var_os = (\<lambda>_. None), sh_canonicalize = Inr,
     sh_metadata = (\<lambda>p. Inr \<lparr>md_is_dir = (p = ''/w''), md_is_file = (p = ''/a''), md_mode = 0x1ED\<rparr>),
     sh_read_dir = (\<lambda>_. None)\<rparr>"

definition example_init :: init_env where
  "example_init = \<lparr>ie_host = example_host, ie_print = (\<lambda>_. Inr ''x''), ie_parse = (\<lambda>_. Inr example_config),
     ie_url_parse = (\<lambda>_. Inl []), ie_symlink = (\<lambda>_. False), ie_other = (\<lambda>_. False),
     ie_open = (\<lambda>_. None), ie_stat = (\<lambda>_. None), ie_read = (\<lambda>_. None),
     ie_random = ''ab'', ie_missing = ''gone'', ie_token_write = no_errors, ie_config_write = no_errors,
     ie_replace = example_replace\<rparr>"

definition example_options :: init_options where
  "example_options = \<lparr>in_config_path = ''/c'', in_token_path = ''/t'', in_agent_id = ''dev'', in_command = ''/a'',
     in_workspace_id = ''main'', in_workspace_path = ''/w'', in_pass_env = [''HOME''], in_client_env_allowlist = [],
     in_mcp_policy = Deny, in_force = False\<rparr>"

lemma example_token_parent [simp]: "path_parent ''/t'' = Some ''/''"
  by (simp add: path_parent_def normal_components_def is_absolute_def)

lemma example_initialized:
  "initialize_server example_init example_options (\<lambda>_. None)
     = ([''/t'' \<mapsto> \<lparr>sf_contents = ''ab'' @ [LF], sf_mode = PRIVATE_FILE, sf_directory = False\<rparr>,
         ''/c'' \<mapsto> \<lparr>sf_contents = ''x'', sf_mode = PRIVATE_FILE, sf_directory = False\<rparr>],
        Inr \<lparr>ir_config_path = ''/c'', ir_token_path = ''/t'', ir_token_created = True, ir_command = ''/a'',
             ir_workspace_path = ''/w''\<rparr>)"
proof -
  have "check_init example_init example_options (\<lambda>_. None) = Inr (''/a'', ''/w'')"
    by (simp add: check_init_def example_init_def example_options_def example_host_def id_pattern_def
        id_start_char_def id_char_def validate_id_def validate_environment_name_def resolve_executable_def
        is_absolute_def canonical_executable_def is_executable_def)
  moreover have "init_token example_init example_options (\<lambda>_. None)
      = ([''/t'' \<mapsto> \<lparr>sf_contents = ''ab'' @ [LF], sf_mode = PRIVATE_FILE, sf_directory = False\<rparr>], Inr True)"
    by (simp add: init_token_def example_init_def example_options_def write_private_file_def prepare_parent_def
        no_errors_def set_private_file_permissions_def)
  moreover have "parse_config example_init ''x'' = Inr example_config"
    by (simp add: parse_config_def example_init_def example_config_ok)
  then have "init_config example_init example_options gen [''/t'' \<mapsto> \<lparr>sf_contents = ''ab'' @ [LF], sf_mode = PRIVATE_FILE, sf_directory = False\<rparr>]
      = ([''/t'' \<mapsto> \<lparr>sf_contents = ''ab'' @ [LF], sf_mode = PRIVATE_FILE, sf_directory = False\<rparr>,
          ''/c'' \<mapsto> \<lparr>sf_contents = ''x'', sf_mode = PRIVATE_FILE, sf_directory = False\<rparr>], Inr ())" for gen
    by (simp add: init_config_def example_init_def example_options_def write_private_file_def prepare_parent_def
        no_errors_def set_private_file_permissions_def config_load_def read_to_string_def open_file_def ascii_valid_text)
  ultimately show ?thesis
    by (simp add: initialize_server_def example_options_def)
qed

theorem initialized_server_loads_witness:
  "\<exists>fs' report config. initialize_server example_init example_options (\<lambda>_. None) = (fs', Inr report) \<and>
     config_load example_init ''/c'' fs' = Inr config \<and>
     fs' ''/t'' = Some \<lparr>sf_contents = ''ab'' @ [LF], sf_mode = PRIVATE_FILE, sf_directory = False\<rparr>"
proof -
  have paths: "in_token_path example_options = ''/t''" "in_config_path example_options = ''/c''"
      "ra_old (ie_replace example_init) = ''2''" "ie_random example_init = ''ab''"
    by (simp_all add: example_options_def example_init_def example_replace_def)
  show ?thesis
    using initialized_server_loads [OF example_initialized] unfolding example_initialized paths by auto
qed

text \<open>
  One path for both files is not refused: with \<open>--force\<close> the initialisation can succeed, and the token, old or new, is
  overwritten with the configuration.
\<close>

lemma shared_path_loses_token:
  assumes "initialize_server ie options fs = (fs', Inr report)" and "in_token_path options = in_config_path options"
  shows "in_force options \<and>
    (\<exists>text mode. ie_print ie (generated options (ir_command report) (ir_workspace_path report)) = Inr text \<and>
       fs' (in_token_path options) = Some \<lparr>sf_contents = text, sf_mode = mode, sf_directory = False\<rparr>)"
proof -
  obtain fs1 where check: "check_init ie options fs = Inr (ir_command report, ir_workspace_path report)"
    and tok: "init_token ie options fs = (fs1, Inr (ir_token_created report))"
    and conf: "init_config ie options (generated options (ir_command report) (ir_workspace_path report)) fs1 = (fs', Inr ())"
    using assms(1) by (rule initialize_server_Inr)
  have "in_force options"
  proof (rule ccontr)
    assume force: "\<not> in_force options"
    then have none: "fs (in_config_path options) = None" using check_init_Inr [OF check] by blast
    obtain written where "write_private_file (ie_missing ie) (ie_config_write ie) (in_config_path options) written fs1 = (fs', Inr ())"
      using conf force by (auto elim: init_config_Inr)
    from write_private_file_Inr [OF this] have "fs1 (in_config_path options) = None" by simp
    with init_token_Inr [OF tok] none assms(2) show False
      by (auto simp: load_token_file_def read_token_file_def open_file_def is_ok_def split: if_splits option.splits)
  qed
  moreover obtain written where "ie_print ie (generated options (ir_command report) (ir_workspace_path report)) = Inr written"
      "fs' (in_config_path options) = Some \<lparr>sf_contents = written, sf_mode = PRIVATE_FILE, sf_directory = False\<rparr>"
    using conf by (rule init_config_files) blast
  ultimately show ?thesis using assms(2) by auto
qed

text \<open>
  With \<open>--force\<close> and no configuration to replace, initialisation fails: replacing starts with the
  permissions of the file that is not there.
\<close>

theorem forced_init_needs_configuration:
  assumes "in_force options" and "fs (in_config_path options) = None"
    and "in_token_path options \<noteq> in_config_path options"
  shows "\<exists>e. snd (initialize_server ie options fs) = Inl e"
proof (cases "snd (initialize_server ie options fs)")
  case (Inr report)
  then obtain fs' where "initialize_server ie options fs = (fs', Inr report)" by (cases "initialize_server ie options fs") simp
  then obtain fs1 where tok: "init_token ie options fs = (fs1, Inr (ir_token_created report))"
    and conf: "init_config ie options (generated options (ir_command report) (ir_workspace_path report)) fs1 = (fs', Inr ())"
    by (rule initialize_server_Inr)
  have "fs1 (in_config_path options) = None" using token_op.confined [OF tok] assms(2,3) by simp
  moreover obtain written where
    "replace_private_file (ie_missing ie) (ie_replace ie) (in_config_path options) written fs1 = (fs', Inr ())"
    using conf assms(1) by (auto elim: init_config_Inr)
  ultimately show ?thesis 
    using replace_private_file_missing [of fs1 "in_config_path options" "ie_missing ie" "ie_replace ie" written] by auto
qed auto

theorem forced_init_needs_configuration_witness:
  "\<exists>e. snd (initialize_server example_init (example_options\<lparr>in_force := True\<rparr>) (\<lambda>_. None)) = Inl e"
  using forced_init_needs_configuration [of "example_options\<lparr>in_force := True\<rparr>" "\<lambda>_. None" example_init]
  by (simp add: example_options_def)

end
