(* ===== verification/Acp_Doctor.thy ===== *)
theory Acp_Doctor
  imports Acp_Init
begin

text \<open>
  \<^verbatim>\<open>setup.rs\<close>, the diagnosis of a server: every check with its notices in the order the code
  reports them, and what a report without errors tells. Sockets and name resolution are arguments.
\<close>

section \<open>Reports\<close>

datatype doctor_level = LevelOk | LevelWarning | LevelError

record doctor_notice =
  dn_level :: doctor_level
  dn_message :: message

definition notice :: "doctor_level \<Rightarrow> message \<Rightarrow> doctor_notice" where
  "notice level m = \<lparr>dn_level = level, dn_message = m\<rparr>"

definition has_errors :: "doctor_notice list \<Rightarrow> bool" where
  "has_errors notices = list_ex (\<lambda>n. dn_level n = LevelError) notices"

section \<open>The public address\<close>

text \<open>A refusal has its status code and the text that displays it.\<close>

datatype handshake_answer = HandshakeOk | HandshakeHttp nat string | HandshakeError string

record doctor_env =
  de_init :: init_env
  de_resolver :: resolver
  de_show_addr :: "socket_addr \<Rightarrow> string"
  de_bind :: "socket_addr \<Rightarrow> (bool \<times> string) option"   \<comment> \<open>the error, and whether it says that the address is in use\<close>
  de_socket_addrs :: "url \<Rightarrow> nat option \<Rightarrow> string + socket_addr list"
  de_connects :: "socket_addr \<Rightarrow> bool"
  de_handshake :: "url \<Rightarrow> handshake_answer"

definition diagnose_websocket_endpoint :: "doctor_env \<Rightarrow> url \<Rightarrow> doctor_notice list" where
  "diagnose_websocket_endpoint de u =
     (case validate_connect_url (de_resolver de) u of
        Inl e \<Rightarrow> [notice LevelError (error_to_string e)]
      | Inr _ \<Rightarrow>
          (case de_handshake de u of
             HandshakeHttp status display \<Rightarrow>
               if status = 401
               then [notice LevelOk [Lit ''the public WebSocket route rejected an unauthenticated request'']]
               else [notice LevelError [Lit ''the public WebSocket route returned HTTP '', Disp display]]
           | HandshakeError e \<Rightarrow> [notice LevelError [Lit ''the public WebSocket handshake failed: '', Disp e]]
           | HandshakeOk \<Rightarrow>
               [notice LevelError [Lit ''the public WebSocket route accepted an unauthenticated request'']]))"

definition default_port :: "url \<Rightarrow> nat option" where
  "default_port u = (if url_scheme u = ''wss'' then Some 443 else if url_scheme u = ''ws'' then Some 80 else None)"

definition diagnose_public_url :: "doctor_env \<Rightarrow> url \<Rightarrow> doctor_notice list" where
  "diagnose_public_url de u =
     (case validate_connect_url (de_resolver de) u of
        Inl e \<Rightarrow> [notice LevelError (error_to_string e)]
      | Inr _ \<Rightarrow>
          (case de_socket_addrs de u (default_port u) of
             Inl e \<Rightarrow> [notice LevelError [Lit ''cannot resolve the public URL: '', Disp e]]
           | Inr addresses \<Rightarrow>
               if addresses = [] then [notice LevelError [Lit ''the public URL resolved no addresses'']]
               else if list_ex (de_connects de) addresses
               then [notice LevelOk [Lit ''the public URL resolves and accepts a TCP connection''],
                     notice LevelWarning [Lit ''the doctor did not open an authenticated WebSocket or start an agent'']]
               else [notice LevelError [Lit ''the public URL did not accept a TCP connection'']]))"

section \<open>The parts of a server\<close>

definition BUZZ_CLIENT_ENVIRONMENT :: "string list" where
  "BUZZ_CLIENT_ENVIRONMENT = [''BUZZ_RELAY_URL'', ''BUZZ_PRIVATE_KEY'', ''BUZZ_AUTH_TAG'']"

text \<open>\<open>std::env::var\<close>: a variable whose value is no valid text counts as absent.\<close>

definition env_var :: "setup_host \<Rightarrow> host_env" where
  "env_var host name =
     (case sh_var_os host name of None \<Rightarrow> None | Some v \<Rightarrow> if valid_text v then Some v else None)"

definition diagnose_token :: "doctor_env \<Rightarrow> files \<Rightarrow> string option \<Rightarrow> doctor_notice list" where
  "diagnose_token de fs token_file =
     (case snd (load_token (open_file (de_init de) fs) (sh_var_os (ie_host (de_init de))) token_file) of
        Inr _ \<Rightarrow> [notice LevelOk [Lit ''the bearer credential is valid'']]
      | Inl e \<Rightarrow> [notice LevelError (error_to_string e)])"

definition diagnose_workspace :: "setup_host \<Rightarrow> string \<times> workspace_config \<Rightarrow> doctor_notice list" where
  "diagnose_workspace host entry =
     (case entry of (ident, workspace) \<Rightarrow>
        case sh_metadata host (ws_path workspace) of
          Inl e \<Rightarrow> [notice LevelError [Lit ''cannot access workspace '', Dbg ident, Lit '': '', Disp e]]
        | Inr md \<Rightarrow>
            if md_is_dir md
            then [notice LevelOk [Lit ''workspace '', Dbg ident, Lit '' exists at '', Disp (ws_path workspace)]]
                 @ (if has_write_permission md then []
                    else [notice LevelWarning [Lit ''workspace '', Dbg ident, Lit '' has no filesystem write bits'']])
                 @ (case sh_read_dir host (ws_path workspace) of
                      None \<Rightarrow> []
                    | Some e \<Rightarrow> [notice LevelError [Lit ''cannot read workspace '', Dbg ident, Lit '': '', Disp e]])
            else [notice LevelError [Lit ''workspace '', Dbg ident, Lit '' is not a directory'']])"

definition diagnose_agent :: "setup_host \<Rightarrow> string \<times> agent_config \<Rightarrow> doctor_notice list" where
  "diagnose_agent host entry =
     (case entry of (ident, agent) \<Rightarrow>
        let environment = selected_environment (env_var host) (ag_pass_env agent) (ag_env agent);
            unset = filter (\<lambda>name. map_of environment name = None) (ag_pass_env agent);
            buzz_names = length (filter (\<lambda>name. name \<in> set (ag_client_env_allowlist agent)) BUZZ_CLIENT_ENVIRONMENT)
        in map (\<lambda>name. notice LevelWarning
                  [Lit ''agent '', Dbg ident, Lit '' cannot inherit unset variable '', Dbg name]) unset
           @ [case resolve_executable host (ag_command agent) (map_of environment ''PATH'') of
                Inr command \<Rightarrow> notice LevelOk [Lit ''agent '', Dbg ident, Lit '' executable is '', Disp command]
              | Inl e \<Rightarrow> notice LevelError (error_to_string e)]
           @ (if ag_mcp_policy agent = Passthrough
              then [notice LevelWarning
                      [Lit ''agent '', Dbg ident, Lit '' accepts client-provided MCP commands for remote execution'']]
              else [])
           @ (if buzz_names = length BUZZ_CLIENT_ENVIRONMENT
              then [notice LevelOk [Lit ''agent '', Dbg ident, Lit '' accepts the complete Buzz environment preset'']]
              else if buzz_names \<noteq> 0
              then [notice LevelWarning [Lit ''agent '', Dbg ident, Lit '' has an incomplete Buzz environment preset'']]
              else []))"

definition diagnose_tls_file :: "setup_host \<Rightarrow> string \<times> string \<Rightarrow> doctor_notice" where
  "diagnose_tls_file host entry =
     (case entry of (kind, path) \<Rightarrow>
        case sh_metadata host path of
          Inl e \<Rightarrow> notice LevelError [Lit ''cannot access '', Disp kind, Lit '' '', Disp path, Lit '': '', Disp e]
        | Inr md \<Rightarrow>
            if md_is_file md then notice LevelOk [Disp kind, Lit '' exists at '', Disp path]
            else notice LevelError [Disp kind, Lit '' is not a file''])"

definition diagnose_tls :: "setup_host \<Rightarrow> tls_config option \<Rightarrow> doctor_notice list" where
  "diagnose_tls host tls_option =
     (case tls_option of
        None \<Rightarrow> []
      | Some config \<Rightarrow>
          map (diagnose_tls_file host)
            [(''TLS certificate'', cert_path config), (''TLS private key'', key_path config)])"

definition diagnose_listener :: "doctor_env \<Rightarrow> socket_addr \<Rightarrow> doctor_notice" where
  "diagnose_listener de address =
     (case de_bind de address of
        None \<Rightarrow> notice LevelOk [Lit ''listener '', Disp (de_show_addr de address), Lit '' is available'']
      | Some (in_use, e) \<Rightarrow>
          if in_use
          then notice LevelWarning [Lit ''listener '', Disp (de_show_addr de address),
                 Lit '' is in use; an acp-tunnel server can already be running'']
          else notice LevelError [Lit ''cannot bind listener '', Disp (de_show_addr de address), Lit '': '', Disp e])"

definition diagnose_server ::
    "doctor_env \<Rightarrow> files \<Rightarrow> string \<Rightarrow> string option \<Rightarrow> url option \<Rightarrow> doctor_notice list" where
  "diagnose_server de fs config_path token_file public_url =
     (case config_load (de_init de) config_path fs of
        Inl e \<Rightarrow> [notice LevelError (error_to_string e)]
      | Inr config \<Rightarrow>
          let host = ie_host (de_init de)
          in [notice LevelOk [Lit ''configuration '', Disp config_path, Lit '' is valid'']]
             @ diagnose_token de fs token_file
             @ concat (map (diagnose_workspace host) (workspaces config))
             @ concat (map (diagnose_agent host) (agents config))
             @ diagnose_tls host (tls config)
             @ [diagnose_listener de (listen config)]
             @ (case public_url of None \<Rightarrow> [] | Some u \<Rightarrow> diagnose_public_url de u))"

section \<open>When a part reports no error\<close>

lemma has_errors_simps [simp]:
  "has_errors [] = False" "has_errors (n # ns) = (dn_level n = LevelError \<or> has_errors ns)"
  "has_errors (ms @ ns) = (has_errors ms \<or> has_errors ns)"
  "dn_level (notice l m) = l"
  by (simp_all add: has_errors_def notice_def)

lemma has_errors_concat: "has_errors (concat (map f xs)) = (\<exists>x\<in>set xs. has_errors (f x))"
  by (induction xs) auto

lemma no_warning_error [simp]: "\<not> has_errors (map (\<lambda>x. notice LevelWarning (f x)) xs)"
  by (induction xs) auto

definition usable_workspace :: "setup_host \<Rightarrow> workspace_config \<Rightarrow> bool" where
  "usable_workspace host workspace \<longleftrightarrow>
     (case sh_metadata host (ws_path workspace) of Inl _ \<Rightarrow> False | Inr md \<Rightarrow> md_is_dir md) \<and>
     sh_read_dir host (ws_path workspace) = None"

definition regular_file :: "setup_host \<Rightarrow> string \<Rightarrow> bool" where
  "regular_file host path \<longleftrightarrow> (case sh_metadata host path of Inl _ \<Rightarrow> False | Inr md \<Rightarrow> md_is_file md)"

lemma workspace_errors: "has_errors (diagnose_workspace host (ident, w)) \<longleftrightarrow> \<not> usable_workspace host w"
  by (auto simp: diagnose_workspace_def usable_workspace_def split: sum.splits option.splits)

lemma agent_errors:
  "has_errors (diagnose_agent host (ident, a)) \<longleftrightarrow>
     \<not> is_ok (resolve_executable host (ag_command a)
        (map_of (selected_environment (env_var host) (ag_pass_env a) (ag_env a)) ''PATH''))"
  by (simp add: diagnose_agent_def Let_def split: sum.splits)

definition tls_files :: "setup_host \<Rightarrow> tls_config option \<Rightarrow> bool" where
  "tls_files host t \<longleftrightarrow>
     (case t of None \<Rightarrow> True | Some c \<Rightarrow> regular_file host (cert_path c) \<and> regular_file host (key_path c))"

lemma tls_errors: "has_errors (diagnose_tls host t) \<longleftrightarrow> \<not> tls_files host t"
  by (auto simp: diagnose_tls_def diagnose_tls_file_def tls_files_def regular_file_def split: option.splits sum.splits)

definition listener_usable :: "doctor_env \<Rightarrow> socket_addr \<Rightarrow> bool" where
  "listener_usable de a \<longleftrightarrow> (case de_bind de a of None \<Rightarrow> True | Some (in_use, _) \<Rightarrow> in_use)"

lemma listener_errors: "dn_level (diagnose_listener de a) = LevelError \<longleftrightarrow> \<not> listener_usable de a"
  by (auto simp: diagnose_listener_def listener_usable_def split: option.splits)

lemma token_errors:
  "has_errors (diagnose_token de fs token_file) \<longleftrightarrow>
     \<not> is_ok (snd (load_token (open_file (de_init de) fs) (sh_var_os (ie_host (de_init de))) token_file))"
  by (simp add: diagnose_token_def split: sum.splits)

definition reachable_url :: "doctor_env \<Rightarrow> url \<Rightarrow> bool" where
  "reachable_url de u \<longleftrightarrow>
     is_ok (validate_connect_url (de_resolver de) u) \<and>
     (case de_socket_addrs de u (default_port u) of Inl _ \<Rightarrow> False | Inr addresses \<Rightarrow> list_ex (de_connects de) addresses)"

lemma public_url_errors: "has_errors (diagnose_public_url de u) \<longleftrightarrow> \<not> reachable_url de u"
  by (auto simp: diagnose_public_url_def reachable_url_def split: sum.splits)

definition server_ready :: "doctor_env \<Rightarrow> files \<Rightarrow> string option \<Rightarrow> server_config \<Rightarrow> bool" where
  "server_ready de fs token_file config \<longleftrightarrow>
     (let host = ie_host (de_init de)
      in validate (ie_url_parse (de_init de)) config = Inr () \<and>
         is_ok (snd (load_token (open_file (de_init de) fs) (sh_var_os host) token_file)) \<and>
         (\<forall>(ident, w)\<in>set (workspaces config). usable_workspace host w) \<and>
         (\<forall>(ident, a)\<in>set (agents config).
            is_ok (resolve_executable host (ag_command a)
              (map_of (selected_environment (env_var host) (ag_pass_env a) (ag_env a)) ''PATH''))) \<and>
         tls_files host (tls config) \<and> listener_usable de (listen config))"

section \<open>Properties\<close>

text \<open>
  C37. The diagnosis reports no error exactly when the configuration loads and validates, the
  credential loads, every workspace is a readable directory, every agent's executable is found with the
  search path the agent will have, the TLS files are regular files, the listener can be bound or is
  in use, and the public URL, if one is given, is allowed and accepts a connection.
\<close>

theorem diagnosis_exact:
  "\<not> has_errors (diagnose_server de fs config_path token_file public_url) \<longleftrightarrow>
     (\<exists>config. config_load (de_init de) config_path fs = Inr config \<and> server_ready de fs token_file config) \<and>
     (case public_url of None \<Rightarrow> True | Some u \<Rightarrow> reachable_url de u)"
proof (cases "config_load (de_init de) config_path fs")
  case (Inl e)
  then show ?thesis by (simp add: diagnose_server_def)
next
  case (Inr config)
  have url: "has_errors (case public_url of None \<Rightarrow> [] | Some u \<Rightarrow> diagnose_public_url de u)
      \<longleftrightarrow> \<not> (case public_url of None \<Rightarrow> True | Some u \<Rightarrow> reachable_url de u)"
    by (simp add: public_url_errors split: option.splits)
  have parts: "(\<exists>x\<in>set (workspaces config). has_errors (diagnose_workspace host x))
      = (\<not> (\<forall>(ident, w)\<in>set (workspaces config). usable_workspace host w))"
    "(\<exists>x\<in>set (agents config). has_errors (diagnose_agent host x))
      = (\<not> (\<forall>(ident, a)\<in>set (agents config).
            is_ok (resolve_executable host (ag_command a)
              (map_of (selected_environment (env_var host) (ag_pass_env a) (ag_env a)) ''PATH''))))" for host
    by (force simp: workspace_errors agent_errors)+
  show ?thesis
    using config_load_valid [OF Inr]
    by (simp add: diagnose_server_def Inr Let_def has_errors_concat parts token_errors tls_errors listener_errors url
        server_ready_def conj_ac)
qed

definition example_doctor :: doctor_env where
  "example_doctor = \<lparr>de_init = example_init\<lparr>ie_host := \<lparr>sh_var_os = [''HOME'' \<mapsto> ''/home''], sh_canonicalize = Inr,
       sh_metadata = (\<lambda>p. Inr \<lparr>md_is_dir = (p = ''/srv/main''), md_is_file = (p = ''/usr/bin/agent''), md_mode = 0x1ED\<rparr>),
       sh_read_dir = (\<lambda>_. None)\<rparr>\<rparr>,
     de_resolver = (\<lambda>_ _. Inl []), de_show_addr = (\<lambda>_. []), de_bind = (\<lambda>_. Some (True, ''in use'')),
     de_socket_addrs = (\<lambda>_ _. Inl []), de_connects = (\<lambda>_. False), de_handshake = (\<lambda>_. HandshakeOk)\<rparr>"

definition initialized_files :: files where
  "initialized_files = [''/t'' \<mapsto> \<lparr>sf_contents = ''ab'' @ [LF], sf_mode = PRIVATE_FILE, sf_directory = False\<rparr>,
     ''/c'' \<mapsto> \<lparr>sf_contents = ''x'', sf_mode = PRIVATE_FILE, sf_directory = False\<rparr>]"

lemma initialized_token:
  "snd (read_token_file (open_file (de_init example_doctor) initialized_files) ''/t'') = Inr (SecretToken ''ab'')"
proof -
  have "valid_text [CHR ''a'', CHR ''b'', LF]" by (rule ascii_valid_text) (simp add: LF_def)
  moreover have "validate_token_text [CHR ''a'', CHR ''b'', LF] = Inr (SecretToken ''ab'')"
    using validate_token_text_Inr [of "[CHR ''a'', CHR ''b'', LF]" "''ab''"] by (simp add: CR_def LF_def)
  ultimately show ?thesis
    by (simp add: read_token_file_def open_file_def example_doctor_def example_init_def initialized_files_def
        warn_if_token_file_is_readable_by_others_def MAX_TOKEN_FILE_BYTES_def)
qed

lemma example_doctor_config: "config_load (de_init example_doctor) ''/c'' initialized_files = Inr example_config"
  by (simp add: config_load_def read_to_string_def open_file_def parse_config_def example_doctor_def
      example_init_def initialized_files_def ascii_valid_text example_config_ok)

lemma example_doctor_token:
  "snd (load_token (open_file (de_init example_doctor) initialized_files)
     (sh_var_os (ie_host (de_init example_doctor))) (Some ''/t'')) = Inr (SecretToken ''ab'')"
  by (simp add: load_token_def load_token_from_sources_def initialized_token)
    (simp add: example_doctor_def)

theorem diagnosis_exact_witness:
  "\<not> has_errors (diagnose_server example_doctor initialized_files ''/c'' (Some ''/t'') None)"
proof -
  have "server_ready example_doctor initialized_files (Some ''/t'') example_config"
    by (simp add: server_ready_def example_config_ok example_doctor_token)
      (simp add: example_config_def default_config_def example_agent_def example_doctor_def usable_workspace_def
        tls_files_def listener_usable_def
        resolve_executable_def is_absolute_def canonical_executable_def is_executable_def)
  with example_doctor_config diagnosis_exact [of example_doctor initialized_files "''/c''" "Some ''/t''" None]
  show ?thesis by auto
qed

end
