(* ===== verification/Acp_Cli.thy ===== *)
theory Acp_Cli
  imports Acp_Doctor Acp_Server
begin

text \<open>
  \<^verbatim>\<open>main.rs\<close>: the questions of \<open>init\<close> on a terminal, the commands \<open>init\<close>, \<open>doctor\<close>,
  \<open>check-config\<close> and \<open>service\<close>, and what \<open>connect\<close> and \<open>serve\<close> prepare before they run. The
  arguments are the values that \<open>clap\<close> parsed. The console is the lines still to be read, the
  answers to flushing, and the texts printed so far.
\<close>

section \<open>Text\<close>

text \<open>\<open>str::trim\<close> on UTF-8: the white space characters at both ends go.\<close>

definition white_space :: "nat list list" where
  "white_space = map (\<lambda>n. [n]) ascii_whitespace @ wide_whitespace"

definition leading :: "nat list list \<Rightarrow> string \<Rightarrow> nat" where
  "leading ws s =
     (case find (\<lambda>w. w \<noteq> [] \<and> take (length w) (map of_char s) = w) ws of None \<Rightarrow> 0 | Some w \<Rightarrow> length w)"

lemma leading_Nil [simp]: "leading ws [] = 0"
  by (auto simp: leading_def find_Some_iff split: option.splits)

function strip_all :: "nat list list \<Rightarrow> string \<Rightarrow> string" where
  "strip_all ws s = (if leading ws s = 0 then s else strip_all ws (drop (leading ws s) s))"
  by auto
termination
  by (relation "measure (\<lambda>(ws, s). length s)") (auto simp: length_greater_0_conv intro!: diff_less)

declare strip_all.simps [simp del]

definition trim :: "string \<Rightarrow> string" where
  "trim s = rev (strip_all (map rev white_space) (rev (strip_all white_space s)))"

definition lowercase_label :: "string \<Rightarrow> string" where
  "lowercase_label label = map to_ascii_lowercase label"

definition flag_name :: "string \<Rightarrow> string" where
  "flag_name label = replace_char (CHR '' '') ''-'' (lowercase_label label)"

text \<open>A \<open>BTreeSet\<close> of names as the sorted list of its elements.\<close>

definition set_insert :: "string \<Rightarrow> string list \<Rightarrow> string list" where
  "set_insert name names = map fst (btree_insert name () (map (\<lambda>n. (n, ())) names))"

lemma set_insert_set [simp]: "set (set_insert name names) = insert name (set names)"
  using keys_btree_insert [of name "()" "map (\<lambda>n. (n, ())) names"] by (auto simp: set_insert_def image_image)

section \<open>The console\<close>

record console =
  con_input :: "(string + string) list"   \<comment> \<open>results of \<open>read_line\<close>; at the end of the input, empty lines\<close>
  con_flush :: "string option list"
  con_out :: "message list"
  con_err :: "message list"

type_synonym 'a asking = "console \<Rightarrow> console \<times> (error + 'a)"

definition say :: "message \<Rightarrow> console \<Rightarrow> console" where
  "say m con = con\<lparr>con_out := con_out con @ [m]\<rparr>"

definition say_error :: "message \<Rightarrow> console \<Rightarrow> console" where
  "say_error m con = con\<lparr>con_err := con_err con @ [m]\<rparr>"

definition take_flush :: "console \<Rightarrow> string option \<times> console" where
  "take_flush con = (case con_flush con of [] \<Rightarrow> (None, con) | a # as \<Rightarrow> (a, con\<lparr>con_flush := as\<rparr>))"

definition take_line :: "console \<Rightarrow> (string + string) \<times> console" where
  "take_line con = (case con_input con of [] \<Rightarrow> (Inr [], con) | a # as \<Rightarrow> (a, con\<lparr>con_input := as\<rparr>))"

definition answered :: "error + 'a \<Rightarrow> 'a asking" where
  "answered r con = (con, r)"

definition and_then :: "'a asking \<Rightarrow> ('a \<Rightarrow> 'b asking) \<Rightarrow> 'b asking" where
  "and_then m f con = (case m con of (con', Inl e) \<Rightarrow> (con', Inl e) | (con', Inr x) \<Rightarrow> f x con')"

lemma and_then_answered [simp]:
  "and_then (answered (Inr x)) f = f x" "and_then (answered (Inl e)) f = answered (Inl e)"
  by (simp_all add: and_then_def answered_def fun_eq_iff)

lemma and_then_Inr_iff:
  "and_then m f con = (con', Inr y) \<longleftrightarrow> (\<exists>con1 x. m con = (con1, Inr x) \<and> f x con1 = (con', Inr y))"
  by (auto simp: and_then_def split: prod.splits sum.splits)

section \<open>Questions\<close>

definition prompt :: "string \<Rightarrow> string option \<Rightarrow> string asking" where
  "prompt label fallback con =
     (let con1 = say (case fallback of
                        Some d \<Rightarrow> [Disp label, Lit '' ['', Disp d, Lit '']: '']
                      | None \<Rightarrow> [Disp label, Lit '': '']) con;
          (flushed, con2) = take_flush con1
      in case flushed of
           Some e \<Rightarrow> (con2, Inl (Config [Lit ''cannot write prompt: '', Disp e]))
         | None \<Rightarrow>
             (let (line, con3) = take_line con2
              in (con3,
                  rbind (map_err (\<lambda>e. Config [Lit ''cannot read prompt response: '', Disp e]) line) (\<lambda>text.
                    let input = trim text
                    in if input = []
                       then ok_or (Config [Disp (lowercase_label label), Lit '' must not be empty'']) fallback
                       else Inr input))))"

definition missing_flag :: "string \<Rightarrow> error" where
  "missing_flag label =
     Config [Lit ''use --'', Disp (flag_name label), Lit '' when stdin is not a terminal'']"

definition required_value :: "string option \<Rightarrow> bool \<Rightarrow> string \<Rightarrow> string option \<Rightarrow> string asking" where
  "required_value value interactive label fallback =
     (case value of
        Some v \<Rightarrow> answered (Inr v)
      | None \<Rightarrow> if interactive then prompt label fallback else answered (Inl (missing_flag label)))"

text \<open>\<open>lossy\<close> is \<open>to_string_lossy\<close>.\<close>

definition required_path ::
    "(string \<Rightarrow> string) \<Rightarrow> string option \<Rightarrow> bool \<Rightarrow> string \<Rightarrow> string option \<Rightarrow> string asking" where
  "required_path lossy value interactive label fallback =
     (case value of
        Some v \<Rightarrow> answered (Inr v)
      | None \<Rightarrow>
          if interactive then prompt label (map_option lossy fallback)
          else answered (Inl (missing_flag label)))"

definition prompt_yes_no :: "string \<Rightarrow> bool \<Rightarrow> bool asking" where
  "prompt_yes_no label fallback =
     (let marker = (if fallback then ''Y/n'' else ''y/N'')
      in and_then (prompt label (Some marker)) (\<lambda>answer. answered (
           if answer = marker then Inr fallback
           else let text = map to_ascii_lowercase answer
                in if text = ''y'' \<or> text = ''yes'' then Inr True
                   else if text = ''n'' \<or> text = ''no'' then Inr False
                   else Inl (Config [Disp label, Lit '' requires a yes or no response'']))))"

datatype init_mcp_policy = InitDeny | InitAllowlisted | InitPassthrough

fun mcp_policy_from :: "init_mcp_policy \<Rightarrow> mcp_policy" where
  "mcp_policy_from InitDeny = Deny"
| "mcp_policy_from InitAllowlisted = Allowlisted"
| "mcp_policy_from InitPassthrough = Passthrough"

definition prompt_mcp_policy :: "init_mcp_policy asking" where
  "prompt_mcp_policy =
     and_then (prompt ''MCP policy (passthrough, allowlisted, or deny)'' (Some ''passthrough'')) (\<lambda>policy. answered (
       let text = map to_ascii_lowercase policy
       in if text = ''passthrough'' then Inr InitPassthrough
          else if text = ''allowlisted'' then Inr InitAllowlisted
          else if text = ''deny'' then Inr InitDeny
          else Inl (Config [Lit ''unknown MCP policy''])))"

definition add_environment_name :: "string list \<Rightarrow> string \<Rightarrow> error + string list" where
  "add_environment_name names name =
     rbind (validate_environment_name ''generated agent'' ''environment'' name) (\<lambda>_. Inr (set_insert name names))"

definition parse_environment_names :: "string \<Rightarrow> error + string list" where
  "parse_environment_names s =
     try_fold add_environment_name [] (filter (\<lambda>name. name \<noteq> []) (map trim (split_on (CHR '','') s)))"

section \<open>The default workspace identifier\<close>

text \<open>\<open>str::chars\<close> of a valid text, as code points.\<close>

fun code_points :: "nat list \<Rightarrow> nat list" where
  "code_points [] = []"
| "code_points (a # bs) =
     (if a < 128 then a # code_points bs
      else if a < 224
      then (case bs of b # cs \<Rightarrow> ((a - 192) * 64 + (b - 128)) # code_points cs | _ \<Rightarrow> [])
      else if a < 240
      then (case bs of
              b # c # cs \<Rightarrow> ((a - 224) * 4096 + (b - 128) * 64 + (c - 128)) # code_points cs
            | _ \<Rightarrow> [])
      else (case bs of
              b # c # d # cs \<Rightarrow>
                ((a - 240) * 262144 + (b - 128) * 4096 + (c - 128) * 64 + (d - 128)) # code_points cs
            | _ \<Rightarrow> []))"

text \<open>
  \<open>char::to_lowercase\<close> as far as the identifier depends on it: besides the ASCII letters, only U+0130 (an
  \<open>i\<close> with a combining dot) and U+212A (the Kelvin sign, a \<open>k\<close>) have a lower case with an ASCII letter
  or digit; every other character stays outside ASCII and counts as a separator.
\<close>

definition to_lowercase :: "nat \<Rightarrow> nat list" where
  "to_lowercase c =
     (if 65 \<le> c \<and> c \<le> 90 then [c + 32] else if c = 0x130 then [105, 0x307] else if c = 0x212A then [107] else [c])"

definition is_ascii_alphanumeric :: "nat \<Rightarrow> bool" where
  "is_ascii_alphanumeric c \<longleftrightarrow> 48 \<le> c \<and> c \<le> 57 \<or> 65 \<le> c \<and> c \<le> 90 \<or> 97 \<le> c \<and> c \<le> 122"

definition push_character :: "nat \<Rightarrow> string \<times> bool \<Rightarrow> string \<times> bool" where
  "push_character character acc =
     (case acc of (ident, separator) \<Rightarrow>
        if is_ascii_alphanumeric character then (ident @ [char_of character], False)
        else if ident \<noteq> [] \<and> \<not> separator then (ident @ ''-'', True)
        else (ident, separator))"

definition pop_separators :: "string \<Rightarrow> string" where
  "pop_separators ident = rev (dropWhile (\<lambda>c. c = CHR ''-'') (rev ident))"

definition default_workspace_id :: "string \<Rightarrow> string option" where
  "default_workspace_id path =
     (case path_file_name path of
        None \<Rightarrow> None
      | Some name \<Rightarrow>
          if \<not> valid_text name then None
          else let characters = concat (map to_lowercase (code_points (map of_char name)));
                   ident = pop_separators (fst (fold push_character characters ([], False)))
               in if ident = [] then None else Some ident)"

section \<open>The commands\<close>

record cli_env =
  ce_doctor :: doctor_env
  ce_interactive :: bool
  ce_current_dir :: "string + string"
  ce_current_exe :: "string + string"
  ce_lossy :: "string \<Rightarrow> string"
  ce_logging :: "string option"            \<comment> \<open>the error of setting up the log, if any\<close>
  ce_signals :: "string option"            \<comment> \<open>the error of installing the handlers, if any\<close>

abbreviation ce_init :: "cli_env \<Rightarrow> init_env" where
  "ce_init ce \<equiv> de_init (ce_doctor ce)"

abbreviation ce_var_os :: "cli_env \<Rightarrow> string \<Rightarrow> string option" where
  "ce_var_os ce \<equiv> sh_var_os (ie_host (ce_init ce))"

subsection \<open>Initialisation\<close>

record init_command_options =
  ic_config :: "string option"
  ic_token_file :: "string option"
  ic_agent :: "string option"
  ic_agent_command :: "string option"
  ic_workspace :: "string option"
  ic_workspace_path :: "string option"
  ic_pass_env :: "string list"
  ic_buzz :: bool
  ic_mcp_policy :: "init_mcp_policy option"
  ic_force :: bool

definition ask_pass_env :: "bool \<Rightarrow> string list \<Rightarrow> string list asking" where
  "ask_pass_env interactive pass_env =
     (if pass_env = []
      then if interactive
           then and_then (prompt ''Inherited environment names'' (Some ''HOME,PATH''))
                  (\<lambda>names. answered (parse_environment_names names))
           else answered (Inr [''HOME'', ''PATH''])
      else answered (Inr (fold set_insert pass_env [])))"

definition ask_buzz :: "bool \<Rightarrow> bool \<Rightarrow> bool asking" where
  "ask_buzz interactive buzz =
     (if buzz \<or> \<not> interactive then answered (Inr buzz)
      else prompt_yes_no ''Accept Buzz session variables'' True)"

definition ask_policy :: "bool \<Rightarrow> init_mcp_policy option \<Rightarrow> init_mcp_policy asking" where
  "ask_policy interactive policy =
     (case policy of
        Some p \<Rightarrow> answered (Inr p)
      | None \<Rightarrow> if interactive then prompt_mcp_policy else answered (Inr InitPassthrough))"

definition warn_policy :: "init_mcp_policy \<Rightarrow> console \<Rightarrow> console" where
  "warn_policy policy =
     (if policy = InitPassthrough
      then say_error [Lit ''acp-tunnel: WARNING: MCP passthrough permits authenticated clients to run remote commands'']
      else id)"

definition ask_init :: "cli_env \<Rightarrow> init_command_options \<Rightarrow> init_options asking" where
  "ask_init ce options =
     and_then (answered (resolve_server_config_file (ce_var_os ce) (ic_config options))) (\<lambda>config_path.
     and_then (answered (ok_or (Config [Lit ''use --token-file because HOME is unavailable''])
                 (case ic_token_file options of Some p \<Rightarrow> Some p | None \<Rightarrow> default_token_file (ce_var_os ce)))) (\<lambda>token_path.
     and_then (answered (map_err (\<lambda>e. Config [Lit ''cannot read the current directory: '', Disp e])
                 (ce_current_dir ce))) (\<lambda>current_directory.
     and_then (required_value (ic_agent options) (ce_interactive ce) ''Agent ID'' (Some ''agent'')) (\<lambda>agent_id.
     and_then (required_path (ce_lossy ce) (ic_agent_command options) (ce_interactive ce) ''Agent command'' None) (\<lambda>command.
     and_then (required_value (ic_workspace options) (ce_interactive ce) ''Workspace ID''
                 (default_workspace_id current_directory)) (\<lambda>workspace_id.
     and_then (required_path (ce_lossy ce) (ic_workspace_path options) (ce_interactive ce) ''Workspace path''
                 (Some current_directory)) (\<lambda>workspace_path.
     and_then (ask_pass_env (ce_interactive ce) (ic_pass_env options)) (\<lambda>pass_env.
     and_then (ask_buzz (ce_interactive ce) (ic_buzz options)) (\<lambda>buzz.
     and_then (ask_policy (ce_interactive ce) (ic_mcp_policy options)) (\<lambda>policy con.
       (warn_policy policy con,
        Inr \<lparr>in_config_path = config_path, in_token_path = token_path, in_agent_id = agent_id, in_command = command,
             in_workspace_id = workspace_id, in_workspace_path = workspace_path, in_pass_env = pass_env,
             in_client_env_allowlist = (if buzz then fold set_insert BUZZ_CLIENT_ENVIRONMENT [] else []),
             in_mcp_policy = mcp_policy_from policy, in_force = ic_force options\<rparr>)))))))))))"

definition init_lines :: "init_options \<Rightarrow> init_report \<Rightarrow> message list" where
  "init_lines options report =
     [[Lit ''Created configuration: '', Disp (ir_config_path report)],
      if ir_token_created report then [Lit ''Created bearer token: '', Disp (ir_token_path report)]
      else [Lit ''Using existing bearer token: '', Disp (ir_token_path report)],
      [Lit ''Agent executable: '', Disp (ir_command report)],
      [Lit ''Workspace: '', Disp (ir_workspace_path report)],
      [Lit ''Run `acp-tunnel doctor`, then run `acp-tunnel serve`.''],
      [Lit ''Configure the connector with --agent '', Disp (in_agent_id options), Lit '' --workspace '',
       Disp (in_workspace_id options), Lit ''.'']]"

definition run_init ::
    "cli_env \<Rightarrow> init_command_options \<Rightarrow> files \<Rightarrow> console \<Rightarrow> files \<times> console \<times> (error + unit)" where
  "run_init ce options fs con =
     (case ask_init ce options con of
        (con1, Inl e) \<Rightarrow> (fs, con1, Inl e)
      | (con1, Inr init) \<Rightarrow>
          (case initialize_server (ce_init ce) init fs of
             (fs1, Inl e) \<Rightarrow> (fs1, con1, Inl e)
           | (fs1, Inr report) \<Rightarrow> (fs1, fold say (init_lines init report) con1, Inr ())))"

subsection \<open>Diagnosis\<close>

fun level_name :: "doctor_level \<Rightarrow> string" where
  "level_name LevelOk = ''ok''"
| "level_name LevelWarning = ''warning''"
| "level_name LevelError = ''error''"

definition doctor_report :: "cli_env \<Rightarrow> string \<Rightarrow> string option \<Rightarrow> url option \<Rightarrow> files \<Rightarrow> doctor_notice list" where
  "doctor_report ce config token_file u fs =
     diagnose_server (ce_doctor ce) fs config token_file u
     @ (case u of None \<Rightarrow> [] | Some address \<Rightarrow> diagnose_websocket_endpoint (ce_doctor ce) address)"

definition run_doctor ::
    "cli_env \<Rightarrow> string option \<Rightarrow> string option \<Rightarrow> url option \<Rightarrow> files \<Rightarrow> unit asking" where
  "run_doctor ce config token_file u fs =
     and_then (answered (resolve_server_config_file (ce_var_os ce) config)) (\<lambda>path con.
       let report = doctor_report ce path token_file u fs
       in (fold (\<lambda>n. say (Lit ''['' # Lit (level_name (dn_level n)) # Lit ''] '' # dn_message n)) report con,
           if has_errors report then Inl (Config [Lit ''doctor found one or more errors'']) else Inr ()))"

subsection \<open>Connector and server\<close>

record connect_args =
  ca_url :: url
  ca_agent :: string
  ca_workspace :: string
  ca_max_frame_bytes :: usize
  ca_max_replay_frames :: usize
  ca_max_replay_bytes :: usize
  ca_connect_timeout_seconds :: u64
  ca_keepalive_timeout_seconds :: u64
  ca_reconnect_timeout_seconds :: u64
  ca_shutdown_timeout_seconds :: u64
  ca_token_file :: "string option"
  ca_client_env :: "string list"
  ca_buzz :: bool

record serve_args =
  sa_config :: "string option"
  sa_listen :: "socket_addr option"
  sa_insecure_listen :: bool
  sa_token_file :: "string option"

definition std_env_var :: "(string \<Rightarrow> string option) \<Rightarrow> string \<Rightarrow> var_error + string" where
  "std_env_var var_os name =
     (case var_os name of
        None \<Rightarrow> Inl NotPresent
      | Some v \<Rightarrow> if valid_text v then Inr v else Inl NotUnicode)"

definition install_handler :: "cli_env \<Rightarrow> error + unit" where
  "install_handler ce =
     (case ce_signals ce of
        Some e \<Rightarrow> Inl (Config [Lit ''cannot install SIGTERM handler: '', Disp e])
      | None \<Rightarrow> Inr ())"

definition init_server_logging :: "cli_env \<Rightarrow> error + unit" where
  "init_server_logging ce =
     (case ce_logging ce of
        Some e \<Rightarrow> Inl (Config [Lit ''cannot initialize structured logging: '', Disp e])
      | None \<Rightarrow> Inr ())"

text \<open>Loading the token prints its warnings.\<close>

definition ask_token :: "cli_env \<Rightarrow> files \<Rightarrow> string option \<Rightarrow> secret_token asking" where
  "ask_token ce fs token_file con =
     (case load_token (open_file (ce_init ce) fs) (ce_var_os ce) token_file of
        (warnings, r) \<Rightarrow> (fold say_error warnings con, r))"

definition prepare_connect :: "cli_env \<Rightarrow> connect_args \<Rightarrow> files \<Rightarrow> connect_options asking" where
  "prepare_connect ce args fs =
     and_then (ask_token ce fs (ca_token_file args)) (\<lambda>token.
     and_then (answered (select_client_environment (std_env_var (ce_var_os ce))
                 (ca_client_env args @ (if ca_buzz args then BUZZ_CLIENT_ENVIRONMENT else [])))) (\<lambda>environment.
     and_then (answered (install_handler ce)) (\<lambda>_. answered (Inr
       \<lparr>co_url = ca_url args, co_agent = ca_agent args, co_workspace = ca_workspace args, co_token = token,
        co_client_environment = environment, co_max_frame_bytes = ca_max_frame_bytes args,
        co_max_replay_frames = ca_max_replay_frames args, co_max_replay_bytes = ca_max_replay_bytes args,
        co_connection_timeout = 1000 * ca_connect_timeout_seconds args,
        co_keepalive_timeout = 1000 * ca_keepalive_timeout_seconds args,
        co_reconnect_timeout = 1000 * ca_reconnect_timeout_seconds args,
        co_shutdown_timeout = 1000 * ca_shutdown_timeout_seconds args\<rparr>))))"

definition override_listen :: "socket_addr option \<Rightarrow> server_config \<Rightarrow> server_config" where
  "override_listen address config = (case address of Some a \<Rightarrow> config\<lparr>listen := a\<rparr> | None \<Rightarrow> config)"

definition prepare_serve :: "cli_env \<Rightarrow> serve_args \<Rightarrow> files \<Rightarrow> server_state asking" where
  "prepare_serve ce args fs =
     and_then (answered (init_server_logging ce)) (\<lambda>_.
     and_then (answered (resolve_server_config_file (ce_var_os ce) (sa_config args))) (\<lambda>path.
     and_then (answered (config_load (ce_init ce) path fs)) (\<lambda>loaded.
     let config = override_listen (sa_listen args) loaded
     in and_then (answered (validate (ie_url_parse (ce_init ce)) config)) (\<lambda>_.
     and_then (ask_token ce fs (sa_token_file args)) (\<lambda>token.
     and_then (answered (install_handler ce)) (\<lambda>_.
     and_then (answered (serve_guard (de_show_addr (ce_doctor ce)) config (sa_insecure_listen args))) (\<lambda>_.
       answered (Inr (server_state_new config token)))))))))"

subsection \<open>The other commands and the dispatch\<close>

definition check_config :: "cli_env \<Rightarrow> string option \<Rightarrow> files \<Rightarrow> unit asking" where
  "check_config ce config fs =
     and_then (answered (resolve_server_config_file (ce_var_os ce) config)) (\<lambda>path.
     and_then (answered (config_load (ce_init ce) path fs)) (\<lambda>loaded con.
       (say [Lit ''configuration is valid: '', Num (length (agents loaded)), Lit '' agent(s), '',
             Num (length (workspaces loaded)), Lit '' workspace(s), '', Num (length (mcp_servers loaded)),
             Lit '' MCP server(s)''] con, Inr ())))"

definition service_generate :: "cli_env \<Rightarrow> bool \<Rightarrow> unit asking" where
  "service_generate ce user =
     (if \<not> user then answered (Inl (Config [Lit ''service generation currently requires --user'']))
      else and_then (answered (map_err (\<lambda>e. Config [Lit ''cannot resolve the current executable: '', Disp e])
                       (ce_current_exe ce))) (\<lambda>executable.
           and_then (answered (generate_user_service (ie_host (ce_init ce)) executable)) (\<lambda>service con.
             (say_error [Lit ''acp-tunnel: save this unit as ~/.config/systemd/user/acp-tunnel.service'']
                (say [Disp service] con), Inr ()))))"

datatype cli_command =
    CmdConnect connect_args
  | CmdServe serve_args
  | CmdCheckConfig "string option"
  | CmdInit init_command_options
  | CmdDoctor "string option" "string option" "url option"
  | CmdServiceGenerate bool
  | CmdTestAgent bool bool

text \<open>What is left to run when the command returns from its preparations.\<close>

datatype continuing = Finished | Connector connect_options | Server server_state | Agent bool bool

definition finishing :: "('a \<Rightarrow> continuing) \<Rightarrow> files \<Rightarrow> console \<times> (error + 'a) \<Rightarrow> files \<times> console \<times> (error + continuing)" where
  "finishing f fs result = (case result of (con, r) \<Rightarrow> (fs, con, rbind r (\<lambda>x. Inr (f x))))"

definition run :: "cli_env \<Rightarrow> cli_command \<Rightarrow> files \<Rightarrow> console \<Rightarrow> files \<times> console \<times> (error + continuing)" where
  "run ce command fs con =
     (case command of
        CmdConnect args \<Rightarrow> finishing Connector fs (prepare_connect ce args fs con)
      | CmdServe args \<Rightarrow> finishing Server fs (prepare_serve ce args fs con)
      | CmdCheckConfig config \<Rightarrow> finishing (\<lambda>_. Finished) fs (check_config ce config fs con)
      | CmdInit options \<Rightarrow>
          (case run_init ce options fs con of (fs', con', r) \<Rightarrow> (fs', con', rbind r (\<lambda>_. Inr Finished)))
      | CmdDoctor config token_file u \<Rightarrow>
          finishing (\<lambda>_. Finished) fs (run_doctor ce config token_file u fs con)
      | CmdServiceGenerate user \<Rightarrow> finishing (\<lambda>_. Finished) fs (service_generate ce user con)
      | CmdTestAgent uncooperative spawn_grandchild \<Rightarrow> (fs, con, Inr (Agent uncooperative spawn_grandchild)))"

text \<open>The exit code, and the error on standard error.\<close>

definition main_exit :: "error + unit \<Rightarrow> console \<Rightarrow> console \<times> nat" where
  "main_exit result con =
     (case result of
        Inr _ \<Rightarrow> (con, 0)
      | Inl e \<Rightarrow> (say_error (Lit ''acp-tunnel: '' # error_to_string e) con, 1))"

section \<open>Trimming and names\<close>

lemma strip_all_stops: "leading ws (strip_all ws s) = 0"
  by (induction ws s rule: strip_all.induct) (subst strip_all.simps, simp)

lemma strip_all_suffix: "\<exists>us. s = us @ strip_all ws s"
proof (induction ws s rule: strip_all.induct)
  case (1 ws s)
  show ?case
  proof (cases "leading ws s = 0")
    case True
    then show ?thesis by (simp add: strip_all.simps [of ws s])
  next
    case False
    then obtain us where "drop (leading ws s) s = us @ strip_all ws (drop (leading ws s) s)" using 1 by blast
    then have "s = (take (leading ws s) s @ us) @ strip_all ws s"
      using False by (simp add: strip_all.simps [of ws s] append_assoc [symmetric] del: append_assoc)
        (metis append_assoc append_take_drop_id)
    then show ?thesis by blast
  qed
qed

lemma trim_inner: "\<exists>us vs. s = us @ trim s @ vs"
proof -
  obtain us where us: "s = us @ strip_all white_space s" using strip_all_suffix by blast
  obtain vs where "rev (strip_all white_space s) = vs @ strip_all (map rev white_space) (rev (strip_all white_space s))"
    using strip_all_suffix by blast
  then have "strip_all white_space s = trim s @ rev vs"
    unfolding trim_def by (metis rev_append rev_rev_ident)
  with us show ?thesis by metis
qed

lemma parse_environment_names_Inr:
  assumes "parse_environment_names s = Inr names"
  shows "set names = set (map trim (split_on (CHR '','') s)) - {[]} \<and> (\<forall>name\<in>set names. env_name_ok name)"
proof -
  have "set ns = set acc \<union> set xs \<and> (\<forall>x\<in>set xs. env_name_ok x)" if "try_fold add_environment_name acc xs = Inr ns" for acc ns xs
    using that by (induction xs arbitrary: acc) (auto simp: add_environment_name_def rbind_Inr_iff)
  from this [of "[]"] show ?thesis using assms by (auto simp: parse_environment_names_def)
qed

section \<open>Identifiers\<close>

lemma to_lowercase_not_upper: "c \<in> set (to_lowercase d) \<Longrightarrow> \<not> (65 \<le> c \<and> c \<le> 90)"
  by (auto simp: to_lowercase_def split: if_splits)

definition ident_prefix :: "string \<Rightarrow> bool" where
  "ident_prefix s \<longleftrightarrow> s = [] \<or> id_pattern s"

lemma id_pattern_snoc: "id_pattern (s @ [c]) \<longleftrightarrow> (if s = [] then id_start_char c else id_pattern s \<and> id_char c)"
  by (cases s) (auto simp: id_pattern_def)

lemma lower_alphanumeric:
  "is_ascii_alphanumeric c \<Longrightarrow> \<not> (65 \<le> c \<and> c \<le> 90) \<Longrightarrow> id_start_char (char_of c)"
  by (auto simp: is_ascii_alphanumeric_def id_start_char_def Let_def)

lemma push_character_prefix:
  assumes "ident_prefix (fst acc)" and "\<not> (65 \<le> c \<and> c \<le> 90)"
  shows "ident_prefix (fst (push_character c acc))"
proof -
  obtain ident sep where [simp]: "acc = (ident, sep)" by (cases acc)
  have "id_char (CHR ''-'')" by (simp add: id_char_def)
  then show ?thesis
    using assms lower_alphanumeric [of c]
    by (auto simp: push_character_def ident_prefix_def id_pattern_snoc id_char_def)
qed

lemma pushed_prefix:
  assumes "\<forall>c\<in>set cs. \<not> (65 \<le> c \<and> c \<le> 90)" and "ident_prefix (fst acc)"
  shows "ident_prefix (fst (fold push_character cs acc))"
  using assms by (induction cs arbitrary: acc) (simp_all add: push_character_prefix)

lemma pop_separators_prefix: "\<exists>vs. s = pop_separators s @ vs"
proof -
  have "rev s = takeWhile (\<lambda>c. c = CHR ''-'') (rev s) @ dropWhile (\<lambda>c. c = CHR ''-'') (rev s)" by simp
  then have "s = pop_separators s @ rev (takeWhile (\<lambda>c. c = CHR ''-'') (rev s))"
    unfolding pop_separators_def by (metis rev_append rev_rev_ident)
  then show ?thesis by blast
qed

lemma pop_separators_last: "pop_separators s \<noteq> [] \<Longrightarrow> last (pop_separators s) \<noteq> CHR ''-''"
  using hd_dropWhile [of "\<lambda>c. c = CHR ''-''" "rev s"] by (simp add: pop_separators_def last_rev)

lemma ident_prefix_append: "ident_prefix (us @ vs) \<Longrightarrow> ident_prefix us"
  by (cases us) (auto simp: ident_prefix_def id_pattern_def)

section \<open>Properties\<close>

text \<open>
  C40. The workspace identifier offered for a directory is always a valid identifier, and does not end in
  a separator, whatever characters the name of the directory has.
\<close>

theorem default_workspace_id_valid:
  assumes "default_workspace_id path = Some ident"
  shows "validate_id kind ident = Inr () \<and> last ident \<noteq> CHR ''-''"
proof -
  obtain name where r: "ident = pop_separators (fst (fold push_character
      (concat (map to_lowercase (code_points (map of_char name)))) ([], False)))" "ident \<noteq> []"
    using assms by (auto simp: default_workspace_id_def Let_def split: option.splits if_splits)
  have "ident_prefix (fst (fold push_character (concat (map to_lowercase (code_points (map of_char name)))) ([], False)))"
    using to_lowercase_not_upper by (intro pushed_prefix) (auto simp: ident_prefix_def)
  then have "ident_prefix ident" using r(1) pop_separators_prefix ident_prefix_append by metis
  with r pop_separators_last show ?thesis by (auto simp: ident_prefix_def)
qed

theorem default_workspace_id_valid_witness:
  "default_workspace_id ''/B!'' = Some ''b'' \<and> validate_id ''workspace'' ''b'' = Inr ()"
proof -
  have "default_workspace_id ''/B!'' = Some ''b''" by code_simp
  then show ?thesis using default_workspace_id_valid by blast
qed

text \<open>
  C39. A server is started only from a configuration file that loads and validates, with the listener of the
  command line if there is one, with a token that loads, and never with a plaintext listener on an
  address that is not loopback unless \<open>--insecure-listen\<close> asks for it.
\<close>

theorem served_configuration:
  assumes "prepare_serve ce args fs con = (con', Inr state)"
  shows "(\<exists>path loaded. resolve_server_config_file (ce_var_os ce) (sa_config args) = Inr path \<and>
      config_load (ce_init ce) path fs = Inr loaded \<and> st_config state = override_listen (sa_listen args) loaded) \<and>
    validate (ie_url_parse (ce_init ce)) (st_config state) = Inr () \<and>
    snd (load_token (open_file (ce_init ce) fs) (ce_var_os ce) (sa_token_file args)) = Inr (st_token state) \<and>
    (tls (st_config state) = None \<longrightarrow> is_loopback (sa_ip (listen (st_config state))) \<or> sa_insecure_listen args)"
  using assms
  by (auto simp: prepare_serve_def Let_def and_then_Inr_iff answered_def ask_token_def serve_guard_def
      server_state_new_def split: prod.splits if_splits)

definition example_cli :: cli_env where
  "example_cli = \<lparr>ce_doctor = example_doctor, ce_interactive = False, ce_current_dir = Inr ''/w'',
     ce_current_exe = Inr ''/a'', ce_lossy = id, ce_logging = None, ce_signals = None\<rparr>"

definition example_serve :: serve_args where
  "example_serve = \<lparr>sa_config = Some ''/c'', sa_listen = Some \<lparr>sa_ip = V4 10 0 0 1, sa_port = 80\<rparr>,
     sa_insecure_listen = True, sa_token_file = Some ''/t''\<rparr>"

definition example_console :: console where
  "example_console = \<lparr>con_input = [], con_flush = [], con_out = [], con_err = []\<rparr>"

lemma validate_listen: "validate url_parse (c\<lparr>listen := a\<rparr>) = Inr () \<longleftrightarrow> validate url_parse c = Inr ()"
  by (simp add: validate_ok_iff config_ok_def limits_ok_def agent_ok_def)

lemma example_served:
  "\<exists>con'. prepare_serve example_cli example_serve initialized_files example_console
     = (con', Inr (server_state_new (example_config\<lparr>listen := \<lparr>sa_ip = V4 10 0 0 1, sa_port = 80\<rparr>\<rparr>) (SecretToken ''ab'')))"
proof -
  have env: "ce_init example_cli = de_init example_doctor" "ce_logging example_cli = None" "ce_signals example_cli = None"
    by (simp_all add: example_cli_def)
  have args: "sa_config example_serve = Some ''/c''" "sa_token_file example_serve = Some ''/t''"
      "sa_listen example_serve = Some \<lparr>sa_ip = V4 10 0 0 1, sa_port = 80\<rparr>" "sa_insecure_listen example_serve"
    by (simp_all add: example_serve_def)
  show ?thesis
    by (simp add: prepare_serve_def Let_def env args init_server_logging_def install_handler_def
        resolve_server_config_file_def example_doctor_config override_listen_def validate_listen example_config_ok
        serve_guard_def and_then_Inr_iff ask_token_def example_doctor_token answered_def split: prod.splits)
      (metis example_doctor_token snd_conv)
qed

theorem served_configuration_witness:
  "\<exists>con' state. prepare_serve example_cli example_serve initialized_files example_console = (con', Inr state) \<and>
     validate (\<lambda>_. Inl []) (st_config state) = Inr () \<and> sa_insecure_listen example_serve"
proof -
  obtain con' state where run: "prepare_serve example_cli example_serve initialized_files example_console = (con', Inr state)"
    using example_served by blast
  have "ie_url_parse (ce_init example_cli) = (\<lambda>_. Inl [])"
    by (simp add: example_cli_def example_doctor_def example_init_def)
  with served_configuration [OF run] run show ?thesis by (auto simp: example_serve_def)
qed

text \<open>
  The diagnosis of the command line succeeds exactly when no part reports an error and, with a public URL,
  the route refuses an unauthenticated request with status 401.
\<close>

theorem doctor_exit_exact:
  assumes "resolve_server_config_file (ce_var_os ce) config = Inr path"
  shows "snd (run_doctor ce config token_file u fs con) = Inr () \<longleftrightarrow>
    \<not> has_errors (diagnose_server (ce_doctor ce) fs path token_file u) \<and>
    (\<forall>address. u = Some address \<longrightarrow>
       is_ok (validate_connect_url (de_resolver (ce_doctor ce)) address) \<and>
       (\<exists>display. de_handshake (ce_doctor ce) address = HandshakeHttp 401 display))"
proof -
  have "has_errors (diagnose_websocket_endpoint de a) \<longleftrightarrow>
      \<not> (is_ok (validate_connect_url (de_resolver de) a) \<and> (\<exists>display. de_handshake de a = HandshakeHttp 401 display))" for de a
    by (auto simp: diagnose_websocket_endpoint_def split: sum.splits handshake_answer.splits)
  with assms show ?thesis
    by (simp add: run_doctor_def Let_def doctor_report_def split: option.splits)
qed

text \<open>
  Without a terminal nothing is asked: no line is read and nothing is printed on standard output.
\<close>

theorem noninteractive_init_asks_nothing:
  assumes "\<not> ce_interactive ce"
  shows "con_input (fst (ask_init ce options con)) = con_input con \<and> con_out (fst (ask_init ce options con)) = con_out con"
proof -
  have quiet: "con_input (fst (and_then m f con)) = con_input con \<and> con_out (fst (and_then m f con)) = con_out con"
    if "m \<in> range answered" "\<And>x. con_input (fst (f x con)) = con_input con \<and> con_out (fst (f x con)) = con_out con" for m and f :: "'x \<Rightarrow> 'y asking"
    using that by (auto simp: and_then_def answered_def split: sum.splits)
  show ?thesis
    using assms unfolding ask_init_def required_value_def required_path_def ask_pass_env_def ask_buzz_def ask_policy_def
    by (intro quiet) (auto simp: warn_policy_def say_error_def split: option.splits)
qed

text \<open>
  Without a terminal a missing identifier is refused with the name of a flag, but the flags of the command are
  \<open>--agent\<close> and \<open>--workspace\<close>, and the names in the message are others.
\<close>

theorem missing_identifier_names_unknown_flag:
  "required_value None False ''Agent ID'' d con
     = (con, Inl (Config [Lit ''use --'', Disp ''agent-id'', Lit '' when stdin is not a terminal'']))
   \<and> required_value None False ''Workspace ID'' d con
     = (con, Inl (Config [Lit ''use --'', Disp ''workspace-id'', Lit '' when stdin is not a terminal'']))"
proof -
  have "flag_name ''Agent ID'' = ''agent-id''" "flag_name ''Workspace ID'' = ''workspace-id''" by code_simp+
  then show ?thesis by (simp add: required_value_def answered_def missing_flag_def)
qed

end
