(* ===== verification/Acp_Flow.thy ===== *)
theory Acp_Flow
  imports Acp_Cli
begin

text \<open>
  The way from \<open>acp-tunnel init\<close> to an open tunnel, across \<^verbatim>\<open>setup.rs\<close>, \<^verbatim>\<open>credentials.rs\<close>,
  \<^verbatim>\<open>main.rs\<close>, \<^verbatim>\<open>auth.rs\<close> and the routes of \<^verbatim>\<open>server.rs\<close>: the token that initialisation wrote is
  the one that the server compares with and the connector sends.
\<close>

section \<open>Tokens of hexadecimal digits\<close>

text \<open>Two identifiers of the \<open>uuid\<close> crate in their simple form are 64 hexadecimal digits.\<close>

definition hex_token :: "string \<Rightarrow> bool" where
  "hex_token t \<longleftrightarrow> t \<noteq> [] \<and> length t \<le> 64 \<and> list_all (\<lambda>c. c \<in> set ''0123456789abcdef'') t"

lemma hex_char_code: "c \<in> set ''0123456789abcdef'' \<Longrightarrow> 48 \<le> (of_char c :: nat) \<and> of_char c \<le> (102 :: nat)"
  by auto

lemma hex_token_codes: "hex_token t \<Longrightarrow> c \<in> set t \<Longrightarrow> 48 \<le> (of_char c :: nat) \<and> of_char c \<le> (102 :: nat)"
  using hex_char_code by (auto simp: hex_token_def list_all_iff simp del: set_simps)

lemma hex_token_no_breaks: "hex_token t \<Longrightarrow> CR \<notin> set t \<and> LF \<notin> set t"
  using hex_token_codes [of t CR] hex_token_codes [of t LF] by (auto simp: CR_def LF_def)

lemma small_codes_no_whitespace:
  assumes "\<forall>c\<in>set t. 48 \<le> (of_char c :: nat) \<and> of_char c \<le> (102 :: nat)"
  shows "\<not> contains_whitespace t"
  using assms
proof (induction t)
  case (Cons c t)
  have first: "48 \<le> (of_char c :: nat)" "of_char c \<le> (102 :: nat)" using Cons.prems by simp_all
  have "\<forall>w\<in>set wide_whitespace. w \<noteq> [] \<and> 128 \<le> hd w" by (auto simp: wide_whitespace_def)
  then have "take (length w) (map of_char (c # t)) \<noteq> w" if "w \<in> set wide_whitespace" for w
    using that first by (cases w) fastforce+
  then have "\<not> starts_with_whitespace (c # t)"
    using first by (auto simp: starts_with_whitespace_def ascii_whitespace_def)
  then show ?case using Cons by simp
qed simp

lemma hex_token_file:
  assumes "hex_token t"
  shows "valid_text (t @ [LF])" and "validate_token_text (t @ [LF]) = Inr (SecretToken t)"
    and "length (t @ [LF]) \<le> MAX_TOKEN_FILE_BYTES"
proof -
  have "of_char c < (128 :: nat)" if "c \<in> set t" for c using hex_token_codes [OF assms that] by simp
  then show "valid_text (t @ [LF])" by (intro ascii_valid_text) (auto simp: list_all_iff LF_def)
  show "validate_token_text (t @ [LF]) = Inr (SecretToken t)"
    using assms hex_token_no_breaks [OF assms] by (simp add: validate_token_text_Inr hex_token_def)
  show "length (t @ [LF]) \<le> MAX_TOKEN_FILE_BYTES"
    using assms by (simp add: hex_token_def MAX_TOKEN_FILE_BYTES_def)
qed

lemma hex_token_loads:
  assumes "hex_token t" and "fs path = Some \<lparr>sf_contents = t @ [LF], sf_mode = m, sf_directory = False\<rparr>"
    and "ie_open ie path = None" and "ie_stat ie path = None" and "ie_read ie path = None"
  shows "snd (read_token_file (open_file ie fs) path) = Inr (SecretToken t)"
proof -
  note written = hex_token_file [OF assms(1)]
  have "take (MAX_TOKEN_FILE_BYTES + 1) (t @ [LF]) = t @ [LF]" using written(3) by (intro take_all) simp
  moreover have "\<not> MAX_TOKEN_FILE_BYTES < length (t @ [LF])" using written(3) by simp
  moreover have "open_file ie fs path = Inr \<lparr>of_mode = Inr m, of_bytes = Inr (t @ [LF])\<rparr>"
    using assms(2-5) by (simp add: open_file_def)
  ultimately show ?thesis
    using written(1,2)
    by (simp add: read_token_file_def warn_if_token_file_is_readable_by_others_def Let_def
        del: take_append length_append)
qed

lemma hex_token_authorized:
  assumes "hex_token t" and "st_token state = SecretToken t"
    and "map_of headers ''authorization'' = Some (''Bearer '' @ t)"
  shows "authorized state headers"
proof -
  have codes: "\<forall>c\<in>set t. 48 \<le> (of_char c :: nat) \<and> of_char c \<le> (102 :: nat)"
    using hex_token_codes [OF assms(1)] by blast
  then have "header_to_str (''Bearer'' @ CHR '' '' # t) \<noteq> None"
    by (auto simp: header_to_str_def list_all_iff Let_def)
  moreover have "eq_ignore_ascii_case ''Bearer'' ''bearer''" by code_simp
  moreover have "t \<noteq> []" using assms(1) by (simp add: hex_token_def)
  ultimately have "map_of headers ''authorization'' = Some (''Bearer'' @ CHR '' '' # expose (st_token state)) \<and>
      header_to_str (''Bearer'' @ CHR '' '' # expose (st_token state)) \<noteq> None \<and> CHR '' '' \<notin> set ''Bearer'' \<and>
      eq_ignore_ascii_case ''Bearer'' ''bearer'' \<and> expose (st_token state) \<noteq> [] \<and>
      \<not> contains_whitespace (expose (st_token state))"
    using small_codes_no_whitespace [OF codes] assms(2,3) by simp
  then show ?thesis unfolding authorized_iff by blast
qed

lemma ask_token_Inr:
  assumes "snd (read_token_file (open_file (ce_init ce) fs) path) = Inr token"
    and "ce_var_os ce ''ACP_TUNNEL_TOKEN'' = None"
  obtains con' where "ask_token ce fs (Some path) con = (con', Inr token)"
  using assms
  by (cases "read_token_file (open_file (ce_init ce) fs) path")
    (simp add: ask_token_def load_token_def load_token_from_sources_def)

section \<open>From initialisation to a tunnel\<close>

text \<open>
  C36. After an initialisation that created a hexadecimal token, in a file other than the configuration and than its
  backup name, a server started on the written files with its listener overridden to a loopback address, and a
  connector that reads the same token file, is given no client environment and no other preset, agree when
  \<open>ACP_TUNNEL_TOKEN\<close> is not set and the files can be read: the preparations of both succeed with the token of that
  file, and every request to the tunnel's path that carries it as the connector does, without an origin and as
  a handshake the WebSocket library accepts, opens a WebSocket.
\<close>

theorem initialized_tunnel_opens:
  assumes "initialize_server (ce_init ce) options fs = (fs', Inr report)" and "ir_token_created report"
    and "in_token_path options \<noteq> in_config_path options"
    and "sibling_path (in_config_path options) ''old'' (ra_old (ie_replace (ce_init ce))) \<noteq> Inr (in_token_path options)"
    and "hex_token (ie_random (ce_init ce))"
    and "ie_open (ce_init ce) (in_token_path options) = None" and "ie_stat (ce_init ce) (in_token_path options) = None"
    and "ie_read (ce_init ce) (in_token_path options) = None"
    and "ce_var_os ce ''ACP_TUNNEL_TOKEN'' = None" and "ce_logging ce = None" and "ce_signals ce = None"
    and "sa_config args = Some (in_config_path options)" and "sa_token_file args = Some (in_token_path options)"
    and "sa_listen args = Some address" and "is_loopback (sa_ip address)"
    and "ca_token_file connect = Some (in_token_path options)" and "ca_client_env connect = []" and "\<not> ca_buzz connect"
  shows "\<exists>con1 con2 state settings. prepare_serve ce args fs' con = (con1, Inr state) \<and>
    prepare_connect ce connect fs' con = (con2, Inr settings) \<and>
    co_token settings = SecretToken (ie_random (ce_init ce)) \<and>
    (\<forall>rq. rq_path rq = ''/v1/tunnel'' \<and> rq_handshake rq = None \<and>
       map_of (rq_headers rq) ''authorization'' = Some (''Bearer '' @ expose (co_token settings)) \<and>
       map_of (rq_headers rq) ''origin'' = None \<longrightarrow>
       router state rq = Upgrade (max_frame_bytes (st_config state)))"
proof -
  let ?token = "SecretToken (ie_random (ce_init ce))"
  obtain config where load: "config_load (ce_init ce) (in_config_path options) fs' = Inr config"
    and valid: "validate (ie_url_parse (ce_init ce)) config = Inr ()"
    and stored: "fs' (in_token_path options) = Some \<lparr>sf_contents = ie_random (ce_init ce) @ [LF], sf_mode = PRIVATE_FILE, sf_directory = False\<rparr>"
    using initialize_server_files [OF assms(1,3,4)] assms(2) by auto
  have token: "snd (read_token_file (open_file (ce_init ce) fs') (in_token_path options)) = Inr ?token"
    by (rule hex_token_loads [where fs = fs', OF assms(5) stored assms(6-8)])
  obtain con1 where ask: "ask_token ce fs' (Some (in_token_path options)) con = (con1, Inr ?token)"
    using token assms(9) by (rule ask_token_Inr)
  let ?state = "server_state_new (config\<lparr>listen := address\<rparr>) ?token"
  have "prepare_serve ce args fs' con = (con1, Inr ?state)"
    using load valid ask assms(10-15)
    by (simp add: prepare_serve_def Let_def init_server_logging_def install_handler_def resolve_server_config_file_def
        override_listen_def validate_listen serve_guard_def and_then_Inr_iff answered_def)
  moreover obtain settings where "prepare_connect ce connect fs' con = (con1, Inr settings)" "co_token settings = ?token"
    using ask assms(11,16-18)
    by (simp add: prepare_connect_def install_handler_def and_then_Inr_iff answered_def select_client_environment_def)
  moreover have "router ?state rq = Upgrade (max_frame_bytes (st_config ?state))"
    if "rq_path rq = ''/v1/tunnel''" "rq_handshake rq = None"
      "map_of (rq_headers rq) ''authorization'' = Some (''Bearer '' @ expose ?token)"
      "map_of (rq_headers rq) ''origin'' = None" for rq
    using hex_token_authorized [OF assms(5), of ?state "rq_headers rq"] that
    by (simp add: router_def enforce_upgrade_security_def upgrade_tunnel_def origin_allowed_def server_state_new_def)
  ultimately show ?thesis by auto
qed

definition flow_cli :: cli_env where
  "flow_cli = example_cli\<lparr>ce_doctor := example_doctor\<lparr>de_init := example_init\<rparr>\<rparr>"

definition flow_serve :: serve_args where
  "flow_serve = \<lparr>sa_config = Some ''/c'', sa_listen = Some \<lparr>sa_ip = V4 127 0 0 1, sa_port = 80\<rparr>,
     sa_insecure_listen = False, sa_token_file = Some ''/t''\<rparr>"

definition flow_connect :: connect_args where
  "flow_connect = \<lparr>ca_url = \<lparr>url_scheme = ''ws'', url_host = Some (HostIp (V4 127 0 0 1)), url_port = Some 80\<rparr>,
     ca_agent = ''dev'', ca_workspace = ''main'', ca_max_frame_bytes = 10, ca_max_replay_frames = 2,
     ca_max_replay_bytes = 20, ca_connect_timeout_seconds = 1, ca_keepalive_timeout_seconds = 1,
     ca_reconnect_timeout_seconds = 1, ca_shutdown_timeout_seconds = 1, ca_token_file = Some ''/t'',
     ca_client_env = [], ca_buzz = False\<rparr>"

definition flow_request :: http_request where
  "flow_request = \<lparr>rq_path = ''/v1/tunnel'',
     rq_headers = [(''connection'', ''Upgrade''), (''upgrade'', ''websocket''), (''sec-websocket-version'', ''13''),
       (''sec-websocket-key'', ''dGhlIHNhbXBsZSBub25jZQ==''), (''authorization'', ''Bearer ab''),
       (''user-agent'', ''acp-tunnel/0'')],
     rq_handshake = None\<rparr>"

theorem initialized_tunnel_opens_witness:
  "\<exists>fs' report con1 con2 state settings n.
     initialize_server example_init example_options (\<lambda>_. None) = (fs', Inr report) \<and>
     prepare_serve flow_cli flow_serve fs' example_console = (con1, Inr state) \<and>
     prepare_connect flow_cli flow_connect fs' example_console = (con2, Inr settings) \<and>
     router state flow_request = Upgrade n"
proof -
  have init: "ce_init flow_cli = example_init" by (simp add: flow_cli_def)
  have paths: "in_token_path example_options = ''/t''" "in_config_path example_options = ''/c''"
    by (simp_all add: example_options_def)
  have env: "ie_random example_init = ''ab''" "ra_old (ie_replace example_init) = ''2''" "ie_open example_init p = None"
      "ie_stat example_init p = None" "ie_read example_init p = None" "sh_var_os (ie_host example_init) p = None" for p
    by (simp_all add: example_init_def example_replace_def example_host_def)
  obtain fs' report where run: "initialize_server example_init example_options (\<lambda>_. None) = (fs', Inr report)"
    and created: "ir_token_created report"
    using example_initialized by fastforce
  have "hex_token ''ab''" by (simp add: hex_token_def)
  then obtain con1 con2 state settings where r: "prepare_serve flow_cli flow_serve fs' example_console = (con1, Inr state)"
      "prepare_connect flow_cli flow_connect fs' example_console = (con2, Inr settings)"
      "co_token settings = SecretToken ''ab''"
      "\<forall>rq. rq_path rq = ''/v1/tunnel'' \<and> rq_handshake rq = None \<and>
         map_of (rq_headers rq) ''authorization'' = Some (''Bearer '' @ expose (co_token settings)) \<and>
         map_of (rq_headers rq) ''origin'' = None \<longrightarrow> router state rq = Upgrade (max_frame_bytes (st_config state))"
    using initialized_tunnel_opens [of flow_cli example_options "\<lambda>_. None" fs' report flow_serve
        "\<lparr>sa_ip = V4 127 0 0 1, sa_port = 80\<rparr>" flow_connect example_console] run created
    unfolding init paths env
    by (auto simp: flow_serve_def flow_connect_def flow_cli_def example_cli_def)
  have "router state flow_request = Upgrade (max_frame_bytes (st_config state))"
    using r(4) by (rule allE [where x = flow_request]) (simp add: r(3) flow_request_def)
  with run r(1,2) show ?thesis by blast
qed

end
