(* ===== verification/Acp_Test_Agent.thy ===== *)
theory Acp_Test_Agent
  imports Acp_Errors
begin

text \<open>
  \<^verbatim>\<open>main.rs\<close>, the agent of the integration tests: what it answers to a line, its loop over
  the lines and its end. Each round gives the line that is read and the errors of the writes.
\<close>

section \<open>Replies\<close>

definition pointer :: "string \<Rightarrow> string \<Rightarrow> json \<Rightarrow> json option" where
  "pointer a b v = Option.bind (value_get a v) (value_get b)"

text \<open>An optional identifier in \<open>json!\<close>: \<open>None\<close> is \<open>null\<close>.\<close>

definition id_value :: "json option \<Rightarrow> json" where
  "id_value ident = (case ident of Some v \<Rightarrow> v | None \<Rightarrow> JNull)"

definition response :: "json option \<Rightarrow> json \<Rightarrow> json" where
  "response ident result =
     JObject [(''jsonrpc'', JString ''2.0''), (''id'', id_value ident), (''result'', result)]"

definition initialize_result :: json where
  "initialize_result = JObject
     [(''protocolVersion'', JNumber (PosInt 1)), (''agentCapabilities'', JObject []),
      (''agentInfo'', JObject [(''name'', JString ''acp-tunnel-test-agent''), (''version'', JString ''0'')])]"

definition prompt_messages :: "json list" where
  "prompt_messages =
     [JObject [(''jsonrpc'', JString ''2.0''), (''method'', JString ''session/update''),
        (''params'', JObject [(''sessionId'', JString ''test-session''),
          (''update'', JObject [(''sessionUpdate'', JString ''agent_message_chunk''),
             (''content'', JObject [(''type'', JString ''text''), (''text'', JString ''test'')])])])],
      JObject [(''jsonrpc'', JString ''2.0''), (''id'', JString ''agent-permission-1''),
        (''method'', JString ''session/request_permission''),
        (''params'', JObject [(''sessionId'', JString ''test-session''), (''options'', JArray [])])]]"

definition not_found :: "json option \<Rightarrow> json" where
  "not_found ident =
     JObject [(''jsonrpc'', JString ''2.0''), (''id'', id_value ident),
       (''error'', JObject [(''code'', JNumber (NegInt (- 32601))), (''message'', JString ''method not found'')])]"

text \<open>The lines for standard error of \<open>test/stderr\<close>.\<close>

definition noisy_diagnostics :: "message list" where
  "noisy_diagnostics = map (\<lambda>index. [Lit ''noisy diagnostic '', Num index]) [0..<1000]"

record agent_world =
  aw_env :: "string \<Rightarrow> string option"      \<comment> \<open>\<open>std::env::var(..).ok()\<close>\<close>
  aw_pid :: nat

definition replies :: "agent_world \<Rightarrow> json \<Rightarrow> string \<Rightarrow> message list \<times> json list" where
  "replies w request m =
     (let ident = value_get ''id'' request
      in if m = ''initialize'' then ([], [response ident initialize_result])
         else if m = ''session/new''
         then ([], [response ident (JObject [(''sessionId'', JString ''test-session''),
                 (''observedCwd'', case pointer ''params'' ''cwd'' request of Some v \<Rightarrow> v | None \<Rightarrow> JNull)])])
         else if m = ''session/prompt''
         then ([], prompt_messages @ [response ident (JObject [(''stopReason'', JString ''end_turn'')])])
         else if m = ''session/cancel'' then ([], if ident \<noteq> None then [response ident (JObject [])] else [])
         else if m = ''test/exit'' then ([], [response ident (JObject [])])
         else if m = ''test/stderr''
         then (noisy_diagnostics, [response ident (JObject [(''stderrComplete'', JBool True)])])
         else if m = ''test/pid'' then ([], [response ident (JObject [(''pid'', JNumber (PosInt (aw_pid w)))])])
         else if m = ''test/environment''
         then (let name = (case Option.bind (pointer ''params'' ''name'' request) as_str of Some s \<Rightarrow> s | None \<Rightarrow> [])
               in ([], [response ident (JObject [(''value'',
                     case aw_env w name of Some v \<Rightarrow> JString v | None \<Rightarrow> JNull)])]))
         else ([], if ident \<noteq> None then [not_found ident] else []))"

section \<open>The loop\<close>

fun write_json :: "(nat \<Rightarrow> string option) \<Rightarrow> json list \<Rightarrow> json list \<times> (error + unit)" where
  "write_json answers [] = ([], Inr ())"
| "write_json answers (v # vs) =
     (case answers 0 of
        Some e \<Rightarrow> ([], Inl (Io e))
      | None \<Rightarrow> (case write_json (\<lambda>n. answers (Suc n)) vs of (written, r) \<Rightarrow> (v # written, r)))"

record agent_round =
  ar_line :: "string + string"
  ar_writes :: "nat \<Rightarrow> string option"

text \<open>The list of rounds ends where the input does.\<close>

fun agent_loop :: "serde_json \<Rightarrow> agent_world \<Rightarrow> agent_round list \<Rightarrow> message list \<times> json list \<times> (error + unit)" where
  "agent_loop sj w [] = ([], [], Inr ())"
| "agent_loop sj w (round # rounds) =
     (case ar_line round of
        Inl e \<Rightarrow> ([], [], Inl (Io e))
      | Inr line \<Rightarrow>
          (case sj_value sj line of
             Inl e \<Rightarrow> ([], [], Inl (Json e))
           | Inr request \<Rightarrow>
               (case Option.bind (value_get ''method'' request) as_str of
                  None \<Rightarrow> agent_loop sj w rounds
                | Some m \<Rightarrow>
                    (case replies w request m of (diagnostics, messages) \<Rightarrow>
                       (case write_json (ar_writes round) messages of
                          (written, Inl e) \<Rightarrow> (diagnostics, written, Inl e)
                        | (written, Inr _) \<Rightarrow>
                            if m = ''test/exit'' then (diagnostics, written, Inr ())
                            else (case agent_loop sj w rounds of
                                    (ds, ws, r) \<Rightarrow> (diagnostics @ ds, written @ ws, r)))))))"

text \<open>
  The whole agent: a grandchild if one is asked for, the handler of an uncooperative agent, which then
  waits for signals for as long as there are any (\<open>None\<close>: it does not end).
\<close>

definition run_test_agent ::
    "serde_json \<Rightarrow> agent_world \<Rightarrow> bool \<Rightarrow> bool \<Rightarrow> string + string \<Rightarrow> string + nat \<Rightarrow> string option \<Rightarrow> bool
      \<Rightarrow> agent_round list \<Rightarrow> message list \<times> json list \<times> (error + unit) option" where
  "run_test_agent sj w uncooperative spawn_grandchild executable spawned handler signals_end rounds =
     (let started = (if spawn_grandchild
                     then rbind (map_err (\<lambda>e. Process [Lit ''cannot find test executable: '', Disp e]) executable) (\<lambda>_.
                          rbind (map_err (\<lambda>e. Process [Lit ''cannot start test-agent grandchild: '', Disp e]) spawned)
                            (\<lambda>pid. Inr [[Lit ''fake-agent grandchild-pid='', Num pid]]))
                     else Inr [])
      in case started of
           Inl e \<Rightarrow> ([], [], Some (Inl e))
         | Inr lines \<Rightarrow>
             (case (if uncooperative then handler else None) of
                Some e \<Rightarrow> (lines, [], Some (Inl (Process [Lit ''cannot install test SIGTERM handler: '', Disp e])))
              | None \<Rightarrow>
                  (case agent_loop sj w rounds of
                     (diagnostics, written, r) \<Rightarrow>
                       (lines @ [[Lit ''fake-agent pid='', Num (aw_pid w)]] @ diagnostics, written,
                        if uncooperative \<and> r = Inr () \<and> \<not> signals_end then None else Some r))))"

section \<open>Every request is answered\<close>

definition answers_to :: "json \<Rightarrow> json \<Rightarrow> bool" where
  "answers_to ident v \<longleftrightarrow>
     value_get ''id'' v = Some ident \<and> value_get ''method'' v = None \<and>
     (value_get ''result'' v \<noteq> None \<or> value_get ''error'' v \<noteq> None)"

lemma response_answers [simp]: "answers_to ident (response (Some ident) result)" "answers_to ident (not_found (Some ident))"
  by (simp_all add: answers_to_def response_def not_found_def id_value_def)

lemma prompt_messages_no_answers: "filter (answers_to ident) prompt_messages = []"
  by (simp add: prompt_messages_def answers_to_def)

lemma replies_answer_once:
  assumes "value_get ''id'' request = Some ident"
  shows "length (filter (answers_to ident) (snd (replies w request m))) = 1 \<and>
    answers_to ident (last (snd (replies w request m)))"
  using assms by (simp add: replies_def Let_def prompt_messages_no_answers)

definition is_response :: "json \<Rightarrow> bool" where
  "is_response v \<longleftrightarrow> value_get ''method'' v = None"

definition request_of :: "serde_json \<Rightarrow> agent_round \<Rightarrow> json option" where
  "request_of sj round =
     (case ar_line round of
        Inl _ \<Rightarrow> None
      | Inr line \<Rightarrow> (case sj_value sj line of Inl _ \<Rightarrow> None | Inr request \<Rightarrow> Some request))"

text \<open>A request with an identifier, other than the one that ends the agent, whose replies can be written.\<close>

definition plain_request :: "serde_json \<Rightarrow> agent_round \<Rightarrow> bool" where
  "plain_request sj round \<longleftrightarrow>
     (case request_of sj round of
        None \<Rightarrow> False
      | Some request \<Rightarrow>
          value_get ''id'' request \<noteq> None \<and>
          (case Option.bind (value_get ''method'' request) as_str of None \<Rightarrow> False | Some m \<Rightarrow> m \<noteq> ''test/exit'') \<and>
          list_all (\<lambda>n. ar_writes round n = None) [0..<3])"

lemma write_json_all: "(\<And>n. n < length vs \<Longrightarrow> answers n = None) \<Longrightarrow> write_json answers vs = (vs, Inr ())"
proof (induction vs arbitrary: answers)
  case (Cons v vs)
  have "answers 0 = None" using Cons.prems [of 0] by simp
  moreover have "write_json (\<lambda>n. answers (Suc n)) vs = (vs, Inr ())"
    using Cons.prems by (intro Cons.IH) simp
  ultimately show ?case by simp
qed simp

lemma replies_short: "length (snd (replies w request m)) \<le> 3"
  by (simp add: replies_def Let_def prompt_messages_def)

lemma replies_response:
  "value_get ''id'' request = Some ident \<Longrightarrow>
     map (value_get ''id'') (filter is_response (snd (replies w request m))) = [Some ident]"
  by (simp add: replies_def Let_def prompt_messages_def is_response_def response_def not_found_def id_value_def)

text \<open>
  The test agent answers requests in order: for requests with identifiers, the identifiers of its responses are
  those of the requests, each once.
\<close>

theorem test_agent_answers_in_order:
  assumes "list_all (plain_request sj) rounds"
  shows "\<exists>ds out. agent_loop sj w rounds = (ds, out, Inr ()) \<and>
    map (value_get ''id'') (filter is_response out)
      = map (\<lambda>round. Option.bind (request_of sj round) (value_get ''id'')) rounds"
  using assms
proof (induction rounds)
  case (Cons round rounds)
  then obtain ds out where rest: "agent_loop sj w rounds = (ds, out, Inr ())"
      "map (value_get ''id'') (filter is_response out)
        = map (\<lambda>round. Option.bind (request_of sj round) (value_get ''id'')) rounds"
    by auto
  from Cons.prems obtain line request ident m where r: "ar_line round = Inr line" "sj_value sj line = Inr request"
      "value_get ''id'' request = Some ident" "Option.bind (value_get ''method'' request) as_str = Some m"
      "m \<noteq> ''test/exit''"
    and writes: "ar_writes round 0 = None" "ar_writes round 1 = None" "ar_writes round 2 = None"
    by (auto simp: plain_request_def request_of_def upt_rec numeral_2_eq_2 split: option.splits sum.splits)
  obtain diagnostics messages where rep: "replies w request m = (diagnostics, messages)"
    by (cases "replies w request m")
  have written: "write_json (ar_writes round) messages = (messages, Inr ())"
  proof (rule write_json_all)
    fix n assume "n < length messages"
    with replies_short [of w request m] rep have "n = 0 \<or> n = 1 \<or> n = 2" by auto
    with writes show "ar_writes round n = None" by auto
  qed
  have "request_of sj round = Some request" using r by (simp add: request_of_def)
  with r rep written rest replies_response [of request ident w m] show ?case by simp
qed simp

end
