(* ===== verification/Acp_Host.thy ===== *)
theory Acp_Host
  imports Acp_Session_End Acp_Server
begin

text \<open>
  \<^verbatim>\<open>server.rs\<close>, the server as a whole: many tunnels at once. Every \<open>run_tunnel\<close> task that started an
  agent has its own session and its own channel of attachments; the tasks share the configuration and
  the table of sessions. A step is one step of one task, or the arrival of an opening request.
\<close>

section \<open>When a session leaves the table\<close>

lemma resumable_fields [simp]:
  "resumable (detach_transport config io s) = resumable s"
  "resumable (accept gen cs s) = resumable s"
  "resumable (end_with category s) = resumable s"
  "resumable (send_ignoring_error io c s) = resumable s"
  "resumable (send_client_ack io n s) = resumable s"
  "resumable (count_inbound payload s) = resumable s"
  "resumable (pump_transport config io s) = resumable s"
  "resumable (keepalive_tick config io s) = resumable s"
  "resumable (forward_diagnostic io payload s) = resumable s"
  by (simp_all add: session_ops pump_transport_def keepalive_tick_def forward_diagnostic_def Let_def
      split: option.splits prod.splits)

lemma resumable_send_exit: "send_exit io gen status s = (s', sent) \<Longrightarrow> resumable s' = resumable s"
  by (cases "io_notice_accepted io") (auto simp: send_exit_def split: prod.splits)

lemma resumable_notify [simp]: "resumable (notify_exit config io s) = resumable s"
  by (auto simp: notify_exit_def dest: resumable_send_exit split: option.split prod.split)

lemma resumable_prologue [simp]: "resumable (prologue config io s) = resumable s"
  by (simp add: prologue_def)

lemma resumable_queue: "queue_server_frame payload s = Inr s' \<Longrightarrow> resumable s' = resumable s"
  by (auto simp: queue_server_frame_def split: option.splits prod.splits)

lemma resumable_advance: "advance_client io payload s = Inr s' \<Longrightarrow> resumable s' = resumable s"
  by (auto simp: advance_client_def split: option.splits)

lemma resumable_deliver:
  assumes "deliver cx io payload s = Inr s'"
  shows "resumable s' = resumable s"
proof -
  from assms obtain outcome where "policy_apply (cx_env cx) (cx_policy cx) payload = Inr outcome"
    by (auto simp: deliver_def rbind_Inr_iff)
  with assms show ?thesis
    by (cases outcome; cases "io_stdin io")
      (auto simp: deliver_def rbind_Inr_iff dest!: resumable_queue resumable_advance split: if_splits)
qed

lemma resumable_handle: "handle_client_envelope cx io env s = Inr s' \<Longrightarrow> resumable s' = resumable s"
  by (cases "(cx, io, env, s)" rule: handle_client_envelope.cases)
    (auto simp: Let_def dest!: resumable_deliver split: if_splits prod.splits)

lemma resumable_receive:
  assumes "receive_envelope cx io env s = Inr s'"
  shows "resumable s' = resumable s \<or> end_category s' = Some ''client_shutdown'' \<and> \<not> resumable s'"
proof -
  from assms obtain s1 where h: "handle_client_envelope cx io env (s\<lparr>last_received := io_now io\<rparr>) = Inr s1"
    and s': "(if shutdown_reason s1 \<noteq> None
      then Inr (end_with ''client_shutdown'' (s1\<lparr>resumable := False\<rparr>)) else Inr s1) = (Inr s' :: error + session)"
    by (auto simp: receive_envelope_def rbind_Inr_iff)
  from resumable_handle [OF h] s' show ?thesis by (auto simp: end_with_def split: if_splits)
qed

lemma resumable_transport:
  assumes "receive_transport cx io event s = Inr s'"
  shows "resumable s' = resumable s \<or> end_category s' = Some ''client_shutdown'' \<and> \<not> resumable s'"
  using assms resumable_receive [of cx io _ s s']
  by (cases "te_kind event") (auto simp: receive_transport_def split: if_splits)

lemma resumable_attach: "attach_socket cx io s = Inr s' \<Longrightarrow> resumable s' = resumable s"
  by (auto simp: attach_socket_def Let_def split: option.splits prod.splits sum.splits)

text \<open>Only a shutdown by the client removes the entry of a session in its loop, and it ends the loop.\<close>

lemma resumable_branch:
  assumes "take_branch cx io event s = Inr s'"
  shows "resumable s' = resumable s \<or> end_category s' = Some ''client_shutdown'' \<and> \<not> resumable s'"
  using assms resumable_transport [of cx io _ s s'] resumable_attach [of cx io s s'] resumable_queue [of _ s s']
  by (cases "(cx, io, event, s)" rule: take_branch.cases) (auto simp: rbind_Inr_iff split: if_splits)

lemma resumable_iteration:
  assumes "iteration cx io event s = Some (Inr s')"
  shows "resumable s' = resumable s \<or> end_category s' = Some ''client_shutdown'' \<and> \<not> resumable s'"
  using assms resumable_branch [of cx io event "prologue (cx_config cx) io s" s']
  by (auto simp: iteration_def Let_def split: if_splits)

lemma session_reach_resumable:
  "session_reach cx s \<Longrightarrow> resumable s \<or> end_category s = Some ''client_shutdown''"
proof (induction rule: session_reach.induct)
  case (session_started io process s)
  then show ?case
    by (auto simp: start_session_def rbind_Inr_iff initial_session_def split: prod.splits)
next
  case (session_next s event io s')
  then show ?case using resumable_iteration [OF session_next.hyps(4)] by auto
qed

section \<open>The server and its tunnels\<close>

text \<open>
  A tunnel that started an agent: its entry is in the table before \<open>run_agent_session\<close> attaches the first
  transport (\<open>Starting\<close>). The channel of attachments is the list of requests whose sockets wait in it;
  the history keeps every request whose socket ever entered it.
\<close>

datatype tunnel_phase = Starting | Running session

record tunnel_state =
  tt_context :: session_context
  tt_process :: agent_process
  tt_request :: open_request
  tt_phase :: tunnel_phase
  tt_waiting :: "open_request list"
  tt_accepted :: "open_request list"     \<comment> \<open>history\<close>

text \<open>
  A request whose credentials were accepted waits for room in the channel it was given
  (\<open>ho_resuming\<close>): \<open>resume_tunnel\<close> releases the table before it sends the socket. The identifiers that
  were ever drawn are a history.
\<close>

record host =
  ho_state :: server_state
  ho_tunnels :: "string \<Rightarrow> tunnel_state option"
  ho_resuming :: "(string \<times> open_request) list"
  ho_drawn :: "string set"     \<comment> \<open>history\<close>

definition ATTACHMENT_CAPACITY :: nat where
  "ATTACHMENT_CAPACITY = 2"

definition host_new :: "server_config \<Rightarrow> secret_token \<Rightarrow> host" where
  "host_new config token =
     \<lparr>ho_state = server_state_new config token, ho_tunnels = (\<lambda>_. None), ho_resuming = [], ho_drawn = {}\<rparr>"

text \<open>An opening request on a new WebSocket; \<open>c\<close> and \<open>token\<close> are the identifiers drawn for it.\<close>

definition host_open ::
    "server_env \<Rightarrow> policy_env \<Rightarrow> string \<Rightarrow> string \<Rightarrow> open_recv \<Rightarrow> host \<Rightarrow> host" where
  "host_open se pe c token recv h =
     (case run_tunnel se c token recv SetupSent (ho_state h) of
        (state, _, TunnelFailed _) \<Rightarrow> h\<lparr>ho_state := state\<rparr>
      | (state, _, TunnelResumed resumed) \<Rightarrow>
          (case snd (read_open se recv) of
             Inl _ \<Rightarrow> h\<lparr>ho_state := state\<rparr>
           | Inr req \<Rightarrow> h\<lparr>ho_state := state, ho_resuming := ho_resuming h @ [(resumed, req)]\<rparr>)
      | (state, _, TunnelStarted process policy req) \<Rightarrow>
          h\<lparr>ho_state := state, ho_drawn := insert c (ho_drawn h), ho_tunnels := (ho_tunnels h)(c \<mapsto>
            \<lparr>tt_context = \<lparr>cx_config = st_config (ho_state h), cx_policy = policy, cx_env = pe,
               cx_connection_id = c, cx_resume_token = token\<rparr>,
             tt_process = process, tt_request = req, tt_phase = Starting, tt_waiting = [], tt_accepted = []\<rparr>)\<rparr>)"

text \<open>The end of the send of a resumption: into the channel, or without effect.\<close>

definition host_attach :: "string \<Rightarrow> open_request \<Rightarrow> tunnel_state \<Rightarrow> host \<Rightarrow> host" where
  "host_attach c req t h =
     h\<lparr>ho_resuming := remove1 (c, req) (ho_resuming h), ho_tunnels := (ho_tunnels h)(c \<mapsto>
       t\<lparr>tt_waiting := tt_waiting t @ [req], tt_accepted := tt_accepted t @ [req]\<rparr>)\<rparr>"

definition host_abandon :: "string \<times> open_request \<Rightarrow> host \<Rightarrow> host" where
  "host_abandon resumption h = h\<lparr>ho_resuming := remove1 resumption (ho_resuming h)\<rparr>"

definition end_tunnel :: "string \<Rightarrow> host \<Rightarrow> host" where
  "end_tunnel c h = h\<lparr>ho_state := remove_session c (ho_state h), ho_tunnels := (ho_tunnels h)(c := None)\<rparr>"

text \<open>The new state of a session; a shutdown by its client has removed its entry.\<close>

definition set_phase :: "string \<Rightarrow> tunnel_state \<Rightarrow> session \<Rightarrow> host \<Rightarrow> host" where
  "set_phase c t s h =
     h\<lparr>ho_state := (if resumable s then ho_state h else remove_session c (ho_state h)),
       ho_tunnels := (ho_tunnels h)(c \<mapsto> t\<lparr>tt_phase := Running s\<rparr>)\<rparr>"

definition host_start :: "session_io \<Rightarrow> string \<Rightarrow> tunnel_state \<Rightarrow> host \<Rightarrow> host" where
  "host_start io c t h =
     (case start_session (tt_context t) io (tt_process t) of
        Inl _ \<Rightarrow> end_tunnel c h
      | Inr s \<Rightarrow> set_phase c t s h)"

text \<open>
  A turn of a session takes the socket it attaches from its channel; a turn whose notice of the exit
  ended the loop reaches no branch.
\<close>

definition take_waiting :: "session_io \<Rightarrow> select_event \<Rightarrow> session \<Rightarrow> tunnel_state \<Rightarrow> tunnel_state" where
  "take_waiting io event s t =
     (if event = Attachment True \<and> end_category (prologue (cx_config (tt_context t)) io s) = None
      then t\<lparr>tt_waiting := tl (tt_waiting t)\<rparr> else t)"

definition host_turn :: "session_io \<Rightarrow> select_event \<Rightarrow> string \<Rightarrow> tunnel_state \<Rightarrow> session \<Rightarrow> host \<Rightarrow> host" where
  "host_turn io event c t s h =
     (case iteration (tt_context t) io event s of
        None \<Rightarrow> h
      | Some (Inl _) \<Rightarrow> end_tunnel c h
      | Some (Inr s') \<Rightarrow> set_phase c (take_waiting io event s t) s' h)"

text \<open>What follows the loop; without a result the task still waits for the agent's process.\<close>

definition host_finish :: "end_io \<Rightarrow> string \<Rightarrow> tunnel_state \<Rightarrow> session \<Rightarrow> host \<Rightarrow> host" where
  "host_finish en c t s h =
     (case finish_session (tt_context t) en s of
        (_, _, None) \<Rightarrow> h
      | (_, _, Some _) \<Rightarrow> end_tunnel c h)"

text \<open>
  A resumption enters a channel with room. A channel delivers the sockets that wait in it, and it is
  closed when nothing holds its sending end any more: neither the entry of the table nor a resumption.
  Identifiers drawn by \<open>uuid\<close> are new.
\<close>

inductive host_step :: "server_env \<Rightarrow> policy_env \<Rightarrow> host \<Rightarrow> host \<Rightarrow> bool" for se pe where
  step_open: "host_step se pe h (host_open se pe c token recv h)"
  if "c \<notin> ho_drawn h" and "token \<noteq> []"
| step_attach: "host_step se pe h (host_attach c req t h)"
  if "(c, req) \<in> set (ho_resuming h)" and "ho_tunnels h c = Some t"
    and "length (tt_waiting t) < ATTACHMENT_CAPACITY"
| step_abandon: "host_step se pe h (host_abandon resumption h)"
  if "resumption \<in> set (ho_resuming h)"
| step_start: "host_step se pe h (host_start io c t h)"
  if "ho_tunnels h c = Some t" and "tt_phase t = Starting"
| step_turn: "host_step se pe h (host_turn io event c t s h)"
  if "ho_tunnels h c = Some t" and "tt_phase t = Running s" and "end_category s = None"
    and "event_ok (cx_config (tt_context t)) event" and "event = Attachment True \<Longrightarrow> tt_waiting t \<noteq> []"
    and "event = Attachment False \<Longrightarrow> st_sessions (ho_state h) c = None \<and> c \<notin> fst ` set (ho_resuming h)"
| step_finish: "host_step se pe h (host_finish en c t s h)"
  if "ho_tunnels h c = Some t" and "tt_phase t = Running s" and "end_category s \<noteq> None"

inductive host_reach :: "server_env \<Rightarrow> policy_env \<Rightarrow> host \<Rightarrow> host \<Rightarrow> bool" for se pe h0 where
  host_initial: "host_reach se pe h0 h0"
| host_next: "host_reach se pe h0 h \<Longrightarrow> host_step se pe h h' \<Longrightarrow> host_reach se pe h0 h'"

section \<open>The invariant\<close>

text \<open>What the server admitted: the agent and the workspace are configured, and so is the policy.\<close>

definition admitted :: "server_env \<Rightarrow> server_config \<Rightarrow> tunnel_state \<Rightarrow> bool" where
  "admitted se config t \<longleftrightarrow>
     (\<exists>agent workspace. map_of (agents config) (or_agent (tt_request t)) = Some agent \<and>
        or_workspace (tt_request t) \<in> set (ag_workspaces agent) \<and>
        map_of (workspaces config) (or_workspace (tt_request t)) = Some workspace \<and>
        cx_policy (tt_context t) = policy_new (sv_lossy se (ws_path workspace)) (rewrite_cwd config)
          (ag_mcp_policy agent) (mcp_servers config))"

text \<open>The requests that a tunnel accepts: its own identifier and token, agent and workspace, no variables.\<close>

definition rightful :: "tunnel_state \<Rightarrow> open_request \<Rightarrow> bool" where
  "rightful t req \<longleftrightarrow>
     or_resume req = Some \<lparr>connection_id = cx_connection_id (tt_context t),
                           resume_token = cx_resume_token (tt_context t)\<rparr> \<and>
     or_agent req = or_agent (tt_request t) \<and> or_workspace req = or_workspace (tt_request t) \<and>
     or_client_environment req = []"

definition entry_of :: "tunnel_state \<Rightarrow> resume_entry" where
  "entry_of t = \<lparr>re_resume_token = cx_resume_token (tt_context t), re_agent = or_agent (tt_request t),
     re_workspace = or_workspace (tt_request t)\<rparr>"

definition table_entry :: "tunnel_state option \<Rightarrow> resume_entry option" where
  "table_entry x =
     (case x of
        None \<Rightarrow> None
      | Some t \<Rightarrow>
          (case tt_phase t of
             Starting \<Rightarrow> Some (entry_of t)
           | Running s \<Rightarrow> if resumable s then Some (entry_of t) else None))"

definition tunnel_ok :: "server_env \<Rightarrow> server_config \<Rightarrow> string \<Rightarrow> tunnel_state \<Rightarrow> bool" where
  "tunnel_ok se config c t \<longleftrightarrow>
     cx_config (tt_context t) = config \<and> cx_connection_id (tt_context t) = c \<and>
     cx_resume_token (tt_context t) \<noteq> [] \<and> admitted se config t \<and>
     (\<forall>req\<in>set (tt_accepted t). rightful t req) \<and>
     (\<exists>taken. tt_accepted t = taken @ tt_waiting t) \<and> length (tt_waiting t) \<le> ATTACHMENT_CAPACITY \<and>
     (\<forall>s. tt_phase t = Running s \<longrightarrow> session_reach (tt_context t) s)"

definition host_inv :: "server_env \<Rightarrow> server_config \<Rightarrow> host \<Rightarrow> bool" where
  "host_inv se config h \<longleftrightarrow>
     st_config (ho_state h) = config \<and> finite (ho_drawn h) \<and>
     (\<forall>c t. ho_tunnels h c = Some t \<longrightarrow> c \<in> ho_drawn h \<and> tunnel_ok se config c t) \<and>
     (\<forall>c req. (c, req) \<in> set (ho_resuming h) \<longrightarrow>
        c \<in> ho_drawn h \<and> (\<forall>t. ho_tunnels h c = Some t \<longrightarrow> rightful t req)) \<and>
     st_sessions (ho_state h) = (\<lambda>c. table_entry (ho_tunnels h c))"

lemma table_entry_Some:
  "table_entry x = Some entry \<Longrightarrow> \<exists>t. x = Some t \<and> entry = entry_of t"
  by (auto simp: table_entry_def split: option.splits tunnel_phase.splits if_splits)

lemma tunnel_updates [simp]:
  "rightful (t\<lparr>tt_phase := phase\<rparr>) = rightful t"
  "rightful (t\<lparr>tt_waiting := ws, tt_accepted := acc\<rparr>) = rightful t"
  "rightful (take_waiting io event s t) = rightful t"
  "entry_of (t\<lparr>tt_phase := phase\<rparr>) = entry_of t"
  "entry_of (t\<lparr>tt_waiting := ws, tt_accepted := acc\<rparr>) = entry_of t"
  "entry_of (take_waiting io event s t) = entry_of t"
  "admitted se config (t\<lparr>tt_phase := phase\<rparr>) = admitted se config t"
  "admitted se config (t\<lparr>tt_waiting := ws, tt_accepted := acc\<rparr>) = admitted se config t"
  "tt_context (take_waiting io event s t) = tt_context t"
  by (auto simp: rightful_def entry_of_def admitted_def take_waiting_def fun_eq_iff)

lemma host_new_inv: "host_inv se config (host_new config token)"
  by (simp add: host_inv_def host_new_def server_state_new_def table_entry_def)

lemma end_tunnel_inv: "host_inv se config h \<Longrightarrow> host_inv se config (end_tunnel c h)"
  by (auto simp: host_inv_def end_tunnel_def remove_session_def table_entry_def split: if_splits)

lemma set_phase_inv:
  assumes inv: "host_inv se config h" and t: "ho_tunnels h c = Some t"
    and ok: "tunnel_ok se config c (t'\<lparr>tt_phase := Running s\<rparr>)" and same: "rightful t' = rightful t"
    and entry: "resumable s \<Longrightarrow> table_entry (Some t) = Some (entry_of t')"
  shows "host_inv se config (set_phase c t' s h)"
proof -
  have "st_sessions (ho_state (set_phase c t' s h)) = (\<lambda>d. table_entry (ho_tunnels (set_phase c t' s h) d))"
    using inv t entry by (auto simp: host_inv_def set_phase_def remove_session_def table_entry_def [of "Some (tt_phase_update _ _)"])
  moreover have "rightful t' req" if "(c, req) \<in> set (ho_resuming h)" for req
    using that inv t unfolding same by (simp add: host_inv_def)
  moreover have "st_config (ho_state (set_phase c t' s h)) = config"
    using inv by (simp add: host_inv_def set_phase_def remove_session_def)
  ultimately show ?thesis using inv t ok by (auto simp: host_inv_def set_phase_def)
qed

lemma host_attach_inv:
  assumes inv: "host_inv se config h" and r: "(c, req) \<in> set (ho_resuming h)" and t: "ho_tunnels h c = Some t"
    and room: "length (tt_waiting t) < ATTACHMENT_CAPACITY"
  shows "host_inv se config (host_attach c req t h)"
proof -
  let ?t = "t\<lparr>tt_waiting := tt_waiting t @ [req], tt_accepted := tt_accepted t @ [req]\<rparr>"
  have "tunnel_ok se config c t" "rightful t req" using inv r t by (simp_all add: host_inv_def)
  with room have "tunnel_ok se config c ?t" by (auto simp: tunnel_ok_def)
  moreover have "table_entry (Some ?t) = table_entry (Some t)"
    by (simp add: table_entry_def split: tunnel_phase.split)
  moreover have "rightful t req'" if "(c, req') \<in> set (remove1 (c, req) (ho_resuming h))" for req'
    using that inv t set_remove1_subset [of "(c, req)" "ho_resuming h"] by (auto simp: host_inv_def)
  moreover have "p \<in> set (ho_resuming h)" if "p \<in> set (remove1 (c, req) (ho_resuming h))" for p
    using that set_remove1_subset [of "(c, req)" "ho_resuming h"] by blast
  ultimately show ?thesis using inv t
    by (auto simp: host_inv_def host_attach_def fun_eq_iff)
qed

lemma host_abandon_inv: "host_inv se config h \<Longrightarrow> host_inv se config (host_abandon resumption h)"
  by (auto simp: host_inv_def host_abandon_def dest: set_mp [OF set_remove1_subset])

lemma run_tunnel_resumed:
  assumes "run_tunnel se c token recv answer state = (state', out, TunnelResumed resumed)"
  obtains req entry where "snd (read_open se recv) = Inr req" and "state' = state"
    and "st_sessions state resumed = Some entry"
    and "or_resume req = Some \<lparr>connection_id = resumed, resume_token = re_resume_token entry\<rparr>"
    and "or_agent req = re_agent entry" and "or_workspace req = re_workspace entry"
    and "or_client_environment req = []"
proof -
  from assms obtain req resume where r: "snd (read_open se recv) = Inr req" "state' = state"
      "or_resume req = Some resume" "snd (resume_tunnel se state answer req) = Inr resumed"
    by (auto simp: run_tunnel_def split: prod.splits sum.splits if_splits)
  from r(4) obtain entry where e: "resumed = connection_id resume" "st_sessions state resumed = Some entry"
      "re_agent entry = or_agent req" "re_workspace entry = or_workspace req"
      "re_resume_token entry = resume_token resume" "or_client_environment req = []"
    unfolding resume_tunnel_Inr [OF r(3)] by auto
  have "or_resume req = Some \<lparr>connection_id = resumed, resume_token = re_resume_token entry\<rparr>"
    using r(3) e by (cases resume) simp
  with that r e show thesis by auto
qed

lemma run_tunnel_started:
  assumes "run_tunnel se c token recv answer state = (state', out, TunnelStarted process policy req)"
  obtains agent workspace where "state' = state\<lparr>st_sessions := (st_sessions state)(c \<mapsto>
      \<lparr>re_resume_token = token, re_agent = or_agent req, re_workspace = or_workspace req\<rparr>)\<rparr>"
    and "map_of (agents (st_config state)) (or_agent req) = Some agent" and "or_workspace req \<in> set (ag_workspaces agent)"
    and "map_of (workspaces (st_config state)) (or_workspace req) = Some workspace"
    and "policy = policy_new (sv_lossy se (ws_path workspace)) (rewrite_cwd (st_config state))
      (ag_mcp_policy agent) (mcp_servers (st_config state))"
  using assms
  by (auto simp: run_tunnel_def prepare_agent_def Let_def split: option.splits sum.splits prod.splits if_splits)

lemma run_tunnel_failed:
  "run_tunnel se c token recv answer state = (state', out, TunnelFailed e) \<Longrightarrow> state' = state"
  by (auto simp: run_tunnel_def split: sum.splits prod.splits if_splits)

lemma host_open_resumed:
  assumes "run_tunnel se c token recv SetupSent (ho_state h) = (ho_state h, out, TunnelResumed resumed)"
    and "read_open se recv = (out', Inr req)"
  shows "host_open se pe c token recv h = h\<lparr>ho_resuming := ho_resuming h @ [(resumed, req)]\<rparr>"
  using assms by (simp add: host_open_def)

lemma host_open_inv:
  assumes inv: "host_inv se config h" and fresh: "c \<notin> ho_drawn h" and token: "token \<noteq> []"
  shows "host_inv se config (host_open se pe c token recv h)"
proof (cases "run_tunnel se c token recv SetupSent (ho_state h)")
  case run: (fields state out tunnel)
  show ?thesis
  proof (cases tunnel)
    case (TunnelFailed e)
    with run run_tunnel_failed have "state = ho_state h" by blast
    with run TunnelFailed inv show ?thesis by (simp add: host_open_def)
  next
    case (TunnelResumed resumed)
    obtain req entry where r: "snd (read_open se recv) = Inr req" "state = ho_state h"
        "st_sessions (ho_state h) resumed = Some entry"
        "or_resume req = Some \<lparr>connection_id = resumed, resume_token = re_resume_token entry\<rparr>"
        "or_agent req = re_agent entry" "or_workspace req = re_workspace entry" "or_client_environment req = []"
      using run [unfolded TunnelResumed] by (rule run_tunnel_resumed)
    then obtain t where t: "ho_tunnels h resumed = Some t" "entry = entry_of t"
      using inv table_entry_Some by (auto simp: host_inv_def)
    have ok: "tunnel_ok se config resumed t" "resumed \<in> ho_drawn h" using inv t(1) by (simp_all add: host_inv_def)
    then have "rightful t req" using r t(2) by (simp add: rightful_def entry_of_def tunnel_ok_def)
    moreover have "host_open se pe c token recv h = h\<lparr>ho_resuming := ho_resuming h @ [(resumed, req)]\<rparr>"
      using run TunnelResumed r(1,2) by (simp add: host_open_def)
    ultimately show ?thesis using inv t(1) ok(2) by (auto simp: host_inv_def)
  next
    case (TunnelStarted process policy req)
    obtain agent workspace where s: "state = (ho_state h)\<lparr>st_sessions := (st_sessions (ho_state h))(c \<mapsto>
          \<lparr>re_resume_token = token, re_agent = or_agent req, re_workspace = or_workspace req\<rparr>)\<rparr>"
        "map_of (agents (st_config (ho_state h))) (or_agent req) = Some agent" "or_workspace req \<in> set (ag_workspaces agent)"
        "map_of (workspaces (st_config (ho_state h))) (or_workspace req) = Some workspace"
        "policy = policy_new (sv_lossy se (ws_path workspace)) (rewrite_cwd (st_config (ho_state h)))
          (ag_mcp_policy agent) (mcp_servers (st_config (ho_state h)))"
      using run [unfolded TunnelStarted] by (rule run_tunnel_started)
    let ?t = "\<lparr>tt_context = \<lparr>cx_config = st_config (ho_state h), cx_policy = policy, cx_env = pe,
        cx_connection_id = c, cx_resume_token = token\<rparr>, tt_process = process, tt_request = req,
        tt_phase = Starting, tt_waiting = [], tt_accepted = []\<rparr>"
    have "tunnel_ok se config c ?t"
      using inv s(2-5) token by (simp add: tunnel_ok_def admitted_def host_inv_def)
    moreover have "host_open se pe c token recv h
        = h\<lparr>ho_state := state, ho_drawn := insert c (ho_drawn h), ho_tunnels := (ho_tunnels h)(c \<mapsto> ?t)\<rparr>"
      using run TunnelStarted by (simp add: host_open_def)
    moreover have "(c, req') \<notin> set (ho_resuming h)" for req' using inv fresh by (auto simp: host_inv_def)
    ultimately show ?thesis
      using inv s(1) by (auto simp: host_inv_def table_entry_def entry_of_def fun_eq_iff)
  qed
qed

lemma host_start_inv:
  assumes inv: "host_inv se config h" and t: "ho_tunnels h c = Some t" and phase: "tt_phase t = Starting"
  shows "host_inv se config (host_start io c t h)"
proof (cases "start_session (tt_context t) io (tt_process t)")
  case (Inl e)
  with inv end_tunnel_inv show ?thesis by (simp add: host_start_def)
next
  case (Inr s)
  have "session_reach (tt_context t) s" using Inr by (rule session_started)
  then have "tunnel_ok se config c (t\<lparr>tt_phase := Running s\<rparr>)"
    using inv t by (auto simp: host_inv_def tunnel_ok_def)
  moreover have "table_entry (Some t) = Some (entry_of t)" using phase by (simp add: table_entry_def)
  ultimately show ?thesis using Inr set_phase_inv [OF inv t] by (simp add: host_start_def)
qed

lemma host_turn_inv:
  assumes inv: "host_inv se config h" and t: "ho_tunnels h c = Some t" and phase: "tt_phase t = Running s"
    and running: "end_category s = None" and ev: "event_ok (cx_config (tt_context t)) event"
    and queue: "event = Attachment True \<Longrightarrow> tt_waiting t \<noteq> []"
  shows "host_inv se config (host_turn io event c t s h)"
proof (cases "iteration (tt_context t) io event s")
  case None
  with inv show ?thesis by (simp add: host_turn_def)
next
  case (Some result)
  show ?thesis
  proof (cases result)
    case (Inl e)
    with Some inv end_tunnel_inv show ?thesis by (simp add: host_turn_def)
  next
    case (Inr s')
    let ?t = "take_waiting io event s t"
    have ok: "tunnel_ok se config c t" using inv t by (simp add: host_inv_def)
    then have reach: "session_reach (tt_context t) s'"
      using phase session_next [OF _ running ev] Some Inr by (auto simp: tunnel_ok_def)
    have "\<exists>taken. tt_accepted t = taken @ tl (tt_waiting t)" if "tt_waiting t \<noteq> []"
    proof -
      obtain taken where "tt_accepted t = taken @ tt_waiting t" using ok by (auto simp: tunnel_ok_def)
      then have "tt_accepted t = (taken @ [hd (tt_waiting t)]) @ tl (tt_waiting t)" using that by simp
      then show ?thesis by blast
    qed
    with ok reach queue have "tunnel_ok se config c (?t\<lparr>tt_phase := Running s'\<rparr>)"
      by (auto simp: tunnel_ok_def take_waiting_def rightful_def admitted_def)
    moreover have "table_entry (Some t) = Some (entry_of ?t)" if "resumable s'"
      using that resumable_iteration [of "tt_context t" io event s s'] Some Inr phase
      by (simp add: table_entry_def)
    ultimately show ?thesis using Some Inr set_phase_inv [OF inv t] by (simp add: host_turn_def)
  qed
qed

lemma host_finish_inv: "host_inv se config h \<Longrightarrow> host_inv se config (host_finish en c t s h)"
  by (auto simp: host_finish_def intro: end_tunnel_inv split: prod.split option.split)

lemma host_step_inv: "host_step se pe h h' \<Longrightarrow> host_inv se config h \<Longrightarrow> host_inv se config h'"
  by (induction rule: host_step.induct)
    (simp_all add: host_open_inv host_attach_inv host_abandon_inv host_start_inv host_turn_inv host_finish_inv)

lemma host_reach_inv:
  "host_reach se pe (host_new config token) h \<Longrightarrow> host_inv se config h"
  by (induction rule: host_reach.induct) (simp_all add: host_new_inv host_step_inv)

lemma running_reach:
  "\<lbrakk>host_inv se config h; ho_tunnels h c = Some t; tt_phase t = Running s\<rbrakk>
    \<Longrightarrow> session_reach (tt_context t) s \<and> cx_config (tt_context t) = config"
  by (simp add: host_inv_def tunnel_ok_def)

text \<open>While a session is in its loop its entry is in the table, so its channel of attachments is open.\<close>

lemma running_has_entry:
  assumes "host_inv se config h" and "ho_tunnels h c = Some t" and "tt_phase t = Running s"
    and "end_category s = None"
  shows "st_sessions (ho_state h) c = Some (entry_of t)"
proof -
  have "resumable s" using session_reach_resumable running_reach [OF assms(1-3)] assms(4) by fastforce
  with assms(1-3) show ?thesis by (simp add: host_inv_def table_entry_def)
qed

lemma validated_limits:
  "validate url_parse config = Inr () \<Longrightarrow> max_replay_bytes config < u64_max \<Longrightarrow> replay_limits config"
  by (simp add: validate_ok_iff config_ok_def limits_ok_def replay_limits_def)

text \<open>What a tunnel retains for its connector.\<close>

definition retained_frames :: "tunnel_state \<Rightarrow> nat" where
  "retained_frames t = (case tt_phase t of Starting \<Rightarrow> 0 | Running s \<Rightarrow> length (pending s))"

definition retained_bytes :: "tunnel_state \<Rightarrow> nat" where
  "retained_bytes t =
     (case tt_phase t of Starting \<Rightarrow> 0 | Running s \<Rightarrow> sum_list (map (length \<circ> rf_payload) (pending s)))"

lemma buffer_inv_bytes: "buffer_inv config s \<Longrightarrow> sum_list (map (length \<circ> rf_payload) (pending s)) = pending_bytes s"
  by (simp add: buffer_inv_def retains_def payload_bytes_def frame_view_def o_def)

lemma tunnel_retained:
  assumes "host_inv se config h" and "replay_limits config" and "ho_tunnels h c = Some t"
  shows "retained_frames t \<le> max_replay_frames config" and "retained_bytes t \<le> max_replay_bytes config"
proof -
  have "retained_frames t \<le> max_replay_frames config \<and> retained_bytes t \<le> max_replay_bytes config"
  proof (cases "tt_phase t")
    case Starting
    then show ?thesis by (simp add: retained_frames_def retained_bytes_def)
  next
    case (Running s)
    from running_reach [OF assms(1,3) this] have "buffer_inv config s"
      using session_reach_facts [of "tt_context t" s] assms(2) by (auto simp: session_inv_def)
    with Running show ?thesis
      by (simp add: retained_frames_def retained_bytes_def buffer_inv_bytes) (simp add: buffer_inv_def)
  qed
  then show "retained_frames t \<le> max_replay_frames config" "retained_bytes t \<le> max_replay_bytes config" by blast+
qed

section \<open>A run of the example server\<close>

definition example_resume :: open_request where
  "example_resume = example_open\<lparr>or_resume := Some \<lparr>connection_id = ''c1'', resume_token = ''r1''\<rparr>\<rparr>"

text \<open>The text \<open>''again''\<close> is the request to resume what \<open>''text''\<close> opened.\<close>

definition example_value :: "string \<Rightarrow> json" where
  "example_value s = envelope_to_value (Open 3 ''dev'' ''main'' (or_client_info example_open) []
     (or_resume (if s = ''again'' then example_resume else example_open)))"

definition example_host_env :: server_env where
  "example_host_env = example_server_env\<lparr>sv_serde := (sv_serde example_server_env)
     \<lparr>sj_value := (\<lambda>s. Inr (norm (example_value s))), sj_syntax := (\<lambda>s. Inr (example_value s))\<rparr>\<rparr>"

definition example_tunnel :: tunnel_state where
  "example_tunnel = \<lparr>tt_context = \<lparr>cx_config = example_config,
       cx_policy = policy_new ''/srv/main'' True Allowlisted [], cx_env = example_policy_env JNull,
       cx_connection_id = ''c1'', cx_resume_token = ''r1''\<rparr>,
     tt_process = example_process, tt_request = example_open, tt_phase = Starting,
     tt_waiting = [], tt_accepted = []\<rparr>"

lemma example_read_host:
  "read_open example_host_env (RecvMessage (WsText ''text'')) = ([], Inr example_open)"
  "read_open example_host_env (RecvMessage (WsText ''again'')) = ([], Inr example_resume)"
  by (simp_all add: read_open_def example_host_env_def example_server_env_def from_text_def example_serde_def
    envelope_from_to_value example_open_def example_resume_def TUNNEL_VERSION_def u32_max_def example_value_def)

lemma example_opened:
  "host_open example_host_env (example_policy_env JNull) ''c1'' ''r1'' (RecvMessage (WsText ''text''))
     (host_new example_config token)
   = (host_new example_config token)
      \<lparr>ho_state := (server_state_new example_config token)\<lparr>st_sessions := [''c1'' \<mapsto> entry_of example_tunnel]\<rparr>,
       ho_drawn := {''c1''}, ho_tunnels := [''c1'' \<mapsto> example_tunnel]\<rparr>"
  by (simp add: host_open_def run_tunnel_def example_read_host)
     (simp add: host_new_def example_open_def prepare_agent_def server_state_new_def example_config_def
       default_config_def example_host_env_def example_server_env_def example_agent_def spawn_def agent_command_def
       merge_agent_environment_def example_spawn_def example_tunnel_def example_process_def entry_of_def)

lemma example_resumed:
  assumes "st_sessions state = [''c1'' \<mapsto> entry_of example_tunnel]"
  obtains out where "run_tunnel example_host_env ''c2'' ''r2'' (RecvMessage (WsText ''again'')) SetupSent state
    = (state, out, TunnelResumed ''c1'')"
proof -
  have "or_resume example_resume = Some \<lparr>connection_id = ''c1'', resume_token = ''r1''\<rparr>"
    by (simp add: example_resume_def)
  from resume_tunnel_Inr [OF this, of example_host_env state SetupSent "''c1''"]
  have "snd (resume_tunnel example_host_env state SetupSent example_resume) = Inr ''c1''"
    by (simp add: assms example_resume_def example_open_def entry_of_def example_tunnel_def secret_token_new_def)
  with that show thesis
    by (cases "resume_tunnel example_host_env state SetupSent example_resume")
      (simp add: run_tunnel_def example_read_host example_resume_def)
qed

lemma example_host_reach:
  obtains h t s where "host_reach example_host_env (example_policy_env JNull) (host_new example_config token) h"
    and "ho_tunnels h = [''c1'' \<mapsto> t]" and "tt_phase t = Running s" and "end_category s = None"
    and "tt_accepted t = [example_resume]"
    and "s = example_session"
proof -
  define pe where "pe = example_policy_env JNull"
  define h0 where "h0 = host_new example_config token"
  define h1 where "h1 = host_open example_host_env pe ''c1'' ''r1'' (RecvMessage (WsText ''text'')) h0"
  define h2 where "h2 = host_start example_io ''c1'' example_tunnel h1"
  define h3 where "h3 = host_open example_host_env pe ''c2'' ''r2'' (RecvMessage (WsText ''again'')) h2"
  define t where "t = example_tunnel\<lparr>tt_phase := Running example_session\<rparr>"
  define h4 where "h4 = host_attach ''c1'' example_resume t h3"
  have s: "resumable example_session" "end_category example_session = None"
    by (simp_all add: example_session_def initial_session_def)
  have h0: "ho_drawn h0 = {}" by (simp add: h0_def host_new_def)
  have h1: "st_sessions (ho_state h1) = [''c1'' \<mapsto> entry_of example_tunnel]" "ho_tunnels h1 = [''c1'' \<mapsto> example_tunnel]"
    "ho_drawn h1 = {''c1''}" "ho_resuming h1 = []"
    unfolding h1_def h0_def pe_def example_opened by (simp_all add: host_new_def)
  have "start_session (tt_context example_tunnel) example_io (tt_process example_tunnel) = Inr example_session"
    using example_started by (simp add: example_tunnel_def example_cx_def start_session_def)
  then have h2: "st_sessions (ho_state h2) = [''c1'' \<mapsto> entry_of example_tunnel]" "ho_tunnels h2 = [''c1'' \<mapsto> t]"
    "ho_drawn h2 = {''c1''}" "ho_resuming h2 = []"
    by (simp_all add: h2_def host_start_def set_phase_def s h1 t_def)
  obtain out where "run_tunnel example_host_env ''c2'' ''r2'' (RecvMessage (WsText ''again'')) SetupSent (ho_state h2)
      = (ho_state h2, out, TunnelResumed ''c1'')"
    using h2(1) by (rule example_resumed)
  then have h3: "h3 = h2\<lparr>ho_resuming := [(''c1'', example_resume)]\<rparr>"
    unfolding h3_def using host_open_resumed [OF _ example_read_host(2)] h2(4) by simp
  have t: "tt_waiting t = []" "tt_accepted t = []" "tt_phase t = Running example_session"
    by (simp_all add: t_def example_tunnel_def)
  have "host_step example_host_env pe h0 h1" unfolding h1_def by (rule step_open) (simp_all add: h0)
  moreover have "host_step example_host_env pe h1 h2"
    unfolding h2_def by (rule step_start) (simp_all add: h1 example_tunnel_def)
  moreover have "host_step example_host_env pe h2 h3" unfolding h3_def by (rule step_open) (simp_all add: h2)
  moreover have "host_step example_host_env pe h3 h4"
    unfolding h4_def by (rule step_attach) (simp_all add: h3 h2 t ATTACHMENT_CAPACITY_def)
  ultimately have "host_reach example_host_env pe h0 h4" by (meson host_initial host_next)
  moreover have "ho_tunnels h4 = [''c1'' \<mapsto> t\<lparr>tt_waiting := [example_resume], tt_accepted := [example_resume]\<rparr>]"
    by (simp add: h4_def host_attach_def h3 h2 t)
  ultimately show thesis using that s t(3) unfolding h0_def pe_def by fastforce
qed

section \<open>Properties\<close>

text \<open>
  C13. In every state the server can reach, with any number of tunnels whose tasks interleave, the table of
  sessions has exactly the entries it should: one for each tunnel that started an agent, with its own token, agent and
  workspace, until its client shuts it down or its task ends. A session in its loop always has
  its entry, so its channel of attachments is open.
\<close>

theorem host_table_exact:
  assumes "host_reach se pe (host_new config token) h"
  shows "st_sessions (ho_state h) c = table_entry (ho_tunnels h c) \<and>
    (\<forall>t s. ho_tunnels h c = Some t \<and> tt_phase t = Running s \<and> end_category s = None \<longrightarrow>
       st_sessions (ho_state h) c = Some (entry_of t))"
  using host_reach_inv [OF assms] running_has_entry [OF host_reach_inv [OF assms]]
  by (auto simp: host_inv_def)

theorem host_table_exact_witness:
  "\<exists>h t. host_reach example_host_env (example_policy_env JNull) (host_new example_config (SecretToken ''secret'')) h \<and>
     ho_tunnels h ''c1'' = Some t \<and> st_sessions (ho_state h) ''c1'' = Some (entry_of t)"
proof -
  obtain h t s where h: "host_reach example_host_env (example_policy_env JNull)
        (host_new example_config (SecretToken ''secret'')) h"
    and t: "ho_tunnels h = [''c1'' \<mapsto> t]" "tt_phase t = Running s" "end_category s = None"
    by (rule example_host_reach)
  have "ho_tunnels h ''c1'' = Some t" using t(1) by simp
  with conjunct2 [OF host_table_exact [OF h, of "''c1''"]] t(2,3)
  have "st_sessions (ho_state h) ''c1'' = Some (entry_of t)" by blast
  with h \<open>ho_tunnels h ''c1'' = Some t\<close> show ?thesis by blast
qed

text \<open>
  C14. Every tunnel of a server was admitted by the configuration: its agent, its workspace and its policy are
  configured ones. Its sockets after the first came from requests with its own identifier, token, agent
  and workspace; at most two of them wait; and its session is one whose runs the theorems on
  sessions describe.
\<close>

theorem host_admission:
  assumes "host_reach se pe (host_new config token) h" and "ho_tunnels h c = Some t"
  shows "admitted se config t \<and> cx_connection_id (tt_context t) = c \<and>
    (\<forall>req\<in>set (tt_accepted t). rightful t req) \<and> (\<exists>taken. tt_accepted t = taken @ tt_waiting t) \<and>
    length (tt_waiting t) \<le> ATTACHMENT_CAPACITY \<and>
    (\<forall>s. tt_phase t = Running s \<longrightarrow> session_reach (tt_context t) s)"
proof -
  have "tunnel_ok se config c t" using host_reach_inv [OF assms(1)] assms(2) by (simp add: host_inv_def)
  then show ?thesis by (simp add: tunnel_ok_def)
qed

theorem host_admission_witness:
  "\<exists>h t. host_reach example_host_env (example_policy_env JNull) (host_new example_config (SecretToken ''secret'')) h \<and>
     ho_tunnels h ''c1'' = Some t \<and> tt_accepted t = [example_resume] \<and> rightful t example_resume"
proof -
  obtain h t s where h: "host_reach example_host_env (example_policy_env JNull)
        (host_new example_config (SecretToken ''secret'')) h"
    and t: "ho_tunnels h = [''c1'' \<mapsto> t]" "tt_accepted t = [example_resume]"
    by (rule example_host_reach)
  have "ho_tunnels h ''c1'' = Some t" using t(1) by simp
  with host_admission [OF h this] t(2) h show ?thesis by auto
qed




text \<open>
  C15. The memory that a validated server retains for all its tunnels together is bounded by their number: none
  keeps more than the configured frames and bytes, whatever the agents write and the connectors do.
\<close>

theorem host_memory_bounded:
  assumes "host_reach se pe (host_new config token) h"
    and "validate url_parse config = Inr ()" and "max_replay_bytes config < u64_max"
  shows "finite (dom (ho_tunnels h)) \<and>
    (\<Sum>c\<in>dom (ho_tunnels h). retained_frames (the (ho_tunnels h c)))
      \<le> card (dom (ho_tunnels h)) * max_replay_frames config \<and>
    (\<Sum>c\<in>dom (ho_tunnels h). retained_bytes (the (ho_tunnels h c)))
      \<le> card (dom (ho_tunnels h)) * max_replay_bytes config"
proof -
  have inv: "host_inv se config h" using assms(1) by (rule host_reach_inv)
  then have "dom (ho_tunnels h) \<subseteq> ho_drawn h" and "finite (ho_drawn h)" by (auto simp: host_inv_def)
  then have "finite (dom (ho_tunnels h))" by (rule finite_subset)
  moreover note sum_bounded_above [of "dom (ho_tunnels h)" "\<lambda>c. retained_frames (the (ho_tunnels h c))"]
    sum_bounded_above [of "dom (ho_tunnels h)" "\<lambda>c. retained_bytes (the (ho_tunnels h c))"]
  moreover note tunnel_retained [OF inv validated_limits [OF assms(2,3)]]
  ultimately show ?thesis by (fastforce simp: dom_def)
qed

theorem host_memory_bounded_witness:
  "\<exists>h t. host_reach example_host_env (example_policy_env JNull) (host_new example_config (SecretToken ''secret'')) h \<and>
     ho_tunnels h = [''c1'' \<mapsto> t] \<and> retained_bytes t \<le> max_replay_bytes example_config"
proof -
  obtain h t s where h: "host_reach example_host_env (example_policy_env JNull)
        (host_new example_config (SecretToken ''secret'')) h" and t: "ho_tunnels h = [''c1'' \<mapsto> t]"
    by (rule example_host_reach)
  have "max_replay_bytes example_config < u64_max" by (simp add: example_defs)
  from host_memory_bounded [OF h example_config_ok [of "\<lambda>_. Inl []"] this] t h show ?thesis by auto
qed

end
