(* ===== verification/Acp_Signals.thy ===== *)
theory Acp_Signals
  imports Acp_Cli Acp_Client_Shutdown
begin

text \<open>
  What reaches a running connector or server from its own process: the shutdown channel of
  \<^verbatim>\<open>client.rs\<close>, the tasks of \<^verbatim>\<open>main.rs\<close> that turn signals into requests, and the thread that
  reads standard input.
\<close>

section \<open>The shutdown channel\<close>

text \<open>An unbounded channel; what its receiver took is a history.\<close>

record shutdown_queue =
  sq_requests :: "shutdown_reason list"
  sq_senders :: nat
  sq_open :: bool                        \<comment> \<open>the receiver is alive\<close>
  sq_taken :: "shutdown_reason list"     \<comment> \<open>history\<close>

definition shutdown_channel :: shutdown_queue where
  "shutdown_channel = \<lparr>sq_requests = [], sq_senders = 1, sq_open = True, sq_taken = []\<rparr>"

definition clone_handle :: "shutdown_queue \<Rightarrow> shutdown_queue" where
  "clone_handle q = q\<lparr>sq_senders := Suc (sq_senders q)\<rparr>"

definition drop_handle :: "shutdown_queue \<Rightarrow> shutdown_queue" where
  "drop_handle q = q\<lparr>sq_senders := sq_senders q - 1\<rparr>"

definition handle_shutdown :: "shutdown_reason \<Rightarrow> shutdown_queue \<Rightarrow> shutdown_queue \<times> bool" where
  "handle_shutdown reason q =
     (if sq_open q then (q\<lparr>sq_requests := sq_requests q @ [reason]\<rparr>, True) else (q, False))"

text \<open>
  \<open>mpsc::UnboundedReceiver::recv\<close>: a request, the end of a channel without senders, or waiting. A closed
  channel makes \<open>receive\<close> wait for ever.
\<close>

datatype received = Got shutdown_reason shutdown_queue | Disconnected | Empty

definition queue_recv :: "shutdown_queue \<Rightarrow> received" where
  "queue_recv q =
     (case sq_requests q of
        reason # rest \<Rightarrow> Got reason (q\<lparr>sq_requests := rest, sq_taken := sq_taken q @ [reason]\<rparr>)
      | [] \<Rightarrow> if sq_senders q = 0 then Disconnected else Empty)"

definition try_receive :: "shutdown_queue \<Rightarrow> (shutdown_reason \<times> shutdown_queue) option" where
  "try_receive q = (case queue_recv q of Got reason q' \<Rightarrow> Some (reason, q') | _ \<Rightarrow> None)"

definition receive :: "shutdown_queue \<Rightarrow> (shutdown_reason \<times> shutdown_queue) option" where
  "receive q = (case queue_recv q of Got reason q' \<Rightarrow> Some (reason, q') | Disconnected \<Rightarrow> None | Empty \<Rightarrow> None)"

text \<open>Every request that was put into the channel, in order.\<close>

definition requested :: "shutdown_queue \<Rightarrow> shutdown_reason list" where
  "requested q = sq_taken q @ sq_requests q"

lemma requested_handle: "requested (fst (handle_shutdown reason q)) = (if sq_open q then requested q @ [reason] else requested q)"
  by (simp add: handle_shutdown_def requested_def)

lemma requested_receive: "receive q = Some (reason, q') \<Longrightarrow> requested q' = requested q \<and> sq_open q' = sq_open q"
  by (auto simp: receive_def queue_recv_def requested_def split: list.splits if_splits)

text \<open>Both ways of receiving take the same request, the oldest one.\<close>

lemma receive_oldest:
  "receive q = try_receive q" "receive q = Some (reason, q') \<Longrightarrow> reason = hd (sq_requests q)"
  by (auto simp: receive_def try_receive_def queue_recv_def split: received.splits list.splits if_splits)

section \<open>Signal tasks\<close>

datatype os_signal = SigTerm | SigInt

text \<open>
  \<open>signal(SIGTERM)\<close> installs its handler at once, \<open>ctrl_c\<close> when its task is first polled. A handler stays installed
  when its task is over.
\<close>

datatype signal_task = Unpolled | Listening bool | Ended | Failed
  \<comment> \<open>listening, with a signal noticed or not; over; over without a handler\<close>

record 's signal_process =
  sp_target :: 's
  sp_sigterm :: signal_task
  sp_interrupt :: signal_task
  sp_alive :: bool
  sp_arrived :: "os_signal set"     \<comment> \<open>history\<close>

definition task_of :: "os_signal \<Rightarrow> 's signal_process \<Rightarrow> signal_task" where
  "task_of g p = (case g of SigTerm \<Rightarrow> sp_sigterm p | SigInt \<Rightarrow> sp_interrupt p)"

definition set_task :: "os_signal \<Rightarrow> signal_task \<Rightarrow> 's signal_process \<Rightarrow> 's signal_process" where
  "set_task g t p = (case g of SigTerm \<Rightarrow> p\<lparr>sp_sigterm := t\<rparr> | SigInt \<Rightarrow> p\<lparr>sp_interrupt := t\<rparr>)"

text \<open>A signal without a handler ends the process.\<close>

definition deliver_signal :: "os_signal \<Rightarrow> 's signal_process \<Rightarrow> 's signal_process" where
  "deliver_signal g p =
     (let p1 = p\<lparr>sp_arrived := insert g (sp_arrived p)\<rparr>
      in case task_of g p of
           Listening _ \<Rightarrow> set_task g (Listening True) p1
         | Ended \<Rightarrow> p1
         | _ \<Rightarrow> p1\<lparr>sp_alive := False\<rparr>)"

text \<open>One poll of a task: \<open>notify\<close> is what it does for a noticed signal, \<open>release\<close> what its end drops.\<close>

definition poll_task ::
    "(os_signal \<Rightarrow> 's \<Rightarrow> 's) \<Rightarrow> ('s \<Rightarrow> 's) \<Rightarrow> bool \<Rightarrow> os_signal \<Rightarrow> 's signal_process \<Rightarrow> 's signal_process" where
  "poll_task notify release registered g p =
     (case task_of g p of
        Unpolled \<Rightarrow>
          if registered then set_task g (Listening False) p
          else set_task g Failed (p\<lparr>sp_target := release (sp_target p)\<rparr>)
      | Listening True \<Rightarrow> set_task g Ended (p\<lparr>sp_target := release (notify g (sp_target p))\<rparr>)
      | _ \<Rightarrow> p)"

definition spawn_signal_tasks :: "'s \<Rightarrow> 's signal_process" where
  "spawn_signal_tasks target =
     \<lparr>sp_target = target, sp_sigterm = Listening False, sp_interrupt = Unpolled, sp_alive = True, sp_arrived = {}\<rparr>"

text \<open>The connector: each task owns a handle of the shutdown channel.\<close>

fun reason_of :: "os_signal \<Rightarrow> shutdown_reason" where
  "reason_of SigTerm = Sigterm"
| "reason_of SigInt = Interrupt"

definition notify_connector :: "os_signal \<Rightarrow> shutdown_queue \<Rightarrow> shutdown_queue" where
  "notify_connector g q = fst (handle_shutdown (reason_of g) q)"

definition install_connector_signal_handler :: "cli_env \<Rightarrow> shutdown_queue \<Rightarrow> error + shutdown_queue signal_process" where
  "install_connector_signal_handler ce q =
     rbind (install_handler ce) (\<lambda>_. Inr (spawn_signal_tasks (clone_handle q)))"

text \<open>The server: both tasks cancel the shutdown token, which stays cancelled.\<close>

record cancellation_token =
  tk_cancelled :: bool

definition cancel :: "os_signal \<Rightarrow> cancellation_token \<Rightarrow> cancellation_token" where
  "cancel g token = token\<lparr>tk_cancelled := True\<rparr>"

definition install_server_signal_handler :: "cli_env \<Rightarrow> cancellation_token \<Rightarrow> error + cancellation_token signal_process" where
  "install_server_signal_handler ce token = rbind (install_handler ce) (\<lambda>_. Inr (spawn_signal_tasks token))"

text \<open>Signals, polls and steps of the program itself, in any order.\<close>

inductive signal_reach ::
    "(os_signal \<Rightarrow> 's \<Rightarrow> 's) \<Rightarrow> ('s \<Rightarrow> 's) \<Rightarrow> ('s \<Rightarrow> 's \<Rightarrow> bool) \<Rightarrow> 's \<Rightarrow> 's signal_process \<Rightarrow> bool"
  for notify release work target where
  signals_start: "signal_reach notify release work target (spawn_signal_tasks target)"
| signals_arrive: "signal_reach notify release work target (deliver_signal g p)"
  if "signal_reach notify release work target p" and "sp_alive p"
| signals_poll: "signal_reach notify release work target (poll_task notify release registered g p)"
  if "signal_reach notify release work target p" and "sp_alive p"
| signals_work: "signal_reach notify release work target (p\<lparr>sp_target := target'\<rparr>)"
  if "signal_reach notify release work target p" and "sp_alive p" and "work (sp_target p) target'"

section \<open>What a target promises, and what follows\<close>

text \<open>A target remembers what it was told, whatever happens to it.\<close>

locale signal_target =
  fixes notify :: "os_signal \<Rightarrow> 's \<Rightarrow> 's" and release :: "'s \<Rightarrow> 's" and work :: "'s \<Rightarrow> 's \<Rightarrow> bool"
    and told :: "os_signal \<Rightarrow> 's \<Rightarrow> bool"
  assumes told_notify: "told g (notify g s)"
    and told_keeps: "told g s \<Longrightarrow> told g (notify g' s)"
    and told_release: "told g s \<Longrightarrow> told g (release s)"
    and told_work: "told g s \<Longrightarrow> work s s' \<Longrightarrow> told g s'"
begin

lemma task_updates:
  "task_of g (set_task g' t p) = (if g = g' then t else task_of g p)"
  "sp_target (set_task g t p) = sp_target p" "sp_alive (set_task g t p) = sp_alive p"
  "sp_arrived (set_task g t p) = sp_arrived p"
  "task_of g (p\<lparr>sp_target := s\<rparr>) = task_of g p" "task_of g (p\<lparr>sp_alive := b\<rparr>) = task_of g p"
  "task_of g (p\<lparr>sp_arrived := gs\<rparr>) = task_of g p"
  by (cases g; cases g'; simp add: task_of_def set_task_def split: os_signal.split)+

lemma signal_inv:
  assumes "signal_reach notify release work target p"
  shows "(task_of g p = Ended \<longrightarrow> told g (sp_target p)) \<and>
    (sp_alive p \<longrightarrow> g \<in> sp_arrived p \<longrightarrow> task_of g p = Listening True \<or> task_of g p = Ended) \<and>
    (task_of g p = Listening True \<or> task_of g p = Ended \<longrightarrow> g \<in> sp_arrived p)"
  using assms
proof (induction rule: signal_reach.induct)
  case signals_start
  then show ?case by (cases g) (simp_all add: spawn_signal_tasks_def task_of_def)
next
  case (signals_arrive p g')
  then show ?case
    by (cases "task_of g' p") (auto simp: deliver_signal_def Let_def task_updates)
next
  case (signals_poll p registered g')
  from signals_poll show ?case
    by (cases "task_of g' p") (auto simp: poll_task_def task_updates told_release told_notify told_keeps split: bool.split)
next
  case (signals_work p target')
  then show ?case by (auto simp: task_updates told_work)
qed

text \<open>When no task has a noticed signal left, every signal that arrived was passed on.\<close>

lemma signals_told:
  assumes "signal_reach notify release work target p" and "sp_alive p" and "g \<in> sp_arrived p"
    and "task_of g p \<noteq> Listening True"
  shows "told g (sp_target p)"
  using signal_inv [OF assms(1), of g] assms(2-4) by blast

end

text \<open>What the connector does with its channel: it takes a request, or it is over.\<close>

definition connector_work :: "shutdown_queue \<Rightarrow> shutdown_queue \<Rightarrow> bool" where
  "connector_work q q' \<longleftrightarrow> (\<exists>reason. receive q = Some (reason, q')) \<or> q' = q\<lparr>sq_open := False\<rparr>"

definition told_connector :: "os_signal \<Rightarrow> shutdown_queue \<Rightarrow> bool" where
  "told_connector g q \<longleftrightarrow> sq_open q \<longrightarrow> reason_of g \<in> set (requested q)"

interpretation connector_signals: signal_target notify_connector drop_handle connector_work told_connector
proof
  fix g g' q q'
  show "told_connector g (notify_connector g q)"
    by (simp add: told_connector_def notify_connector_def requested_def handle_shutdown_def)
  assume told: "told_connector g q"
  then show "told_connector g (notify_connector g' q)"
    by (auto simp: told_connector_def notify_connector_def requested_def handle_shutdown_def)
  from told show "told_connector g (drop_handle q)"
    by (simp add: told_connector_def drop_handle_def requested_def)
  assume "connector_work q q'"
  with told show "told_connector g q'"
    by (auto simp: told_connector_def connector_work_def dest: requested_receive)
qed

definition told_server :: "os_signal \<Rightarrow> cancellation_token \<Rightarrow> bool" where
  "told_server g token \<longleftrightarrow> tk_cancelled token"

interpretation server_signals: signal_target cancel id "(=)" told_server
  by unfold_locales (auto simp: told_server_def cancel_def)

text \<open>A request in the channel comes from a task that is over, and no task makes two.\<close>

lemma requests_once:
  assumes "signal_reach notify_connector drop_handle connector_work target p" and "requested target = []"
  shows "distinct (requested (sp_target p)) \<and>
    set (requested (sp_target p)) \<subseteq> reason_of ` {g. task_of g p = Ended}"
  using assms
proof (induction rule: signal_reach.induct)
  case signals_start
  then show ?case by (simp add: spawn_signal_tasks_def)
next
  case (signals_arrive p g)
  have "task_of g' (deliver_signal g p) = Ended \<longleftrightarrow> task_of g' p = Ended" for g'
    by (auto simp: deliver_signal_def Let_def connector_signals.task_updates split: signal_task.split)
  moreover have "sp_target (deliver_signal g p) = sp_target p"
    by (simp add: deliver_signal_def Let_def connector_signals.task_updates split: signal_task.split)
  ultimately show ?case using signals_arrive by simp
next
  case (signals_poll p registered g)
  have same: "requested (drop_handle q) = requested q" for q by (simp add: drop_handle_def requested_def)
  have new: "reason_of g \<notin> reason_of ` {g'. task_of g' p = Ended}" if "task_of g p = Listening True"
    using that by (auto elim!: reason_of.elims)
  have kept: "{g'. task_of g' p = Ended} \<subseteq> {g'. task_of g' (poll_task notify_connector drop_handle registered g p) = Ended}"
    by (auto simp: poll_task_def connector_signals.task_updates split: signal_task.split bool.split)
  have "requested (sp_target (poll_task notify_connector drop_handle registered g p))
      = requested (sp_target p) @ (if task_of g p = Listening True \<and> sq_open (sp_target p) then [reason_of g] else [])"
    by (simp add: poll_task_def connector_signals.task_updates same notify_connector_def requested_handle
      split: signal_task.split bool.split)
  moreover have "task_of g (poll_task notify_connector drop_handle registered g p) = Ended"
    if "task_of g p = Listening True" using that by (simp add: poll_task_def connector_signals.task_updates)
  ultimately show ?case using signals_poll.IH [OF signals_poll.prems] new image_mono [OF kept, of reason_of] by auto
next
  case (signals_work p target')
  have "requested target' = requested (sp_target p)"
    using signals_work.hyps(3) requested_receive by (auto simp: connector_work_def requested_def)
  with signals_work show ?case by (simp add: connector_signals.task_updates)
qed

section \<open>Standard input\<close>

text \<open>
  The thread that reads standard input: every line, or its error, goes into the channel until
  the channel refuses one because the connector is over. The end of the thread closes the channel.
\<close>

fun stdin_reader :: "((string + string) \<times> bool) list \<Rightarrow> (string + string) list" where
  "stdin_reader [] = []"
| "stdin_reader ((line, accepted) # items) = (if accepted then line # stdin_reader items else [])"

definition spawn_stdin_reader ::
    "string option \<Rightarrow> ((string + string) \<times> bool) list \<Rightarrow> error + (string + string) list" where
  "spawn_stdin_reader failure items = (case failure of Some e \<Rightarrow> Inl (Io e) | None \<Rightarrow> Inr (stdin_reader items))"

lemma stdin_reader_prefix: "\<exists>rest. map fst items = stdin_reader items @ rest"
  by (induction items rule: stdin_reader.induct) auto

lemma stdin_reader_all: "list_all snd items \<Longrightarrow> stdin_reader items = map fst items"
  by (induction items rule: stdin_reader.induct) auto

section \<open>Properties\<close>

text \<open>
  C16. A connector is asked to shut down by signals that arrived and by nothing else, at most once by each kind of
  signal; and no signal that arrived is lost while the process lives: when its task has run and the connector's
  channel is open, the request was put into the channel, whatever requests were taken in between.
\<close>

theorem signals_reported_once:
  assumes "install_connector_signal_handler ce shutdown_channel = Inr start"
    and "signal_reach notify_connector drop_handle connector_work (sp_target start) p"
  shows "distinct (requested (sp_target p)) \<and> set (requested (sp_target p)) \<subseteq> reason_of ` sp_arrived p \<and>
    (\<forall>g\<in>sp_arrived p. sp_alive p \<and> task_of g p \<noteq> Listening True \<and> sq_open (sp_target p) \<longrightarrow>
       reason_of g \<in> set (requested (sp_target p)))"
proof -
  have "requested (sp_target start) = []"
    using assms(1) by (auto simp: install_connector_signal_handler_def rbind_Inr_iff spawn_signal_tasks_def
      clone_handle_def shutdown_channel_def requested_def)
  note once = requests_once [OF assms(2) this]
  have "{g. task_of g p = Ended} \<subseteq> sp_arrived p" using connector_signals.signal_inv [OF assms(2)] by blast
  then show ?thesis
    using once connector_signals.signals_told [OF assms(2)] by (fastforce simp: told_connector_def)
qed

theorem signals_reported_once_witness:
  "\<exists>start p. install_connector_signal_handler example_cli shutdown_channel = Inr start \<and>
     signal_reach notify_connector drop_handle connector_work (sp_target start) p \<and>
     sp_arrived p = {SigTerm} \<and> sp_alive p \<and> task_of SigTerm p \<noteq> Listening True \<and> sq_open (sp_target p) \<and>
     requested (sp_target p) = [Sigterm] \<and> distinct (requested (sp_target p)) \<and>
     Sigterm \<in> set (requested (sp_target p))"
proof -
  let ?start = "spawn_signal_tasks (clone_handle shutdown_channel)"
  let ?p1 = "deliver_signal SigTerm ?start"
  let ?p2 = "poll_task notify_connector drop_handle True SigTerm ?p1"
  have install: "install_connector_signal_handler example_cli shutdown_channel = Inr ?start"
    by (simp add: install_connector_signal_handler_def install_handler_def example_cli_def)
  have "signal_reach notify_connector drop_handle connector_work (sp_target ?start) ?start"
    using signals_start [of _ _ _ "clone_handle shutdown_channel"] by (simp add: spawn_signal_tasks_def)
  then have "signal_reach notify_connector drop_handle connector_work (sp_target ?start) ?p1"
    by (rule signals_arrive) (simp add: spawn_signal_tasks_def)
  then have reach: "signal_reach notify_connector drop_handle connector_work (sp_target ?start) ?p2"
    by (rule signals_poll) (simp add: spawn_signal_tasks_def deliver_signal_def task_of_def set_task_def)
  have p2: "sp_arrived ?p2 = {SigTerm}" "sp_alive ?p2" "task_of SigTerm ?p2 \<noteq> Listening True"
      "sq_open (sp_target ?p2)" "requested (sp_target ?p2) = [Sigterm]"
    by (simp_all add: spawn_signal_tasks_def deliver_signal_def poll_task_def task_of_def set_task_def requested_def
      notify_connector_def handle_shutdown_def drop_handle_def clone_handle_def shutdown_channel_def)
  note once = signals_reported_once [OF install reach]
  have "reason_of SigTerm \<in> set (requested (sp_target ?p2))" using once p2(1-4) by blast
  then have "Sigterm \<in> set (requested (sp_target ?p2))" by simp
  with install reach p2 once show ?thesis by blast
qed

text \<open>The server stops for the first signal of either kind, once its task has run.\<close>

lemma server_told:
  assumes "signal_reach cancel id (=) token p" and "sp_alive p" and "g \<in> sp_arrived p"
    and "task_of g p \<noteq> Listening True"
  shows "tk_cancelled (sp_target p)"
  using server_signals.signals_told [OF assms] by (simp add: told_server_def)

end
