(* ===== verification/Spec2Isabelle.thy ===== *)
theory Spec2Isabelle
  imports Acp_Server Acp_Client_Shutdown Acp_Wire Acp_Flow Acp_Test_Agent Acp_Host Acp_Signals
begin

text \<open>
  A verification development for acp-tunnel, a program that carries the standard streams of an ACP agent
  over an authenticated WebSocket. The connector (\<^verbatim>\<open>client.rs\<close>) plays the agent for a local
  editor; the server (\<^verbatim>\<open>server.rs\<close>) starts the agent and keeps it through lost connections.
  Each side numbers the lines it sends, retains them until they are acknowledged and sends the
  retained ones again on the next connection.

  \<^bold>\<open>The theories, in the order in which they build on each other\<close>

  \<^item> \<open>Acp_Prelude\<close>: 64-bit arithmetic with its checked and saturating operations, results as sums with
    their bind, loops that stop at the first error, the locale of string maps and its instance for
    \<open>BTreeMap\<close>.
  \<^item> \<open>Acp_Json\<close>: values of \<open>serde_json\<close>; the parser and printer are a record of functions.
  \<^item> \<open>Acp_Errors\<close> (\<^verbatim>\<open>error.rs\<close>): errors, their texts as lists of pieces, their categories.
  \<^item> \<open>Acp_Auth\<close> (\<^verbatim>\<open>auth.rs\<close>): the comparison of tokens and the authorization header; the locale of
    authenticators with the comparison as its instance.
  \<^item> \<open>Acp_Protocol\<close> (\<^verbatim>\<open>protocol.rs\<close>): envelopes with their JSON encoding and decoding, and the debug texts.
  \<^item> \<open>Acp_Config\<close> (\<^verbatim>\<open>config.rs\<close>): configuration and validation, with a declarative specification.
  \<^item> \<open>Acp_Process\<close> and \<open>Acp_Reap\<close> (\<^verbatim>\<open>process.rs\<close>): the environment and the start of an agent, and its
    shutdown as a trace of signals, waits and polls.
  \<^item> \<open>Acp_Policy\<close> (\<^verbatim>\<open>policy.rs\<close>): what happens to a line of the client before the agent reads it.
  \<^item> \<open>Acp_Replay\<close>: the locale \<open>replay_queue\<close>, the contract of a queue of numbered frames that both
    sides implement (\<open>server_queue\<close> in \<open>Acp_Session_Inv\<close>, \<open>client_queue\<close> in \<open>Acp_Client\<close>).
  \<^item> \<open>Acp_Link\<close>: the abstract specification, a sender and a receiver with connections that may fail at
    any moment, and its invariant.
  \<^item> \<open>Acp_Session\<close>, \<open>Acp_Session_Inv\<close>, \<open>Acp_Session_Refine\<close>, \<open>Acp_Session_End\<close> (\<open>run_agent_session\<close> of
    \<^verbatim>\<open>server.rs\<close>): the state of a session, every branch of its \<open>select!\<close> loop, its start and its
    end; the invariant of the buffer and the transport; the simulation by the abstract sender;
    results, deadlines and error paths.
  \<^item> \<open>Acp_Transport\<close> (\<open>spawn_transport\<close> and the readers of the agent's streams) and \<open>Acp_Server\<close> (routes,
    authorization, opening and resuming a tunnel, \<open>serve\<close>).
  \<^item> \<open>Acp_Host\<close>: the server with all its tunnels, whose tasks share the table of sessions and interleave with
    opening and resuming requests; each tunnel runs a session of \<open>Acp_Session_End\<close>.
  \<^item> \<open>Acp_Client_Options\<close>, \<open>Acp_Client\<close>, \<open>Acp_Client_Refine\<close>, \<open>Acp_Client_Shutdown\<close> (\<^verbatim>\<open>client.rs\<close>): options
    and the URL rule; handshake, replay queue, reconnection and main loop; bounds and the simulation
    by the abstract sender; the shutdown exchange.
  \<^item> \<open>Acp_Delivery\<close>: a session and a connector composed over connections that may lose what is under way.
  \<^item> \<open>Acp_Wire\<close>: the whole transport task between the envelopes of a session and the texts of a WebSocket.
  \<^item> \<open>Acp_Credentials\<close> (\<^verbatim>\<open>credentials.rs\<close>, \<^verbatim>\<open>paths.rs\<close>): the sources of a token, the token file, default paths.
  \<^item> \<open>Acp_Setup\<close>, \<open>Acp_Init\<close>, \<open>Acp_Doctor\<close> (\<^verbatim>\<open>setup.rs\<close>): private files and their replacement, the search
    for executables, the systemd unit; what initialisation leaves behind; the diagnosis. The
    locale \<open>file_operation\<close> is the contract that an operation touches only the files it names, and
    every operation that writes is an instance of it.
  \<^item> \<open>Acp_Cli\<close> and \<open>Acp_Test_Agent\<close> (\<^verbatim>\<open>main.rs\<close>): the questions of \<open>init\<close>, the commands and their
    dispatch; the agent of the integration tests.
  \<^item> \<open>Acp_Signals\<close>: the shutdown channel of \<^verbatim>\<open>client.rs\<close>, the tasks of \<^verbatim>\<open>main.rs\<close> that pass signals on and the
    thread that reads standard input. The locale \<open>signal_target\<close> is what such a task relies on; the
    channel and the shutdown token of the server are its instances.
  \<^item> \<open>Acp_Flow\<close>: from initialisation to an open tunnel, across the set-up, the credentials, the commands and
    the routes.

  \<^bold>\<open>How the code is represented\<close>

  A struct is a record and an enum a datatype, with the names of the source. A \<open>Result\<close> is a sum with
  the error on the left, so every early return is a branch. \<open>u64\<close> and \<open>usize\<close> are natural numbers
  with the checked, saturating and wrapping operations of the source written out; modes and the
  accumulated difference of token bytes are words. Text is a list of bytes; where the code needs
  characters, UTF-8 is decoded. \<open>BTreeMap\<close> and \<open>BTreeSet\<close> are sorted lists.

  What the outside decides is an argument: the events a \<open>select!\<close> sees, the results of reads, writes,
  spawns, waits, name lookups and connection attempts, the clock. Loops over the outside take
  the list of these events, one per iteration: a run over a longer list continues the run over its
  prefix, the result \<open>None\<close> (or the loop state) says that the loop is still waiting, and no other
  bound is put on a run. The reachable states (\<open>session_reach\<close>, \<open>connector_reach\<close>, \<open>tunnel_reach\<close>,
  \<open>host_reach\<close>, \<open>signal_reach\<close>) are
  inductive, so theorems about them hold for runs of every length. Where the code bounds a loop by
  time, the pauses it makes are part of its definition, over a clock that does not go back, and the bound on the
  number of rounds is a theorem without a hypothesis on the clock (\<open>reconnect_ends\<close>, \<open>reaping_returns\<close>).

  \<^bold>\<open>What is shown\<close>

  \<^item> Delivery: in the composed system the lines on each standard stream are at every moment the first
    lines of the other side, in order, each once; the rest is retained by its sender; neither side
    meets a sequence gap; when a connection is drained everything is delivered.
  \<^item> Refinement: every run of a session and of a connector is a run of the abstract sender; the frames
    on a transport are genuine even against a connector that breaks the protocol; the transport task
    writes and reads exactly these envelopes, in order.
  \<^item> Bounds: both replay buffers keep within their frame and byte limits, with exact byte counts.
  \<^item> Admission: who gets a WebSocket (the verdict of the WebSocket library on the handshake is part of the
    request), when an agent is started, when a session is resumed, that refusals do
    not differ, and which URLs a connector accepts.
  \<^item> All tunnels of a server: the table of sessions is exact in every interleaving, a session in its loop can
    always be reached by a resumption, every tunnel was admitted by the configuration, only requests
    with its own credentials reach it, and the memory retained for all of them is bounded.
  \<^item> Signals: each kind of signal asks a connector to shut down once, and none is lost.
  \<^item> Policy: which MCP servers reach an agent, that rejections are correlated, and the bypass that
    the duplicated \<open>method\<close> member opens.
  \<^item> Processes: the agent's environment, escalation of signals, and the paths that skip a cleanup.
  \<^item> Ends: results of a session, deadlines, the shutdown exchange, and the error paths that leave a
    session without a deadline, lose an exit notice or skip reaping. Success of a session or of a shutdown exchange
    always rests on something that was read: an exit the system reported, a confirmation on the very connection
    that carried the request.
  \<^item> Set-up: validation is equivalent to its specification and keeps every session the server can reach usable, replacing a file never loses the original,
    what \<open>init\<close> wrote loads, the diagnosis reports no error exactly for a usable server, a
    server is started only from a validated configuration, the escaped argument of the service unit is unambiguous,
    and a server and a connector that are set up by \<open>init\<close> agree on the token.

  \<^bold>\<open>Not modelled\<close>

  The libraries behind the parameters: \<open>axum\<close>, \<open>rustls\<close> and the WebSocket implementation, \<open>tokio\<close> channels
  beyond their order, capacity and closing, \<open>serde_json\<close> and \<open>toml\<close> as text formats, \<open>clap\<close> and the operating
  system. Log lines have no effect on the program's state and are left out, as are code for platforms
  other than Unix, the wrapper \<open>connect\<close> that gives \<open>connect_with_shutdown\<close> a channel nobody uses,
  \<^verbatim>\<open>lib.rs\<close> (module declarations) and the unit tests inside the source files.
\<close>

end
